(* ===== verification/Cert_Prelude.thy ===== *)
theory Cert_Prelude
  imports Main "HOL-Library.Word" "HOL-Library.State_Monad"
begin

text \<open>
  Shared ground of the development: the theorem collections the component theories fill,
  the names of the basic types (Go strings and byte slices as byte strings, \<open>uint\<close> as
  naturals with the wrap-around written out where the code converts, \<open>time.Duration\<close> and
  instants as integers counting nanoseconds, the uint64 job tokens as words), and the
  lemmas on lists and on the state monad that several components use.
\<close>

section \<open>Theorem collections\<close>

named_theorems go_simps \<open>evaluation of the Go library functions\<close>
named_theorems run_simps \<open>one step of each effectful primitive\<close>
named_theorems row_simps \<open>effect of the row updates on the columns\<close>

section \<open>Basic types\<close>

type_synonym bytes = string
type_synonym uint = nat
type_synonym time = int
type_synonym duration = int
type_synonym token = "64 word"

text \<open>Two's complement wrap-around of 64-bit signed arithmetic, and conversion to uint64.\<close>

definition wrap64 :: "int \<Rightarrow> int" where
  "wrap64 x = (x + 2 ^ 63) mod 2 ^ 64 - 2 ^ 63"

definition to_uint64 :: "int \<Rightarrow> nat" where
  "to_uint64 x = nat (x mod 2 ^ 64)"

lemma wrap64_id: "- (2 ^ 63) \<le> x \<Longrightarrow> x < 2 ^ 63 \<Longrightarrow> wrap64 x = x"
  by (simp add: wrap64_def)

lemma wrap64_range: "- (2 ^ 63) \<le> wrap64 x \<and> wrap64 x < 2 ^ 63"
proof -
  have "0 \<le> (x + 2 ^ 63) mod 2 ^ 64" and "(x + 2 ^ 63) mod 2 ^ 64 < 2 ^ 64"
    by simp_all
  then show ?thesis by (simp add: wrap64_def)
qed

lemma to_uint64_bound: "to_uint64 x < 2 ^ 64"
proof -
  have "x mod 2 ^ 64 < 2 ^ 64" by (rule pos_mod_bound) simp
  then show ?thesis by (simp add: to_uint64_def nat_less_iff)
qed

lemma to_uint64_id: "0 \<le> x \<Longrightarrow> x < 2 ^ 64 \<Longrightarrow> to_uint64 x = nat x"
  by (simp add: to_uint64_def)

section \<open>Lists used as tables\<close>

lemma find_map_key:
  assumes "\<And>r. p (f r) = p r"
  shows "find p (map f rs) = map_option f (find p rs)"
  by (induction rs) (auto simp: assms)

lemma find_None_filter: "find p rs = None \<longleftrightarrow> filter p rs = []"
  by (induction rs) auto

lemma find_SomeD: "find p rs = Some r \<Longrightarrow> r \<in> set rs \<and> p r"
  by (induction rs) (auto split: if_splits)

lemma find_append: "find p (xs @ ys) = (case find p xs of None \<Rightarrow> find p ys | Some r \<Rightarrow> Some r)"
  by (induction xs) auto

lemma find_filter_other:
  assumes "\<And>r. p r \<Longrightarrow> q r"
  shows "find p (filter q rs) = find p rs"
  by (induction rs) (auto simp: assms)

lemma distinct_key_unique:
  "distinct (map k rs) \<Longrightarrow> r \<in> set rs \<Longrightarrow> r' \<in> set rs \<Longrightarrow> k r = k r' \<Longrightarrow> r = r'"
  by (induction rs) (force simp: image_iff)+

lemma distinct_map_keep:
  assumes "\<And>r. k (f r) = k r"
  shows "map k (map f rs) = map k rs"
  by (induction rs) (auto simp: assms)

lemma find_key_eq:
  assumes "distinct (map k rs)" and "r \<in> set rs" and "p r" and "\<And>s. p s \<Longrightarrow> k s = k r"
  shows "find p rs = Some r"
  using assms(1,2)
proof (induction rs)
  case (Cons s rs)
  show ?case
  proof (cases "p s")
    case True
    then have "k s = k r" by (rule assms(4))
    with Cons.prems have "s = r" by (metis distinct_key_unique list.set_intros(1))
    with True show ?thesis by simp
  next
    case False
    with Cons.prems assms(3) have "r \<in> set rs" by auto
    with False Cons show ?thesis by simp
  qed
qed simp

end
