(* ===== verification/Go_Lib.thy ===== *)
theory Go_Lib
  imports Cert_Prelude
begin

text \<open>
  The parts of the Go standard library the server calls on strings, numbers and durations:
  package strings (TrimSuffix, TrimSpace, ToLower, ContainsAny, Contains, Split), strconv
  (ParseUint in base 10, FormatUint, Quote). Strings are byte strings. The
  Unicode tables used by ToLower, TrimSpace and Quote beyond ASCII are a parameter of type
  \<open>unicode\<close>, consulted exactly where the library leaves its ASCII fast path.
\<close>

section \<open>Bytes\<close>

definition byte :: "char \<Rightarrow> nat" where
  "byte c = of_char c"

definition isDigit :: "char \<Rightarrow> bool" where
  "isDigit c \<longleftrightarrow> 48 \<le> byte c \<and> byte c \<le> 57"

definition isLowerLetter :: "char \<Rightarrow> bool" where
  "isLowerLetter c \<longleftrightarrow> 97 \<le> byte c \<and> byte c \<le> 122"

definition digitVal :: "char \<Rightarrow> nat" where
  "digitVal c = byte c - 48"

definition isASCIIByte :: "char \<Rightarrow> bool" where
  "isASCIIByte c \<longleftrightarrow> byte c < 128"

definition asciiLower :: "char \<Rightarrow> char" where
  "asciiLower c = (if 65 \<le> byte c \<and> byte c \<le> 90 then char_of (byte c + 32) else c)"

definition asciiSpace :: "char \<Rightarrow> bool" where
  "asciiSpace c \<longleftrightarrow> byte c \<in> {9, 10, 11, 12, 13, 32}"

lemma byte_bound: "byte c < 256"
  by (simp add: byte_def of_char_def horner_sum_bit_eq_take_bit)

lemma isDigit_asciiLower: "isDigit c \<Longrightarrow> asciiLower c = c"
  by (simp add: isDigit_def asciiLower_def)

section \<open>Package strings\<close>

record unicode =
  uniLower :: "string \<Rightarrow> string"
  uniTrim :: "string \<Rightarrow> string"
  uniTrimRight :: "string \<Rightarrow> string"
  uniQuote :: "string \<Rightarrow> string"

definition TrimSuffix :: "string \<Rightarrow> string \<Rightarrow> string" where
  "TrimSuffix s suf =
     (if length suf \<le> length s \<and> drop (length s - length suf) s = suf
      then take (length s - length suf) s else s)"

definition ToLower :: "unicode \<Rightarrow> string \<Rightarrow> string" where
  "ToLower u s = (if list_all isASCIIByte s then map asciiLower s else uniLower u s)"

definition TrimSpace :: "unicode \<Rightarrow> string \<Rightarrow> string" where
  "TrimSpace u s =
     (let l = dropWhile asciiSpace s in
      if l \<noteq> [] \<and> \<not> isASCIIByte (hd l) then uniTrim u l
      else let r = rev (dropWhile asciiSpace (rev l)) in
           if r \<noteq> [] \<and> \<not> isASCIIByte (last r) then uniTrimRight u r else r)"

definition ContainsAny :: "string \<Rightarrow> string \<Rightarrow> bool" where
  "ContainsAny s chars = list_ex (\<lambda>c. c \<in> set chars) s"

fun Split :: "string \<Rightarrow> char \<Rightarrow> string list" where
  "Split [] sep = [[]]"
| "Split (c # s) sep =
     (if c = sep then [] # Split s sep
      else case Split s sep of [] \<Rightarrow> [[c]] | w # ws \<Rightarrow> (c # w) # ws)"

lemma Split_nonempty: "Split s sep \<noteq> []"
  by (induction s) (auto split: list.splits)

text \<open>Splitting loses nothing: the pieces joined by the separator are the string.\<close>

fun Join :: "string list \<Rightarrow> char \<Rightarrow> string" where
  "Join [] sep = []"
| "Join [w] sep = w"
| "Join (w # ws) sep = w @ sep # Join ws sep"

lemma Join_Cons: "ws \<noteq> [] \<Longrightarrow> Join (w # ws) sep = w @ sep # Join ws sep"
  by (cases ws) auto

lemma Join_Split: "Join (Split s sep) sep = s"
proof (induction s)
  case (Cons c s)
  show ?case
  proof (cases "Split s sep")
    case Nil
    then show ?thesis using Split_nonempty by blast
  next
    case (Cons w ws)
    with Cons.IH show ?thesis
      by (cases ws) (auto simp: Join_Cons)
  qed
qed simp

lemma Split_no_sep: "w \<in> set (Split s sep) \<Longrightarrow> sep \<notin> set w"
  by (induction s arbitrary: w) (auto split: list.splits if_splits)

lemma set_Split_subset: "w \<in> set (Split s sep) \<Longrightarrow> set w \<subseteq> set s"
  by (induction s arbitrary: w) (fastforce split: list.splits if_splits)+

section \<open>Package strconv\<close>

text \<open>
  ParseUint(s, 10, 64): the empty string and a non-digit are syntax errors, a value above
  the maximum is a range error found at the first digit that exceeds it.
\<close>

datatype numError = ErrSyntax | ErrRange

definition maxUint64 :: nat where
  "maxUint64 = 2 ^ 64 - 1"

fun parseUintLoop :: "nat \<Rightarrow> string \<Rightarrow> numError + nat" where
  "parseUintLoop n [] = Inr n"
| "parseUintLoop n (c # s) =
     (if \<not> isDigit c then Inl ErrSyntax
      else if n * 10 + digitVal c > maxUint64 then Inl ErrRange
      else parseUintLoop (n * 10 + digitVal c) s)"

definition ParseUint :: "string \<Rightarrow> numError + nat" where
  "ParseUint s = (if s = [] then Inl ErrSyntax else parseUintLoop 0 s)"

definition digitChar :: "nat \<Rightarrow> char" where
  "digitChar d = char_of (48 + d)"

fun FormatUint :: "nat \<Rightarrow> string" where
  "FormatUint n = (if n < 10 then [digitChar n] else FormatUint (n div 10) @ [digitChar (n mod 10)])"

declare FormatUint.simps [simp del]

lemma byte_digitChar: "d < 10 \<Longrightarrow> byte (digitChar d) = 48 + d"
  by (simp add: byte_def digitChar_def)

lemma isDigit_digitChar: "d < 10 \<Longrightarrow> isDigit (digitChar d)"
  by (simp add: isDigit_def byte_digitChar)

lemma digitVal_digitChar: "d < 10 \<Longrightarrow> digitVal (digitChar d) = d"
  by (simp add: digitVal_def byte_digitChar)

lemma FormatUint_nonempty: "FormatUint n \<noteq> []"
  by (subst FormatUint.simps) simp

lemma FormatUint_digits: "c \<in> set (FormatUint n) \<Longrightarrow> isDigit c"
proof (induction n rule: FormatUint.induct)
  case (1 n)
  then show ?case
    by (subst (asm) FormatUint.simps) (auto simp: isDigit_digitChar split: if_splits)
qed

lemma parseUintLoop_append:
  "parseUintLoop n (s @ t) =
     (case parseUintLoop n s of Inl err \<Rightarrow> Inl err | Inr m \<Rightarrow> parseUintLoop m t)"
  by (induction s arbitrary: n) auto

lemma parseUintLoop_FormatUint:
  "n \<le> maxUint64 \<Longrightarrow> parseUintLoop 0 (FormatUint n) = Inr n"
proof (induction n rule: FormatUint.induct)
  case (1 n)
  show ?case
  proof (cases "n < 10")
    case True
    with "1.prems" show ?thesis
      by (subst FormatUint.simps) (simp add: isDigit_digitChar digitVal_digitChar)
  next
    case False
    with 1 have IH: "parseUintLoop 0 (FormatUint (n div 10)) = Inr (n div 10)" by simp
    from False "1.prems" show ?thesis
      by (subst FormatUint.simps)
        (simp add: parseUintLoop_append IH isDigit_digitChar digitVal_digitChar)
  qed
qed

lemma ParseUint_FormatUint: "n \<le> maxUint64 \<Longrightarrow> ParseUint (FormatUint n) = Inr n"
  by (simp add: ParseUint_def FormatUint_nonempty parseUintLoop_FormatUint)

lemma parseUintLoop_bound: "n \<le> maxUint64 \<Longrightarrow> parseUintLoop n s = Inr m \<Longrightarrow> m \<le> maxUint64"
  by (induction n s rule: parseUintLoop.induct) (auto split: if_splits)

lemma ParseUint_bound: "ParseUint s = Inr m \<Longrightarrow> m \<le> maxUint64"
  by (auto simp: ParseUint_def intro: parseUintLoop_bound split: if_splits)

section \<open>Quoting\<close>

text \<open>strconv.Quote, the %q verb: the escapes of ASCII text.\<close>

definition hexDigit :: "nat \<Rightarrow> char" where
  "hexDigit d = (if d < 10 then char_of (48 + d) else char_of (87 + d))"

definition quoteChar :: "char \<Rightarrow> string" where
  "quoteChar c =
     (let n = byte c; esc = CHR 0x5C in
      if n = 0x22 \<or> n = 0x5C then [esc, c]
      else if 32 \<le> n \<and> n < 127 then [c]
      else if n = 7 then [esc, CHR ''a'']
      else if n = 8 then [esc, CHR ''b'']
      else if n = 9 then [esc, CHR ''t'']
      else if n = 10 then [esc, CHR ''n'']
      else if n = 11 then [esc, CHR ''v'']
      else if n = 12 then [esc, CHR ''f'']
      else if n = 13 then [esc, CHR ''r'']
      else [esc, CHR ''x'', hexDigit (n div 16), hexDigit (n mod 16)])"

definition Quote :: "unicode \<Rightarrow> string \<Rightarrow> string" where
  "Quote u s =
     (if list_all isASCIIByte s then CHR 0x22 # concat (map quoteChar s) @ [CHR 0x22]
      else uniQuote u s)"

end
