(* ===== verification/Go_Time.thy ===== *)
theory Go_Time
  imports Go_Lib
begin

text \<open>
  Package time as far as the server uses it: the duration constants, \<open>time.ParseDuration\<close>
  (the scanner of the Go runtime: sign, then repeated number-unit groups, every overflow
  test on uint64 kept), \<open>Add\<close>/\<open>Before\<close>/\<open>After\<close> on instants counted in nanoseconds, and
  \<open>NewTicker\<close>, which panics on a duration that is not positive. A fractional part
  \<open>f/scale\<close> of a unit is rounded down from its exact value, where the runtime computes it
  in float64.
\<close>

section \<open>Constants\<close>

definition Nanosecond :: duration where "Nanosecond = 1"
definition Microsecond :: duration where "Microsecond = 1000"
definition Millisecond :: duration where "Millisecond = 1000000"
definition Second :: duration where "Second = 1000000000"
definition Minute :: duration where "Minute = 60000000000"
definition Hour :: duration where "Hour = 3600000000000"
definition Day :: duration where "Day = 86400000000000"

lemmas duration_consts [go_simps] =
  Nanosecond_def Microsecond_def Millisecond_def Second_def Minute_def Hour_def Day_def

section \<open>ParseDuration\<close>

definition two63 :: nat where "two63 = 9223372036854775808"

lemma two63_pow: "two63 = 2 ^ 63"
  by (simp add: two63_def)

text \<open>\<open>leadingInt\<close>: the value and the rest of the text, None on overflow.\<close>

fun leadingInt :: "nat \<Rightarrow> string \<Rightarrow> (nat \<times> string) option" where
  "leadingInt x [] = Some (x, [])"
| "leadingInt x (c # s) =
     (if \<not> isDigit c then Some (x, c # s)
      else if x > two63 div 10 then None
      else if x * 10 + digitVal c > two63 then None
      else leadingInt (x * 10 + digitVal c) s)"

text \<open>\<open>leadingFraction\<close>: digits after an overflow are read and dropped.\<close>

fun leadingFraction :: "nat \<Rightarrow> nat \<Rightarrow> bool \<Rightarrow> string \<Rightarrow> nat \<times> nat \<times> string" where
  "leadingFraction x scale ov [] = (x, scale, [])"
| "leadingFraction x scale ov (c # s) =
     (if \<not> isDigit c then (x, scale, c # s)
      else if ov \<or> x > (two63 - 1) div 10 \<or> x * 10 + digitVal c > two63
      then leadingFraction x scale True s
      else leadingFraction (x * 10 + digitVal c) (scale * 10) False s)"

definition isNumChar :: "char \<Rightarrow> bool" where
  "isNumChar c \<longleftrightarrow> byte c = 46 \<or> isDigit c"

text \<open>
  \<open>unitMap\<close>; the two spellings of the micro sign are the byte pairs C2 B5 and CE BC.
\<close>

definition unitMap :: "string \<Rightarrow> nat option" where
  "unitMap u = map_of
     [(''ns'', 1), (''us'', 1000), ([CHR 0xC2, CHR 0xB5, CHR ''s''], 1000),
      ([CHR 0xCE, CHR 0xBC, CHR ''s''], 1000), (''ms'', 1000000), (''s'', 1000000000),
      (''m'', 60000000000), (''h'', 3600000000000)] u"

text \<open>One number-unit group: its value in nanoseconds and the rest of the text.\<close>

definition durationGroup :: "string \<Rightarrow> (nat \<times> string) option" where
  "durationGroup s =
     (case leadingInt 0 s of
        None \<Rightarrow> None
      | Some (v, s1) \<Rightarrow>
          (let pre = (length s1 \<noteq> length s);
               (f, scale, s2) =
                 (case s1 of
                    [] \<Rightarrow> (0, 1, s1)
                  | c # s1' \<Rightarrow> if byte c = 46 then leadingFraction 0 1 False s1' else (0, 1, s1));
               post = (case s1 of [] \<Rightarrow> False | c # s1' \<Rightarrow> byte c = 46 \<and> length s1' \<noteq> length s2);
               u = takeWhile (\<lambda>c. \<not> isNumChar c) s2;
               s3 = dropWhile (\<lambda>c. \<not> isNumChar c) s2
           in if \<not> pre \<and> \<not> post then None
              else if u = [] then None
              else case unitMap u of
                None \<Rightarrow> None
              | Some unit' \<Rightarrow>
                  if v > two63 div unit' then None
                  else if v * unit' + f * unit' div scale > two63 then None
                  else Some (v * unit' + f * unit' div scale, s3)))"

lemma leadingInt_length: "leadingInt x s = Some (v, t) \<Longrightarrow> length t \<le> length s"
  by (induction x s rule: leadingInt.induct) (auto split: if_splits)

lemma leadingFraction_length:
  "leadingFraction x sc ov s = (f, sc', t) \<Longrightarrow> length t \<le> length s"
  by (induction x sc ov s rule: leadingFraction.induct) (auto split: if_splits)

lemma durationGroup_length:
  assumes "durationGroup s = Some (v, t)"
  shows "length t < length s"
proof -
  obtain n s1 where li: "leadingInt 0 s = Some (n, s1)"
    using assms by (auto simp: durationGroup_def split: option.splits)
  obtain f sc s2 where fr: "(case s1 of [] \<Rightarrow> (0::nat, 1::nat, s1)
      | c # s1' \<Rightarrow> if byte c = 46 then leadingFraction 0 1 False s1' else (0, 1, s1)) = (f, sc, s2)"
    by (cases "case s1 of [] \<Rightarrow> (0::nat, 1::nat, s1)
      | c # s1' \<Rightarrow> if byte c = 46 then leadingFraction 0 1 False s1' else (0, 1, s1)") auto
  have le: "length s2 \<le> length s"
    using fr leadingInt_length [OF li] leadingFraction_length [of 0 1 False "tl s1"]
    by (force split: list.splits if_splits)
  have t: "t = dropWhile (\<lambda>c. \<not> isNumChar c) s2"
      and ne: "takeWhile (\<lambda>c. \<not> isNumChar c) s2 \<noteq> []"
    using assms li fr by (auto simp: durationGroup_def Let_def split: option.splits if_splits)
  have "length (takeWhile (\<lambda>c. \<not> isNumChar c) s2) + length t = length s2"
    unfolding t by (metis length_append takeWhile_dropWhile_id)
  then show ?thesis using ne le by (cases "takeWhile (\<lambda>c. \<not> isNumChar c) s2") auto
qed

text \<open>The loop over the groups: the running sum is a uint64 and must stay at most \<open>2^63\<close>.\<close>

function durationLoop :: "nat \<Rightarrow> string \<Rightarrow> nat option" where
  "durationLoop d s =
     (if s = [] then Some d
      else if \<not> isNumChar (hd s) then None
      else case durationGroup s of
        None \<Rightarrow> None
      | Some (v, t) \<Rightarrow>
          if (d + v) mod 2 ^ 64 > two63 then None else durationLoop ((d + v) mod 2 ^ 64) t)"
  by pat_completeness auto
termination
  by (relation "measure (\<lambda>(d, s). length s)") (auto dest: durationGroup_length)

declare durationLoop.simps [simp del]

lemma durationLoop_bound: "d \<le> two63 \<Longrightarrow> durationLoop d s = Some r \<Longrightarrow> r \<le> two63"
proof (induction d s rule: durationLoop.induct)
  case (1 d s)
  then show ?case
    by (subst (asm) (2) durationLoop.simps) (auto split: if_splits option.splits)
qed

definition ParseDuration :: "string \<Rightarrow> duration option" where
  "ParseDuration s =
     (let neg = (s \<noteq> [] \<and> byte (hd s) = 45);
          t = (if s \<noteq> [] \<and> (byte (hd s) = 45 \<or> byte (hd s) = 43) then tl s else s)
      in if t = ''0'' then Some 0
         else if t = [] then None
         else case durationLoop 0 t of
           None \<Rightarrow> None
         | Some d \<Rightarrow> if neg then Some (- int d)
                     else if d > two63 - 1 then None else Some (int d))"

text \<open>Every parsed duration fits in an int64.\<close>

lemma ParseDuration_range:
  assumes "ParseDuration s = Some d"
  shows "- (2 ^ 63) \<le> d \<and> d < 2 ^ 63"
proof -
  have "\<And>t r. durationLoop 0 t = Some r \<Longrightarrow> r \<le> two63"
    using durationLoop_bound by blast
  then show ?thesis
    using assms by (auto simp: ParseDuration_def Let_def two63_def split: if_splits option.splits)
qed

lemmas parseDuration_eval =
  ParseDuration_def durationLoop.simps durationGroup_def unitMap_def isNumChar_def isDigit_def
  digitVal_def byte_def two63_def Let_def

lemma ParseDuration_examples [go_simps]:
  "ParseDuration ''15m'' = Some (15 * Minute)"
  "ParseDuration ''5m'' = Some (5 * Minute)"
  "ParseDuration ''1h'' = Some Hour"
  "ParseDuration ''6h'' = Some (6 * Hour)"
  "ParseDuration ''72h'' = Some (72 * Hour)"
  "ParseDuration ''2s'' = Some (2 * Second)"
  "ParseDuration ''0s'' = Some 0"
  by (simp_all add: parseDuration_eval duration_consts)

section \<open>Instants and tickers\<close>

definition Before :: "time \<Rightarrow> time \<Rightarrow> bool" where
  "Before t u \<longleftrightarrow> t < u"

definition After :: "time \<Rightarrow> time \<Rightarrow> bool" where
  "After t u \<longleftrightarrow> t > u"

text \<open>\<open>time.NewTicker(d)\<close>: None is the panic "non-positive interval for NewTicker".\<close>

definition NewTicker :: "duration \<Rightarrow> duration option" where
  "NewTicker d = (if d \<le> 0 then None else Some d)"

end
