(* ===== verification/Base64.thy ===== *)
theory Base64
  imports Go_Lib
begin

text \<open>
  Package encoding/base64, the standard alphabet with padding and without the strict flag, as
  \<open>base64.StdEncoding\<close>: encoding of byte strings, and the decoder, which ignores carriage
  returns and newlines anywhere, reads groups of four symbols, and accepts padding only at
  the end. The round trip is proved for all byte strings.
\<close>

section \<open>The alphabet\<close>

definition b64char :: "nat \<Rightarrow> char" where
  "b64char n =
     (if n < 26 then char_of (65 + n)
      else if n < 52 then char_of (97 + (n - 26))
      else if n < 62 then char_of (48 + (n - 52))
      else if n = 62 then CHR ''+'' else CHR ''/'')"

definition b64val :: "char \<Rightarrow> nat option" where
  "b64val c =
     (let b = byte c in
      if 65 \<le> b \<and> b \<le> 90 then Some (b - 65)
      else if 97 \<le> b \<and> b \<le> 122 then Some (b - 97 + 26)
      else if 48 \<le> b \<and> b \<le> 57 then Some (b - 48 + 52)
      else if b = 43 then Some 62
      else if b = 47 then Some 63
      else None)"

definition padChar :: char where
  "padChar = CHR ''=''"

definition isNewline :: "char \<Rightarrow> bool" where
  "isNewline c \<longleftrightarrow> byte c = 10 \<or> byte c = 13"

lemma b64val_b64char: "n < 64 \<Longrightarrow> b64val (b64char n) = Some n"
  by (auto simp: b64val_def b64char_def byte_def Let_def)

lemma b64val_bound: "b64val c = Some n \<Longrightarrow> n < 64"
  by (auto simp: b64val_def Let_def split: if_splits)

lemma b64val_padChar [simp]: "b64val padChar = None"
  by (simp add: b64val_def padChar_def byte_def)

lemma isNewline_padChar [simp]: "\<not> isNewline padChar"
  by (simp add: isNewline_def padChar_def byte_def)

lemma isNewline_b64char [simp]: "n < 64 \<Longrightarrow> \<not> isNewline (b64char n)"
  by (auto simp: isNewline_def b64char_def byte_def)

section \<open>Encoding\<close>

fun encodeB64 :: "bytes \<Rightarrow> string" where
  "encodeB64 [] = []"
| "encodeB64 [a] =
     [b64char (byte a div 4), b64char (byte a mod 4 * 16), padChar, padChar]"
| "encodeB64 [a, b] =
     [b64char (byte a div 4), b64char (byte a mod 4 * 16 + byte b div 16),
      b64char (byte b mod 16 * 4), padChar]"
| "encodeB64 (a # b # c # s) =
     b64char (byte a div 4) # b64char (byte a mod 4 * 16 + byte b div 16)
     # b64char (byte b mod 16 * 4 + byte c div 64) # b64char (byte c mod 64) # encodeB64 s"

definition EncodedLen :: "nat \<Rightarrow> nat" where
  "EncodedLen n = (n + 2) div 3 * 4"

lemma EncodedLen_step: "EncodedLen (Suc (Suc (Suc n))) = EncodedLen n + 4"
  unfolding EncodedLen_def by presburger

lemma length_encodeB64: "length (encodeB64 s) = EncodedLen (length s)"
  by (induction s rule: encodeB64.induct) (simp_all add: EncodedLen_step, simp_all add: EncodedLen_def)

section \<open>Decoding\<close>

definition triple0 :: "nat \<Rightarrow> nat \<Rightarrow> char" where
  "triple0 a b = char_of (a * 4 + b div 16)"

definition triple1 :: "nat \<Rightarrow> nat \<Rightarrow> char" where
  "triple1 b c = char_of (b mod 16 * 16 + c div 4)"

definition triple2 :: "nat \<Rightarrow> nat \<Rightarrow> char" where
  "triple2 c d = char_of (c mod 4 * 64 + d)"

fun decodeQuanta :: "string \<Rightarrow> bytes option" where
  "decodeQuanta [] = Some []"
| "decodeQuanta (p # q # r # s # rest) =
     (case (b64val p, b64val q) of
        (Some a, Some b) \<Rightarrow>
          (case (b64val r, b64val s) of
             (Some c, Some d) \<Rightarrow>
               map_option (\<lambda>t. triple0 a b # triple1 b c # triple2 c d # t) (decodeQuanta rest)
           | (Some c, None) \<Rightarrow>
               if s = padChar \<and> rest = [] then Some [triple0 a b, triple1 b c] else None
           | (None, _) \<Rightarrow>
               if r = padChar \<and> s = padChar \<and> rest = [] then Some [triple0 a b] else None)
      | _ \<Rightarrow> None)"
| "decodeQuanta _ = None"

definition decodeB64 :: "string \<Rightarrow> bytes option" where
  "decodeB64 s = decodeQuanta (filter (\<lambda>c. \<not> isNewline c) s)"

section \<open>Round trip\<close>

lemma byte_parts:
  "byte a div 4 < 64" "byte a mod 4 * 16 < 64" "byte a mod 4 * 16 + byte b div 16 < 64"
  "byte b mod 16 * 4 < 64" "byte b mod 16 * 4 + byte c div 64 < 64" "byte c mod 64 < 64"
  using byte_bound [of a] byte_bound [of b] byte_bound [of c] by linarith+

lemma char_of_byte: "char_of (byte c) = c"
  by (simp add: byte_def)

lemma triple0_enc: "triple0 (byte a div 4) (byte a mod 4 * 16 + byte b div 16) = a"
proof -
  have "(byte a mod 4 * 16 + byte b div 16) div 16 = byte a mod 4"
    using byte_bound [of b] by simp
  then show ?thesis by (simp add: triple0_def char_of_byte)
qed

lemma triple0_enc1: "triple0 (byte a div 4) (byte a mod 4 * 16) = a"
  by (simp add: triple0_def char_of_byte)

lemma triple1_enc:
  "triple1 (byte a mod 4 * 16 + byte b div 16) (byte b mod 16 * 4 + byte c div 64) = b"
proof -
  have "(byte a mod 4 * 16 + byte b div 16) mod 16 = byte b div 16"
    using byte_bound [of b] by simp
  moreover have "(byte b mod 16 * 4 + byte c div 64) div 4 = byte b mod 16"
    using byte_bound [of c] by simp
  moreover have "byte b div 16 * 16 + byte b mod 16 = byte b" by simp
  ultimately show ?thesis by (simp only: triple1_def char_of_byte)
qed

lemma triple1_enc2: "triple1 (byte a mod 4 * 16 + byte b div 16) (byte b mod 16 * 4) = b"
  using triple1_enc [of a b "CHR 0x00"] by (simp add: byte_def)

lemma triple2_enc: "triple2 (byte b mod 16 * 4 + byte c div 64) (byte c mod 64) = c"
proof -
  have "(byte b mod 16 * 4 + byte c div 64) mod 4 = byte c div 64"
    using byte_bound [of c] by simp
  moreover have "byte c div 64 * 64 + byte c mod 64 = byte c" by simp
  ultimately show ?thesis by (simp only: triple2_def char_of_byte)
qed

lemma filter_encodeB64: "filter (\<lambda>c. \<not> isNewline c) (encodeB64 s) = encodeB64 s"
  by (induction s rule: encodeB64.induct) (simp_all add: byte_parts)

lemma decodeQuanta_encodeB64: "decodeQuanta (encodeB64 s) = Some s"
  by (induction s rule: encodeB64.induct)
    (simp_all add: byte_parts b64val_b64char triple0_enc triple0_enc1 triple1_enc triple1_enc2
      triple2_enc)

lemma decode_encode: "decodeB64 (encodeB64 s) = Some s"
  by (simp add: decodeB64_def filter_encodeB64 decodeQuanta_encodeB64)

section \<open>Codecs\<close>

text \<open>The interface of an encoding that loses nothing.\<close>

locale codec =
  fixes enc :: "'a \<Rightarrow> bytes" and dec :: "bytes \<Rightarrow> 'a option"
  assumes roundtrip: "dec (enc x) = Some x"
begin

lemma enc_inj: "enc x = enc y \<longleftrightarrow> x = y"
  using roundtrip by (metis option.inject)

end

interpretation b64: codec encodeB64 decodeB64
  by unfold_locales (rule decode_encode)

end
