(* ===== verification/Config.thy ===== *)
theory Config
  imports Go_Time Base64
begin

text \<open>
  config/config.go: the configuration records, the accessors with their defaults, the two ways
  defaults are filled in (\<open>setDefaults\<close> when there is no file, \<open>applyDefaults\<close> after a file
  was read), start-up validation, and the delegation target of a domain. A \<open>*bool\<close> is an
  option, a Go int an integer, a nil error \<open>Inr ()\<close>. The environment variable CERTHUB_DEV and
  the Unicode tables are the parameter \<open>os\<close>; TOML decoding, file access, logging and
  crypto/rand are not modelled.
\<close>

section \<open>Records\<close>

record AuthConfig =
  RegistrationEnabled :: "bool option"

record RenewalConfig =
  Enabled :: "bool option"
  CheckInterval :: string
  RenewBeforeDays :: int
  GeneratingTimeout :: string
  GeneratingCheckInterval :: string
  RenewBackoffBase :: string
  RenewBackoffMax :: string
  MaxConcurrentJobs :: int

record DeployConfig =
  DeployEnabled :: "bool option"

record ServerConfig =
  ServerPort :: string
  Addr :: string
  AllowedOrigins :: "string list"

record DatabaseConfig =
  Host :: string
  DatabasePort :: string
  User :: string
  Password :: string
  DBName :: string
  SSLMode :: string

record SessionConfig =
  Secret :: string
  MaxAge :: int
  Path :: string
  HttpOnly :: bool
  Secure :: bool
  SameSite :: string
  Name :: string

record ACMEConfig =
  CAURL :: string

record CloudflareConfig =
  APIEmail :: string
  APIKey :: string
  APIToken :: string

record DNSConfig =
  Provider :: string
  AuthZone :: string
  PropagationTimeout :: string
  PropagationInterval :: string
  Cloudflare :: CloudflareConfig

record DomainConfig =
  BaseCNameTarget :: string
  UnclaimedErrorRelease :: string

record SecurityConfig =
  EncryptionKey :: string
  DevMode :: "bool option"

record RateLimitConfig =
  RateEnabled :: bool
  RequestsPerMinute :: int
  CertIssuePerHour :: int

record Config =
  Server :: ServerConfig
  Database :: DatabaseConfig
  Session :: SessionConfig
  ACME :: ACMEConfig
  DNS :: DNSConfig
  DomainCfg :: DomainConfig
  Security :: SecurityConfig
  RateLimit :: RateLimitConfig
  Renewal :: RenewalConfig
  Deploy :: DeployConfig
  Auth :: AuthConfig

record os =
  CERTHUB_DEV :: "string option"
  uni :: unicode

section \<open>Accessors\<close>

definition IsRegistrationEnabled :: "AuthConfig \<Rightarrow> bool" where
  "IsRegistrationEnabled a = (case RegistrationEnabled a of None \<Rightarrow> False | Some b \<Rightarrow> b)"

definition RenewalIsEnabled :: "RenewalConfig \<Rightarrow> bool" where
  "RenewalIsEnabled r = (case Enabled r of None \<Rightarrow> True | Some b \<Rightarrow> b)"

definition DeployIsEnabled :: "DeployConfig \<Rightarrow> bool" where
  "DeployIsEnabled d = (case DeployEnabled d of None \<Rightarrow> False | Some b \<Rightarrow> b)"

definition parseDurationDefault :: "string \<Rightarrow> duration \<Rightarrow> duration" where
  "parseDurationDefault value fallback =
     (if value = [] then fallback
      else case ParseDuration value of None \<Rightarrow> fallback | Some d \<Rightarrow> d)"

definition GeneratingTimeoutDuration :: "RenewalConfig \<Rightarrow> duration" where
  "GeneratingTimeoutDuration r = parseDurationDefault (GeneratingTimeout r) (15 * Minute)"

definition GeneratingCheckIntervalDuration :: "RenewalConfig \<Rightarrow> duration" where
  "GeneratingCheckIntervalDuration r = parseDurationDefault (GeneratingCheckInterval r) (5 * Minute)"

text \<open>
  The backoff loop \<open>for i := 1; i < n; i++\<close> as a count of remaining rounds; doubling is int64
  arithmetic.
\<close>

fun backoffLoop :: "nat \<Rightarrow> duration \<Rightarrow> duration \<Rightarrow> duration" where
  "backoffLoop 0 backoff mx = (if backoff > mx then mx else backoff)"
| "backoffLoop (Suc i) backoff mx =
     (if backoff \<ge> mx then mx else backoffLoop i (wrap64 (backoff * 2)) mx)"

definition AutoRenewBackoffDuration :: "RenewalConfig \<Rightarrow> int \<Rightarrow> duration" where
  "AutoRenewBackoffDuration r consecutiveFailures =
     (let base = parseDurationDefault (RenewBackoffBase r) (6 * Hour);
          mx = parseDurationDefault (RenewBackoffMax r) (72 * Hour);
          n = (if consecutiveFailures < 1 then 1 else consecutiveFailures)
      in backoffLoop (nat (n - 1)) base mx)"

definition MaxConcurrentCertJobs :: "RenewalConfig \<Rightarrow> int" where
  "MaxConcurrentCertJobs r = (if MaxConcurrentJobs r \<le> 0 then 5 else MaxConcurrentJobs r)"

definition PropagationTimeoutDuration :: "DNSConfig \<Rightarrow> duration" where
  "PropagationTimeoutDuration d = parseDurationDefault (PropagationTimeout d) (5 * Minute)"

definition PropagationIntervalDuration :: "DNSConfig \<Rightarrow> duration" where
  "PropagationIntervalDuration d = parseDurationDefault (PropagationInterval d) (2 * Second)"

definition UnclaimedErrorReleaseDuration :: "DomainConfig \<Rightarrow> duration" where
  "UnclaimedErrorReleaseDuration d = parseDurationDefault (UnclaimedErrorRelease d) (72 * Hour)"

definition IsDevMode :: "os \<Rightarrow> SecurityConfig \<Rightarrow> bool" where
  "IsDevMode os s =
     (let fromConfig = (case DevMode s of None \<Rightarrow> False | Some b \<Rightarrow> b) in
      case CERTHUB_DEV os of
        None \<Rightarrow> fromConfig
      | Some v \<Rightarrow>
          (let w = ToLower (uni os) (TrimSpace (uni os) v) in
           if w \<in> {''1'', ''true'', ''yes'', ''on''} then True
           else if w \<in> {''0'', ''false'', ''no'', ''off''} then False
           else fromConfig))"

definition CertIssueRequestsPerHour :: "RateLimitConfig \<Rightarrow> int" where
  "CertIssueRequestsPerHour r =
     (if CertIssuePerHour r < 0 then 0
      else if CertIssuePerHour r = 0 then 10
      else CertIssuePerHour r)"

definition CertIssueRateLimitEnabled :: "RateLimitConfig \<Rightarrow> bool" where
  "CertIssueRateLimitEnabled r \<longleftrightarrow> CertIssuePerHour r \<noteq> - 1"

section \<open>Defaults\<close>

definition defaultSessionSecret :: string where
  "defaultSessionSecret = ''certhub-secret-change-in-production''"

definition letsEncryptURL :: string where
  "letsEncryptURL = ''https://acme-v02.api.letsencrypt.org/directory''"

definition setDefaults :: Config where
  "setDefaults =
     \<lparr>Server = \<lparr>ServerPort = ''8080'', Addr = [], AllowedOrigins = []\<rparr>,
      Database = \<lparr>Host = ''localhost'', DatabasePort = ''5432'', User = ''postgres'',
                  Password = [], DBName = ''certhub'', SSLMode = ''disable''\<rparr>,
      Session = \<lparr>Secret = defaultSessionSecret, MaxAge = 86400 * 30, Path = ''/'',
                 HttpOnly = True, Secure = False, SameSite = ''lax'', Name = ''certhub_session''\<rparr>,
      ACME = \<lparr>CAURL = letsEncryptURL\<rparr>,
      DNS = \<lparr>Provider = ''cloudflare'', AuthZone = [], PropagationTimeout = ''5m'',
             PropagationInterval = ''2s'',
             Cloudflare = \<lparr>APIEmail = [], APIKey = [], APIToken = []\<rparr>\<rparr>,
      DomainCfg = \<lparr>BaseCNameTarget = ''cname.yourservice.com'', UnclaimedErrorRelease = ''72h''\<rparr>,
      Security = \<lparr>EncryptionKey = [], DevMode = None\<rparr>,
      RateLimit = \<lparr>RateEnabled = True, RequestsPerMinute = 60, CertIssuePerHour = 10\<rparr>,
      Renewal = \<lparr>Enabled = None, CheckInterval = ''1h'', RenewBeforeDays = 30,
                 GeneratingTimeout = ''15m'', GeneratingCheckInterval = ''5m'',
                 RenewBackoffBase = ''6h'', RenewBackoffMax = ''72h'', MaxConcurrentJobs = 0\<rparr>,
      Deploy = \<lparr>DeployEnabled = None\<rparr>,
      Auth = \<lparr>RegistrationEnabled = None\<rparr>\<rparr>"

definition dflt :: "string \<Rightarrow> string \<Rightarrow> string" where
  "dflt v s = (if s = [] then v else s)"

definition dflti :: "int \<Rightarrow> int \<Rightarrow> int" where
  "dflti v i = (if i = 0 then v else i)"

definition applyDefaults :: "Config \<Rightarrow> Config" where
  "applyDefaults cfg = cfg
     \<lparr>Server := (Server cfg)\<lparr>ServerPort := dflt ''8080'' (ServerPort (Server cfg))\<rparr>,
      Database := (Database cfg)
        \<lparr>DatabasePort := dflt ''5432'' (DatabasePort (Database cfg)),
         SSLMode := dflt ''disable'' (SSLMode (Database cfg))\<rparr>,
      Session := (Session cfg)
        \<lparr>Secret := dflt defaultSessionSecret (Secret (Session cfg)),
         MaxAge := dflti (86400 * 30) (MaxAge (Session cfg)),
         Path := dflt ''/'' (Path (Session cfg)),
         Name := dflt ''certhub_session'' (Name (Session cfg)),
         SameSite := dflt ''lax'' (SameSite (Session cfg))\<rparr>,
      ACME := (ACME cfg)\<lparr>CAURL := dflt letsEncryptURL (CAURL (ACME cfg))\<rparr>,
      DomainCfg := (DomainCfg cfg)
        \<lparr>BaseCNameTarget := dflt ''cname.yourservice.com'' (BaseCNameTarget (DomainCfg cfg))\<rparr>,
      DNS := (DNS cfg)
        \<lparr>PropagationTimeout := dflt ''5m'' (PropagationTimeout (DNS cfg)),
         PropagationInterval := dflt ''2s'' (PropagationInterval (DNS cfg))\<rparr>,
      RateLimit := (RateLimit cfg)
        \<lparr>RequestsPerMinute := dflti 60 (RequestsPerMinute (RateLimit cfg))\<rparr>,
      Renewal := (Renewal cfg)
        \<lparr>CheckInterval := dflt ''1h'' (CheckInterval (Renewal cfg)),
         RenewBeforeDays := dflti 30 (RenewBeforeDays (Renewal cfg)),
         GeneratingTimeout := dflt ''15m'' (GeneratingTimeout (Renewal cfg)),
         GeneratingCheckInterval := dflt ''5m'' (GeneratingCheckInterval (Renewal cfg)),
         RenewBackoffBase := dflt ''6h'' (RenewBackoffBase (Renewal cfg)),
         RenewBackoffMax := dflt ''72h'' (RenewBackoffMax (Renewal cfg))\<rparr>\<rparr>"

section \<open>Validation\<close>

datatype configError =
    SessionSecretDefault
  | AllowedOriginsMissing
  | AllowedOriginsWildcard
  | AuthZoneMissing
  | CloudflareCredentialsMissing
  | EncryptionKeyInvalid
  | EncryptionKeyLength
  | EncryptionKeyMissing

definition isDefaultSessionSecret :: "string \<Rightarrow> bool" where
  "isDefaultSessionSecret secret \<longleftrightarrow> secret = [] \<or> secret = defaultSessionSecret"

definition validateSessionAndCORS :: "os \<Rightarrow> Config \<Rightarrow> configError + unit" where
  "validateSessionAndCORS os cfg =
     (if IsDevMode os (Security cfg) then Inr ()
      else if isDefaultSessionSecret (Secret (Session cfg)) then Inl SessionSecretDefault
      else if AllowedOrigins (Server cfg) = [] then Inl AllowedOriginsMissing
      else if list_ex (\<lambda>origin. origin = ''*'') (AllowedOrigins (Server cfg))
           then Inl AllowedOriginsWildcard
      else Inr ())"

definition DecodeEncryptionKey :: "os \<Rightarrow> string \<Rightarrow> bytes option" where
  "DecodeEncryptionKey os encoded = decodeB64 (TrimSpace (uni os) encoded)"

definition Validate :: "os \<Rightarrow> Config \<Rightarrow> configError + unit" where
  "Validate os cfg =
     (case validateSessionAndCORS os cfg of
        Inl err \<Rightarrow> Inl err
      | Inr _ \<Rightarrow>
          if AuthZone (DNS cfg) = [] then Inl AuthZoneMissing
          else let cf = Cloudflare (DNS cfg) in
            if APIToken cf = [] \<and> (APIEmail cf = [] \<or> APIKey cf = [])
            then Inl CloudflareCredentialsMissing
            else if EncryptionKey (Security cfg) \<noteq> []
            then (case DecodeEncryptionKey os (EncryptionKey (Security cfg)) of
                    None \<Rightarrow> Inl EncryptionKeyInvalid
                  | Some key \<Rightarrow> if length key \<noteq> 32 then Inl EncryptionKeyLength else Inr ())
            else if IsDevMode os (Security cfg) then Inr ()
            else Inl EncryptionKeyMissing)"

definition GenerateEncryptionKey :: "bytes option \<Rightarrow> string option" where
  "GenerateEncryptionKey rand = map_option encodeB64 rand"

definition DelegationTarget :: "Config \<Rightarrow> uint \<Rightarrow> string" where
  "DelegationTarget cfg domainID =
     FormatUint domainID @ ''.'' @ TrimSuffix (BaseCNameTarget (DomainCfg cfg)) ''.''"

end
