(* ===== verification/Config_Props.thy ===== *)
theory Config_Props
  imports Config
begin

text \<open>
  What the configuration layer guarantees: the closed form and the bounds of the auto-renewal
  backoff, the fixpoints of the defaults, what a passed validation means, and that delegation
  targets of different domains differ.
\<close>

section \<open>Auto-renewal backoff\<close>

lemma backoffLoop_closed:
  assumes "0 \<le> mx" and "mx \<le> 2 ^ 62" and "0 \<le> b" and "b < 2 ^ 63"
  shows "backoffLoop i b mx = min mx (b * 2 ^ i)"
  using assms(3,4)
proof (induction i arbitrary: b)
  case 0
  then show ?case by simp
next
  case (Suc i)
  show ?case
  proof (cases "b \<ge> mx")
    case True
    have "(1::int) \<le> 2 ^ Suc i" by (rule one_le_power) simp
    then have "b * 1 \<le> b * 2 ^ Suc i" using Suc.prems(1) by (rule mult_left_mono)
    with True show ?thesis by simp
  next
    case False
    with assms(2) have lt: "b * 2 < 2 ^ 63" by simp
    with Suc.prems have "wrap64 (b * 2) = b * 2" by (intro wrap64_id) simp_all
    with False Suc.IH [of "b * 2"] Suc.prems(1) lt show ?thesis by (simp add: mult.assoc)
  qed
qed

lemma backoffLoop_base_max: "b \<ge> mx \<Longrightarrow> backoffLoop i b mx = mx"
  by (cases i) auto

lemma backoffLoop_le: "backoffLoop i b mx \<le> mx"
  by (induction i b mx rule: backoffLoop.induct) auto

lemma AutoRenewBackoff_le:
  "AutoRenewBackoffDuration r n \<le> parseDurationDefault (RenewBackoffMax r) (72 * Hour)"
  by (simp add: AutoRenewBackoffDuration_def Let_def backoffLoop_le)

lemma parseDurationDefault_range:
  "- (2 ^ 63) \<le> f \<Longrightarrow> f < 2 ^ 63 \<Longrightarrow>
     - (2 ^ 63) \<le> parseDurationDefault v f \<and> parseDurationDefault v f < 2 ^ 63"
  using ParseDuration_range by (auto simp: parseDurationDefault_def split: option.splits)

text \<open>
  Property C39. While the two configured durations are not negative and the cap is at most
  \<open>2^62\<close> ns (146 years), the doubling loop computes
  \<open>min max (base * 2^(failures - 1))\<close>, a failure count below 1 counting as 1.
\<close>

theorem backoff_closed_form:
  assumes "0 \<le> parseDurationDefault (RenewBackoffBase r) (6 * Hour)"
    and "0 \<le> parseDurationDefault (RenewBackoffMax r) (72 * Hour)"
    and "parseDurationDefault (RenewBackoffMax r) (72 * Hour) \<le> 2 ^ 62"
  shows "AutoRenewBackoffDuration r n =
    min (parseDurationDefault (RenewBackoffMax r) (72 * Hour))
        (parseDurationDefault (RenewBackoffBase r) (6 * Hour) * 2 ^ nat (max n 1 - 1))"
proof -
  have "parseDurationDefault (RenewBackoffBase r) (6 * Hour) < 2 ^ 63"
    using parseDurationDefault_range [of "6 * Hour"] by (simp add: duration_consts)
  moreover have "nat ((if n < 1 then 1 else n) - 1) = nat (max n 1 - 1)" by simp
  ultimately show ?thesis
    using assms backoffLoop_closed by (simp only: AutoRenewBackoffDuration_def Let_def)
qed

theorem backoff_closed_form_witness:
  "AutoRenewBackoffDuration (Renewal setDefaults) 3 = 24 * Hour
   \<and> AutoRenewBackoffDuration (Renewal setDefaults) 100 = 72 * Hour"
proof -
  have base: "parseDurationDefault (RenewBackoffBase (Renewal setDefaults)) (6 * Hour) = 6 * Hour"
    and mx: "parseDurationDefault (RenewBackoffMax (Renewal setDefaults)) (72 * Hour) = 72 * Hour"
    by (simp_all add: setDefaults_def parseDurationDefault_def go_simps)
  note form = backoff_closed_form [of "Renewal setDefaults", unfolded base mx]
  show ?thesis
    using form [of 3] form [of 100] by (simp add: duration_consts)
qed

section \<open>Defaults\<close>

lemma dflt_idem [simp]: "dflt v (dflt v s) = dflt v s"
  by (simp add: dflt_def)

lemma dflti_idem [simp]: "dflti v (dflti v i) = dflti v i"
  by (simp add: dflti_def)

text \<open>
  Filling in defaults is a projection and agrees with the built-in
  configuration: applying it twice changes nothing more, and \<open>setDefaults\<close> is a fixpoint.
\<close>

theorem applyDefaults_projection:
  "applyDefaults (applyDefaults cfg) = applyDefaults cfg \<and> applyDefaults setDefaults = setDefaults"
  by (simp add: applyDefaults_def setDefaults_def dflt_def dflti_def defaultSessionSecret_def
      letsEncryptURL_def)

text \<open>
  The flags are not defaulted by \<open>applyDefaults\<close>: a configuration file that
  leaves out \<open>session.http_only\<close> and \<open>ratelimit.enabled\<close> runs with both off, while a
  missing file (\<open>setDefaults\<close>) turns both on.
\<close>

theorem flags_without_defaults:
  "HttpOnly (Session (applyDefaults cfg)) = HttpOnly (Session cfg)
   \<and> RateEnabled (RateLimit (applyDefaults cfg)) = RateEnabled (RateLimit cfg)
   \<and> HttpOnly (Session setDefaults) \<and> RateEnabled (RateLimit setDefaults)"
  by (simp add: applyDefaults_def setDefaults_def)

section \<open>Validation\<close>

lemma validateSessionAndCORS_ok:
  "validateSessionAndCORS os cfg = Inr () \<longleftrightarrow>
     IsDevMode os (Security cfg)
     \<or> \<not> isDefaultSessionSecret (Secret (Session cfg))
       \<and> AllowedOrigins (Server cfg) \<noteq> [] \<and> ''*'' \<notin> set (AllowedOrigins (Server cfg))"
  by (auto simp: validateSessionAndCORS_def list_ex_iff)

lemma Validate_ok:
  "Validate os cfg = Inr () \<longleftrightarrow>
     validateSessionAndCORS os cfg = Inr ()
     \<and> AuthZone (DNS cfg) \<noteq> []
     \<and> (APIToken (Cloudflare (DNS cfg)) \<noteq> []
        \<or> APIEmail (Cloudflare (DNS cfg)) \<noteq> [] \<and> APIKey (Cloudflare (DNS cfg)) \<noteq> [])
     \<and> (if EncryptionKey (Security cfg) = [] then IsDevMode os (Security cfg)
        else \<exists>key. DecodeEncryptionKey os (EncryptionKey (Security cfg)) = Some key \<and> length key = 32)"
  by (cases "validateSessionAndCORS os cfg") (auto simp: Validate_def Let_def split: option.splits)

lemma DecodeEncryptionKey_empty: "DecodeEncryptionKey os [] = Some []"
  by (simp add: DecodeEncryptionKey_def TrimSpace_def decodeB64_def)

text \<open>
  Property C38. Outside dev mode a configuration passes validation exactly when it has a session
  secret of its own, a list of origins without the wildcard, the zone of the DNS provider and
  credentials for it (an API token, or an e-mail address with an API key), and an encryption key
  that decodes to 32 bytes.
\<close>

theorem Validate_production:
  assumes "\<not> IsDevMode os (Security cfg)"
  shows "Validate os cfg = Inr () \<longleftrightarrow>
      Secret (Session cfg) \<notin> {[], defaultSessionSecret}
    \<and> AllowedOrigins (Server cfg) \<noteq> [] \<and> ''*'' \<notin> set (AllowedOrigins (Server cfg))
    \<and> AuthZone (DNS cfg) \<noteq> []
    \<and> (APIToken (Cloudflare (DNS cfg)) \<noteq> []
       \<or> APIEmail (Cloudflare (DNS cfg)) \<noteq> [] \<and> APIKey (Cloudflare (DNS cfg)) \<noteq> [])
    \<and> (\<exists>key. DecodeEncryptionKey os (EncryptionKey (Security cfg)) = Some key \<and> length key = 32)"
  using assms
  by (cases "EncryptionKey (Security cfg) = []")
    (auto simp: Validate_ok validateSessionAndCORS_ok isDefaultSessionSecret_def DecodeEncryptionKey_empty)

text \<open>A production configuration: a random key, one origin, an API token.\<close>

definition asciiOnly :: unicode where
  "asciiOnly = \<lparr>uniLower = (\<lambda>s. s), uniTrim = (\<lambda>s. s), uniTrimRight = (\<lambda>s. s),
     uniQuote = (\<lambda>s. s)\<rparr>"

definition prodOs :: os where
  "prodOs = \<lparr>CERTHUB_DEV = None, uni = asciiOnly\<rparr>"

definition prodCfg :: Config where
  "prodCfg = setDefaults
     \<lparr>Session := (Session setDefaults)\<lparr>Secret := ''a-long-random-secret''\<rparr>,
      Server := (Server setDefaults)\<lparr>AllowedOrigins := [''https://app.test'']\<rparr>,
      DNS := (DNS setDefaults)
        \<lparr>AuthZone := ''yourservice.com'',
         Cloudflare := \<lparr>APIEmail = [], APIKey = [], APIToken = ''tok''\<rparr>\<rparr>,
      Security := \<lparr>EncryptionKey = ''MDEyMzQ1Njc4OWFiY2RlZjAxMjM0NTY3ODlhYmNkZWY='',
                   DevMode = None\<rparr>\<rparr>"

lemma prodCfg_fields:
  "Secret (Session prodCfg) = ''a-long-random-secret''"
  "AllowedOrigins (Server prodCfg) = [''https://app.test'']"
  "AuthZone (DNS prodCfg) = ''yourservice.com''"
  "APIToken (Cloudflare (DNS prodCfg)) = ''tok''"
  "EncryptionKey (Security prodCfg) = ''MDEyMzQ1Njc4OWFiY2RlZjAxMjM0NTY3ODlhYmNkZWY=''"
  "\<not> IsDevMode prodOs (Security prodCfg)"
  "Renewal prodCfg = Renewal setDefaults"
  "DomainCfg prodCfg = DomainCfg setDefaults"
  "ACME prodCfg = ACME setDefaults"
  "RateLimit prodCfg = RateLimit setDefaults"
  by (simp_all add: prodCfg_def prodOs_def IsDevMode_def setDefaults_def)

lemma prodKey:
  "DecodeEncryptionKey prodOs (EncryptionKey (Security prodCfg)) =
     Some ''0123456789abcdef0123456789abcdef''"
  unfolding prodCfg_fields DecodeEncryptionKey_def prodOs_def asciiOnly_def by code_simp

lemma prodCfg_valid: "Validate prodOs prodCfg = Inr ()"
  by (simp add: Validate_ok validateSessionAndCORS_ok isDefaultSessionSecret_def
      defaultSessionSecret_def
      prodKey [unfolded prodCfg_fields] prodCfg_fields)

theorem Validate_production_witness:
  "Validate prodOs prodCfg = Inr ()
    \<and> Validate prodOs (prodCfg\<lparr>DNS := (DNS prodCfg)\<lparr>AuthZone := []\<rparr>\<rparr>) \<noteq> Inr ()"
proof -
  let ?cfg = "prodCfg\<lparr>DNS := (DNS prodCfg)\<lparr>AuthZone := []\<rparr>\<rparr>"
  have "\<not> IsDevMode prodOs (Security ?cfg)" using prodCfg_fields(6) by simp
  from Validate_production [OF this] Validate_production [OF prodCfg_fields(6)] prodKey
  show ?thesis by (simp add: prodCfg_fields defaultSessionSecret_def)
qed

section \<open>Delegation targets\<close>

definition decimal :: "string \<Rightarrow> nat" where
  "decimal = foldl (\<lambda>n c. n * 10 + digitVal c) 0"

lemma decimal_FormatUint: "decimal (FormatUint n) = n"
proof (induction n rule: FormatUint.induct)
  case (1 n)
  then show ?case
    by (subst FormatUint.simps) (auto simp: decimal_def digitVal_digitChar)
qed

lemma takeWhile_digits: "takeWhile isDigit (FormatUint n @ CHR ''.'' # s) = FormatUint n"
  by (subst takeWhile_append2) (auto dest: FormatUint_digits simp: isDigit_def byte_def)

lemma domain_of_DelegationTarget: "decimal (takeWhile isDigit (DelegationTarget cfg i)) = i"
  by (simp add: DelegationTarget_def takeWhile_digits decimal_FormatUint)

text \<open>
  The delegation target determines the domain it was made for: two domains never
  share a target, so the TXT record of one challenge cannot answer for another domain.
\<close>

theorem DelegationTarget_inj:
  "DelegationTarget cfg i = DelegationTarget cfg j \<longleftrightarrow> i = j"
  using domain_of_DelegationTarget by metis

end
