(* ===== verification/Domain_Name.thy ===== *)
theory Domain_Name
  imports Go_Lib
begin

text \<open>
  utils/domain.go: normalisation and validation of domain names. Errors are a datatype, one
  constructor per message. The third-party IDNA conversion (\<open>idna.Lookup.ToASCII\<close>) and the
  IPv6 grammar of \<open>net.ParseIP\<close> are fields of the parameter \<open>names\<close>; the dotted-quad
  grammar and the UTF-8 validity test of the standard library are written out.
\<close>

section \<open>Standard library pieces\<close>

definition isCont :: "nat \<Rightarrow> char \<Rightarrow> nat \<Rightarrow> bool" where
  "isCont lo c hi \<longleftrightarrow> lo \<le> byte c \<and> byte c \<le> hi"

text \<open>\<open>utf8.ValidString\<close>: the well-formed byte sequences of one to four bytes.\<close>

fun ValidString :: "string \<Rightarrow> bool" where
  "ValidString [] \<longleftrightarrow> True"
| "ValidString (a # s) \<longleftrightarrow>
     (if byte a < 0x80 then ValidString s
      else case s of
        [] \<Rightarrow> False
      | b # s1 \<Rightarrow>
          if 0xC2 \<le> byte a \<and> byte a \<le> 0xDF then isCont 0x80 b 0xBF \<and> ValidString s1
          else case s1 of
            [] \<Rightarrow> False
          | c # s2 \<Rightarrow>
              if byte a = 0xE0 then isCont 0xA0 b 0xBF \<and> isCont 0x80 c 0xBF \<and> ValidString s2
              else if byte a = 0xED then isCont 0x80 b 0x9F \<and> isCont 0x80 c 0xBF \<and> ValidString s2
              else if 0xE1 \<le> byte a \<and> byte a \<le> 0xEF
              then isCont 0x80 b 0xBF \<and> isCont 0x80 c 0xBF \<and> ValidString s2
              else case s2 of
                [] \<Rightarrow> False
              | d # s3 \<Rightarrow>
                  (if byte a = 0xF0 then isCont 0x90 b 0xBF
                   else if byte a = 0xF4 then isCont 0x80 b 0x8F
                   else 0xF1 \<le> byte a \<and> byte a \<le> 0xF3 \<and> isCont 0x80 b 0xBF)
                  \<and> isCont 0x80 c 0xBF \<and> isCont 0x80 d 0xBF \<and> ValidString s3)"

lemma ValidString_ascii: "(\<And>c. c \<in> set s \<Longrightarrow> byte c < 0x80) \<Longrightarrow> ValidString s"
  by (induction s) auto

text \<open>\<open>net.ParseIP\<close>: the first of dot, colon and percent decides the grammar.\<close>

definition isOctet :: "string \<Rightarrow> bool" where
  "isOctet w \<longleftrightarrow>
     w \<noteq> [] \<and> list_all isDigit w \<and> (length w > 1 \<longrightarrow> hd w \<noteq> CHR ''0'')
     \<and> (case parseUintLoop 0 w of Inl _ \<Rightarrow> False | Inr n \<Rightarrow> n \<le> 255)"

definition isIPv4 :: "string \<Rightarrow> bool" where
  "isIPv4 s \<longleftrightarrow> (let ws = Split s (CHR ''.'') in length ws = 4 \<and> list_all isOctet ws)"

record names =
  toASCII :: "string \<Rightarrow> string option"
  parseIPv6 :: "string \<Rightarrow> bool"
  tables :: unicode

definition ParseIP :: "names \<Rightarrow> string \<Rightarrow> bool" where
  "ParseIP nm s =
     (case dropWhile (\<lambda>c. c \<notin> {CHR ''.'', CHR '':'', CHR ''%''}) s of
        [] \<Rightarrow> False
      | c # _ \<Rightarrow> if c = CHR ''.'' then isIPv4 s
                 else if c = CHR '':'' then parseIPv6 nm s else False)"

section \<open>The validator\<close>

datatype nameError =
    NameRequired
  | NameHasSpaces
  | NameWildcard
  | NameInvalid
  | NameInvalidIDN
  | NameIsIP
  | NameTooLong
  | NameNoDot
  | LabelEmpty
  | LabelTooLong
  | LabelNotUTF8
  | LabelHyphen
  | LabelBadChar

fun nameErrorText :: "nameError \<Rightarrow> string" where
  "nameErrorText NameRequired = ''domain name is required''"
| "nameErrorText NameHasSpaces = ''domain name must not contain spaces''"
| "nameErrorText NameWildcard = ''wildcard domains are not supported''"
| "nameErrorText NameInvalid = ''invalid domain name''"
| "nameErrorText NameInvalidIDN = ''invalid internationalized domain name''"
| "nameErrorText NameIsIP = ''IP addresses are not supported''"
| "nameErrorText NameTooLong = ''domain name is too long''"
| "nameErrorText NameNoDot = ''domain must contain at least one dot (e.g. example.com)''"
| "nameErrorText LabelEmpty = ''domain name contains empty label''"
| "nameErrorText LabelTooLong = ''domain label is too long''"
| "nameErrorText LabelNotUTF8 = ''invalid domain label''"
| "nameErrorText LabelHyphen = ''domain labels must not start or end with hyphen''"
| "nameErrorText LabelBadChar = ''domain labels may only contain letters, digits, and hyphens''"

definition maxDomainLength :: nat where
  "maxDomainLength = 253"

definition maxLabelLength :: nat where
  "maxLabelLength = 63"

definition NormalizeDomain :: "unicode \<Rightarrow> string \<Rightarrow> string" where
  "NormalizeDomain u domain = TrimSuffix (ToLower u (TrimSpace u domain)) ''.''"

text \<open>The loop over the label's characters; \<open>i\<close> is the index, \<open>n\<close> the label's length.\<close>

fun labelChars :: "nat \<Rightarrow> nat \<Rightarrow> string \<Rightarrow> nameError + unit" where
  "labelChars n i [] = Inr ()"
| "labelChars n i (r # rs) =
     (if isLowerLetter r \<or> isDigit r then labelChars n (Suc i) rs
      else if r = CHR ''-''
      then (if i = 0 \<or> i = n - 1 then Inl LabelHyphen else labelChars n (Suc i) rs)
      else Inl LabelBadChar)"

definition validateLabel :: "string \<Rightarrow> nameError + unit" where
  "validateLabel label =
     (if label = [] then Inl LabelEmpty
      else if length label > maxLabelLength then Inl LabelTooLong
      else if \<not> ValidString label then Inl LabelNotUTF8
      else labelChars (length label) 0 label)"

fun validateLabels :: "string list \<Rightarrow> nameError + unit" where
  "validateLabels [] = Inr ()"
| "validateLabels (label # labels) =
     (case validateLabel label of Inl err \<Rightarrow> Inl err | Inr _ \<Rightarrow> validateLabels labels)"

definition validateDomainLabels :: "string \<Rightarrow> nameError + unit" where
  "validateDomainLabels domain =
     (let labels = Split domain (CHR ''.'') in
      if length labels < 2 then Inl NameNoDot else validateLabels labels)"

definition ValidateDomainName :: "names \<Rightarrow> string \<Rightarrow> nameError + string" where
  "ValidateDomainName nm raw =
     (let domain = NormalizeDomain (tables nm) raw in
      if domain = [] then Inl NameRequired
      else if ContainsAny domain [CHR '' '', CHR 0x09, CHR 0x0D, CHR 0x0A] then Inl NameHasSpaces
      else if CHR ''*'' \<in> set domain then Inl NameWildcard
      else if ContainsAny domain '':/@'' then Inl NameInvalid
      else case toASCII nm domain of
        None \<Rightarrow> Inl NameInvalidIDN
      | Some ascii \<Rightarrow>
          (let domain = ToLower (tables nm) ascii in
           if ParseIP nm domain then Inl NameIsIP
           else if length domain > maxDomainLength then Inl NameTooLong
           else case validateDomainLabels domain of
             Inl err \<Rightarrow> Inl err
           | Inr _ \<Rightarrow> Inr domain))"

section \<open>The specification\<close>

text \<open>
  What a stored domain name is: at most 253 bytes, at least two labels separated by dots,
  every label 1 to 63 lower-case letters, digits and inner hyphens.
\<close>

definition labelChar :: "char \<Rightarrow> bool" where
  "labelChar c \<longleftrightarrow> isLowerLetter c \<or> isDigit c \<or> c = CHR ''-''"

definition valid_label :: "string \<Rightarrow> bool" where
  "valid_label w \<longleftrightarrow>
     w \<noteq> [] \<and> length w \<le> maxLabelLength \<and> list_all labelChar w
     \<and> hd w \<noteq> CHR ''-'' \<and> last w \<noteq> CHR ''-''"

definition valid_fqdn :: "string \<Rightarrow> bool" where
  "valid_fqdn d \<longleftrightarrow>
     length d \<le> maxDomainLength \<and> length (Split d (CHR ''.'')) \<ge> 2
     \<and> list_all valid_label (Split d (CHR ''.''))"

lemma labelChar_ascii: "labelChar c \<Longrightarrow> byte c < 128"
  by (auto simp: labelChar_def isLowerLetter_def isDigit_def byte_def)

lemma hyphen_not_alnum [simp]: "\<not> isLowerLetter (CHR ''-'')" "\<not> isDigit (CHR ''-'')"
  by (simp_all add: isLowerLetter_def isDigit_def byte_def)

text \<open>The loop accepts exactly when every character is allowed and no end is a hyphen.\<close>

lemma labelChars_ok:
  "i + length s = n \<Longrightarrow>
     labelChars n i s = Inr () \<longleftrightarrow>
       list_all labelChar s \<and> (s \<noteq> [] \<longrightarrow> (i = 0 \<longrightarrow> hd s \<noteq> CHR ''-'') \<and> last s \<noteq> CHR ''-'')"
proof (induction n i s rule: labelChars.induct)
  case (2 n i r rs)
  then have len: "Suc i + length rs = n" by simp
  show ?case
  proof (cases "r = CHR ''-''")
    case True
    then show ?thesis using 2(2) len by (cases rs) (auto simp: labelChar_def)
  next
    case False
    show ?thesis
    proof (cases "isLowerLetter r \<or> isDigit r")
      case True
      with 2(1) len False show ?thesis by (auto simp: labelChar_def)
    next
      case False
      with \<open>r \<noteq> CHR ''-''\<close> show ?thesis by (auto simp: labelChar_def)
    qed
  qed
qed simp

lemma validateLabel_ok: "validateLabel w = Inr () \<longleftrightarrow> valid_label w"
proof -
  have "ValidString w" if "list_all labelChar w"
    using that by (intro ValidString_ascii) (auto simp: list_all_iff dest: labelChar_ascii)
  then show ?thesis
    using labelChars_ok [of 0 w "length w"]
    by (auto simp: validateLabel_def valid_label_def)
qed

lemma validateLabels_ok: "validateLabels ws = Inr () \<longleftrightarrow> list_all valid_label ws"
proof (induction ws)
  case (Cons w ws)
  then show ?case
    by (cases "validateLabel w") (auto simp flip: validateLabel_ok)
qed simp

lemma validateDomainLabels_ok:
  "validateDomainLabels d = Inr () \<longleftrightarrow>
     length (Split d (CHR ''.'')) \<ge> 2 \<and> list_all valid_label (Split d (CHR ''.''))"
  by (auto simp: validateDomainLabels_def Let_def validateLabels_ok)

lemma ValidateDomainName_fqdn:
  assumes "ValidateDomainName nm raw = Inr d"
  shows "valid_fqdn d \<and> \<not> ParseIP nm d"
  using assms validateDomainLabels_ok [of d]
  by (auto simp: ValidateDomainName_def valid_fqdn_def Let_def
      split: if_splits option.splits sum.splits)

section \<open>Names that pass are stable\<close>

lemma set_Join: "set (Join ws sep) \<subseteq> \<Union> (set ` set ws) \<union> {sep}"
  by (induction ws sep rule: Join.induct) auto

lemma fqdn_chars: "valid_fqdn d \<Longrightarrow> c \<in> set d \<Longrightarrow> labelChar c \<or> c = CHR ''.''"
proof -
  assume v: "valid_fqdn d" and c: "c \<in> set d"
  have "set d \<subseteq> \<Union> (set ` set (Split d (CHR ''.''))) \<union> {CHR ''.''}"
    using set_Join [of "Split d (CHR ''.'')" "CHR ''.''"] by (simp add: Join_Split)
  with c v show ?thesis by (auto simp: valid_fqdn_def valid_label_def list_all_iff)
qed

lemma last_Join: "ws \<noteq> [] \<Longrightarrow> last ws \<noteq> [] \<Longrightarrow> last (Join ws sep) = last (last ws)"
proof (induction ws sep rule: Join.induct)
  case (3 w v vs sep)
  then have "Join (v # vs) sep \<noteq> []" by (cases vs) auto
  with 3 show ?case by simp
qed auto

lemma fqdn_nonempty: "valid_fqdn d \<Longrightarrow> d \<noteq> []"
  by (auto simp: valid_fqdn_def)

lemma fqdn_last: "valid_fqdn d \<Longrightarrow> last d \<noteq> CHR ''.''"
proof -
  assume v: "valid_fqdn d"
  let ?ws = "Split d (CHR ''.'')"
  have ne: "?ws \<noteq> []" by (rule Split_nonempty)
  have lab: "valid_label (last ?ws)"
    using v ne by (auto simp: valid_fqdn_def list_all_iff)
  then have "last d = last (last ?ws)"
    using last_Join [OF ne, of "CHR ''.''"] by (simp add: Join_Split valid_label_def)
  moreover have "last (last ?ws) \<in> set (last ?ws)" using lab by (simp add: valid_label_def)
  ultimately show ?thesis
    using Split_no_sep [of "last ?ws" d "CHR ''.''"] ne by auto
qed

lemma TrimSuffix_none: "s \<noteq> [] \<Longrightarrow> last s \<noteq> c \<Longrightarrow> TrimSuffix s [c] = s"
  by (auto simp: TrimSuffix_def) (metis append_take_drop_id last_snoc)

lemma lower_fixed: "labelChar c \<or> c = CHR ''.'' \<Longrightarrow> asciiLower c = c"
  by (auto simp: labelChar_def isLowerLetter_def isDigit_def asciiLower_def byte_def)

lemma fqdn_char_ascii: "labelChar c \<or> c = CHR ''.'' \<Longrightarrow> isASCIIByte c \<and> \<not> asciiSpace c"
  by (auto simp: labelChar_def isLowerLetter_def isDigit_def isASCIIByte_def asciiSpace_def byte_def)

lemma dropWhile_none: "(\<And>c. c \<in> set s \<Longrightarrow> \<not> p c) \<Longrightarrow> dropWhile p s = s"
  by (cases s) auto

lemma ToLower_fqdn: "valid_fqdn d \<Longrightarrow> ToLower u d = d"
  using fqdn_chars fqdn_char_ascii lower_fixed
  by (auto simp: ToLower_def list_all_iff intro: map_idI)

lemma TrimSpace_fqdn: "valid_fqdn d \<Longrightarrow> TrimSpace u d = d"
proof -
  assume v: "valid_fqdn d"
  then have ok: "\<And>c. c \<in> set d \<Longrightarrow> isASCIIByte c \<and> \<not> asciiSpace c"
    using fqdn_chars fqdn_char_ascii by blast
  then have "dropWhile asciiSpace d = d" "dropWhile asciiSpace (rev d) = rev d"
    by (auto intro: dropWhile_none)
  with ok fqdn_nonempty [OF v] show ?thesis
    by (simp add: TrimSpace_def Let_def)
qed

lemma NormalizeDomain_fqdn: "valid_fqdn d \<Longrightarrow> NormalizeDomain u d = d"
  by (simp add: NormalizeDomain_def TrimSpace_fqdn ToLower_fqdn TrimSuffix_none fqdn_nonempty
      fqdn_last)

lemma fqdn_no_forbidden:
  assumes "valid_fqdn d" and "c \<in> set '' :/@*'' \<or> c \<in> {CHR 0x09, CHR 0x0D, CHR 0x0A}"
  shows "c \<notin> set d"
  using assms fqdn_chars [of d c]
  by (auto simp: labelChar_def isLowerLetter_def isDigit_def byte_def)

lemma ValidateDomainName_stable:
  assumes "valid_fqdn d" and "\<not> ParseIP nm d" and "toASCII nm d = Some d"
  shows "ValidateDomainName nm d = Inr d"
proof -
  have "validateDomainLabels d = Inr ()" and "length d \<le> maxDomainLength"
    using assms(1) by (simp_all add: validateDomainLabels_ok valid_fqdn_def)
  moreover have "\<not> ContainsAny d [CHR '' '', CHR 0x09, CHR 0x0D, CHR 0x0A]"
    "CHR ''*'' \<notin> set d" "\<not> ContainsAny d '':/@''"
    using fqdn_no_forbidden [OF assms(1)]
    by (auto simp: ContainsAny_def list_ex_iff)
  ultimately show ?thesis
    using assms fqdn_nonempty [OF assms(1)]
    by (simp add: ValidateDomainName_def NormalizeDomain_fqdn ToLower_fqdn)
qed

end
