(* ===== verification/Store.thy ===== *)
theory Store
  imports Config
begin

text \<open>
  The state the server keeps and the primitives its functions are built from.

  The rows are the structs of models/*.go. The tables hold the rows in primary-key order;
  \<open>gorm\<close> queries are translated to the predicates and column updates their source text
  gives: \<open>First\<close>, \<open>Find\<close>, \<open>Count\<close>, \<open>Updates\<close>, \<open>Create\<close>, \<open>Delete\<close>, with the documented
  behaviour of the library (the soft-delete scope of a model with a DeletedAt column,
  \<open>updated_at\<close> on every update, RowsAffected, ErrRecordNotFound). The database server, the
  other goroutines, the resolver and the CA are outside the program: they are the fields of
  the parameter \<open>env\<close>. Before every primitive the other goroutines may change the state
  (\<open>interfere\<close>, which also moves the clock), and every statement may fail (\<open>dbfail\<close>); both
  are indexed by the number of primitives run so far, so a theorem over all \<open>env\<close> covers
  every schedule and every pattern of faults.
\<close>

section \<open>Rows\<close>

record UserRow =
  uID :: uint
  uEmail :: string
  uPassword :: string
  uCreatedAt :: time
  uUpdatedAt :: time

record DomainRow =
  dID :: uint
  dUserID :: uint
  dDomain :: string
  dStatus :: string
  dGeneratingSince :: "time option"
  dCNameTarget :: string
  dAutoRenew :: bool
  dCnameVerifiedAt :: "time option"
  dAutoRenewFailures :: int
  dAutoRenewBackoffUntil :: "time option"
  dErrorMessage :: string
  dCreatedAt :: time
  dUpdatedAt :: time
  dDeletedAt :: "time option"

record CertRow =
  cID :: uint
  cDomainID :: uint
  cUserID :: uint
  cDomain :: string
  cCertPEM :: bytes
  cKeyPEM :: bytes
  cIssuer :: bytes
  cCertURL :: string
  cCertStableURL :: string
  cExpiresAt :: time
  cCreatedAt :: time
  cUpdatedAt :: time

record AcmeRow =
  aID :: uint
  aUserID :: uint
  aEmail :: string
  aPrivateKeyPEM :: bytes
  aRegistration :: bytes
  aCAURL :: string
  aCreatedAt :: time
  aUpdatedAt :: time

record TargetRow =
  tID :: uint
  tDomainID :: uint
  tUserID :: uint
  tName :: string
  tType :: string
  tHost :: string
  tPort :: int
  tEnabled :: bool
  tAuthType :: string
  tSSHUser :: string
  tPrivateKeyPEM :: bytes
  tPasswordEnc :: bytes
  tCertPath :: string
  tReloadCommand :: string
  tLastDeployAt :: "time option"
  tLastStatus :: string
  tCreatedAt :: time
  tUpdatedAt :: time

record DeployJobRow =
  jID :: uint
  jDomainID :: uint
  jUserID :: uint
  jStatus :: string
  jTargetsJSON :: bytes
  jCreatedAt :: time
  jFinishedAt :: "time option"

section \<open>Errors\<close>

datatype err =
    ErrRecordNotFound
  | ErrDuplicatedKey
  | ErrUniqueViolation
  | ErrDB
  | Canceled
  | DeadlineExceeded
  | errCertOperationInProgress
  | errDomainClaimLost
  | errDomainClaimCNAME
  | Errorf string
  | Wrap string err
  | Extend err string

text \<open>
  \<open>Wrap\<close> is fmt.Errorf with the wrapped error last, \<open>Extend\<close> with the wrapped error first.
  \<open>errors.Is\<close> follows the chain of wrapped errors.
\<close>

fun errorsIs :: "err \<Rightarrow> err \<Rightarrow> bool" where
  "errorsIs (Wrap msg err) target \<longleftrightarrow> Wrap msg err = target \<or> errorsIs err target"
| "errorsIs (Extend err msg) target \<longleftrightarrow> Extend err msg = target \<or> errorsIs err target"
| "errorsIs err target \<longleftrightarrow> err = target"

text \<open>\<open>err.Error()\<close>; the text of a driver error is left abstract behind its constructor.\<close>

fun errorText :: "err \<Rightarrow> string" where
  "errorText ErrRecordNotFound = ''record not found''"
| "errorText ErrDuplicatedKey = ''duplicated key not allowed''"
| "errorText ErrUniqueViolation = ''duplicate key value violates unique constraint''"
| "errorText ErrDB = ''database error''"
| "errorText Canceled = ''context canceled''"
| "errorText DeadlineExceeded = ''context deadline exceeded''"
| "errorText errCertOperationInProgress = ''certificate operation already in progress''"
| "errorText errDomainClaimLost = ''domain claim lost''"
| "errorText errDomainClaimCNAME = ''domain claim cname verify failed''"
| "errorText (Errorf msg) = msg"
| "errorText (Wrap msg err) = msg @ errorText err"
| "errorText (Extend err msg) = errorText err @ msg"

datatype dbError = DriverError | UniqueViolation

text \<open>
  \<open>gorm.Open(postgres.Open(dsn), &gorm.Config{})\<close> leaves TranslateError at its zero value;
  the library maps a unique violation to ErrDuplicatedKey only when it is set.
\<close>

definition gormTranslateError :: bool where
  "gormTranslateError = False"

definition dbErr :: "dbError \<Rightarrow> err" where
  "dbErr x = (case x of DriverError \<Rightarrow> ErrDB
     | UniqueViolation \<Rightarrow> if gormTranslateError then ErrDuplicatedKey else ErrUniqueViolation)"

lemma dbErr_not [simp]: "dbErr x \<noteq> ErrRecordNotFound" "ErrRecordNotFound \<noteq> dbErr x"
  "dbErr x \<noteq> ErrDuplicatedKey" "ErrDuplicatedKey \<noteq> dbErr x"
  "dbErr x \<noteq> errCertOperationInProgress" "errCertOperationInProgress \<noteq> dbErr x"
  "dbErr x \<noteq> errDomainClaimLost" "dbErr x \<noteq> errDomainClaimCNAME"
  by (cases x; simp add: dbErr_def gormTranslateError_def)+

lemma errorsIs_dbErr [simp]: "errorsIs (dbErr x) t \<longleftrightarrow> dbErr x = t"
  by (cases x) (simp_all add: dbErr_def gormTranslateError_def)

section \<open>The state and the environment\<close>

text \<open>
  A job's context: its deadline and whether its cancel function was called. The registry entry
  and the worker share it, so contexts are kept in a store indexed by the job's token, the
  entry being the token.
\<close>

record ctxState =
  deadline :: time
  canceled :: bool

record jobArgs =
  jobToken :: token
  jobDomain :: DomainRow
  jobUser :: UserRow
  jobRenew :: bool
  jobAutoRenew :: bool

text \<open>The calls the delegation provider makes to the Cloudflare API, as a trace.\<close>

datatype cfCall = CreateTXT string string | DeleteTXT string

record world =
  clock :: time
  tick :: nat
  users :: "UserRow list"
  domains :: "DomainRow list"
  certs :: "CertRow list"
  accounts :: "AcmeRow list"
  targets :: "TargetRow list"
  deployJobs :: "DeployJobRow list"
  userSeq :: uint
  domainSeq :: uint
  certSeq :: uint
  accountSeq :: uint
  targetSeq :: uint
  jobs :: "(uint \<times> token) list"
  ctxs :: "token \<Rightarrow> ctxState option"
  tokenSeq :: token
  workers :: "uint \<Rightarrow> nat option"
  slots :: nat
  jobWG :: nat
  spawned :: "jobArgs list"
  encryptionKey :: bytes
  delegation :: "string \<Rightarrow> string option"
  cfCalls :: "cfCall list"

text \<open>What the CA returns: \<open>certificate.Resource\<close> of the lego library.\<close>

record Resource =
  rDomain :: string
  rCertURL :: string
  rCertStableURL :: string
  rPrivateKey :: bytes
  rCertificate :: bytes
  rIssuerCertificate :: bytes

text \<open>A per-target result of a deploy job, as encoding/json reads it from the job's row.\<close>

record DeployJobTargetDTO =
  jtTargetID :: string
  jtTargetName :: string
  jtStatus :: string
  jtMessage :: string

text \<open>
  How a call ends: it returns, it panics (a deferred recover may catch it), or the process dies
  because a goroutine without a recover panicked.
\<close>

datatype 'a outcome = Returns 'a | Panics | Exits

text \<open>The calls of archive/zip whose error the download handler looks at.\<close>

datatype zipStep = ZipCreate | ZipWrite | ZipClose

text \<open>
  What is outside the program. \<open>addDays\<close> is time.AddDate in the server's time zone,
  \<open>certMeta\<close> the issuer's common name, the issuer's organisations and the serial number of an
  x509 certificate, \<open>idna\<close> the ASCII form of a name, \<open>marshalEC\<close> and \<open>parseEC\<close> the DER form of an EC
  key, \<open>pemEncode\<close> and \<open>pemDecode\<close> the PEM block with a type, \<open>sqlInt\<close> the integer PostgreSQL reads from a string it compares with a bigint column,
  the \<open>cf\<close> functions are the Cloudflare API.
\<close>

record env =
  cfg :: Config
  osenv :: os
  interfere :: "nat \<Rightarrow> world \<Rightarrow> world"
  dbfail :: "nat \<Rightarrow> dbError option"
  timerFires :: "nat \<Rightarrow> bool"
  lookupCNAME :: "nat \<Rightarrow> string \<Rightarrow> err + string"
  randBytes :: "nat \<Rightarrow> bytes option"
  sealGCM :: "bytes \<Rightarrow> bytes \<Rightarrow> bytes \<Rightarrow> bytes"
  openGCM :: "bytes \<Rightarrow> bytes \<Rightarrow> bytes \<Rightarrow> bytes option"
  notAfter :: "bytes \<Rightarrow> err + time"
  genKey :: "nat \<Rightarrow> err + bytes"
  marshalEC :: "bytes \<Rightarrow> err + bytes"
  parseEC :: "bytes \<Rightarrow> err + bytes"
  pemEncode :: "string \<Rightarrow> bytes \<Rightarrow> bytes"
  pemDecode :: "bytes \<Rightarrow> (string \<times> bytes) option"
  idna :: "string \<Rightarrow> string option"
  ipv6 :: "string \<Rightarrow> bool"
  legoClient :: "nat \<Rightarrow> string \<Rightarrow> err + unit"
  legoRegister :: "nat \<Rightarrow> (err + bytes) outcome"
  regJSON :: "bytes \<Rightarrow> err + bytes"
  parseReg :: "bytes \<Rightarrow> err + bytes"
  legoObtain :: "nat \<Rightarrow> string \<Rightarrow> (err + Resource) outcome"
  legoRenew :: "nat \<Rightarrow> Resource \<Rightarrow> (err + Resource) outcome"
  legoSetDNS01 :: "nat \<Rightarrow> err + unit"
  cfNewWithAPIToken :: "string \<Rightarrow> err + unit"
  cfNew :: "string \<Rightarrow> string \<Rightarrow> err + unit"
  cfZone :: "nat \<Rightarrow> string \<Rightarrow> err + string"
  cfCreate :: "nat \<Rightarrow> err + string"
  cfDelete :: "nat \<Rightarrow> err + unit"
  addDays :: "time \<Rightarrow> int \<Rightarrow> time"
  formatRFC3339 :: "time \<Rightarrow> string"
  certMeta :: "bytes \<Rightarrow> (string \<times> string list \<times> int option) option"
  sqlInt :: "string \<Rightarrow> int option"
  jsonTargets :: "bytes \<Rightarrow> DeployJobTargetDTO list option"
  bcryptHash :: "nat \<Rightarrow> string \<Rightarrow> err + string"
  bcryptMatch :: "string \<Rightarrow> string \<Rightarrow> bool"
  sessionSaves :: "nat \<Rightarrow> bool"
  zipFails :: "nat \<Rightarrow> zipStep option"

section \<open>Primitives\<close>

text \<open>The state in which the next primitive finds the world.\<close>

definition settle :: "env \<Rightarrow> world \<Rightarrow> world" where
  "settle e w = (interfere e (tick w) w)\<lparr>tick := Suc (tick w)\<rparr>"

definition act :: "env \<Rightarrow> (world \<Rightarrow> 'a \<times> world) \<Rightarrow> (world, 'a) state" where
  "act e f = State (\<lambda>w. f (settle e w))"

definition db :: "env \<Rightarrow> (world \<Rightarrow> (err + 'a) \<times> world) \<Rightarrow> (world, err + 'a) state" where
  "db e f = act e (\<lambda>w. case dbfail e (tick w) of Some x \<Rightarrow> (Inl (dbErr x), w) | None \<Rightarrow> f w)"

lemma run_act [run_simps]: "run_state (act e f) w = f (settle e w)"
  by (simp add: act_def)

lemma run_db [run_simps]:
  "run_state (db e f) w =
     (case dbfail e (Suc (tick w)) of
        Some x \<Rightarrow> (Inl (dbErr x), settle e w) | None \<Rightarrow> f (settle e w))"
  by (simp add: db_def act_def settle_def)

definition Now :: "env \<Rightarrow> (world, time) state" where
  "Now e = act e (\<lambda>w. (clock w, w))"

definition First :: "env \<Rightarrow> (world \<Rightarrow> 'r list) \<Rightarrow> ('r \<Rightarrow> bool) \<Rightarrow> (world, err + 'r) state" where
  "First e tbl p =
     db e (\<lambda>w. (case find p (tbl w) of None \<Rightarrow> Inl ErrRecordNotFound | Some r \<Rightarrow> Inr r, w))"

definition Find :: "env \<Rightarrow> (world \<Rightarrow> 'r list) \<Rightarrow> ('r \<Rightarrow> bool) \<Rightarrow> (world, err + 'r list) state" where
  "Find e tbl p = db e (\<lambda>w. (Inr (filter p (tbl w)), w))"

definition Count :: "env \<Rightarrow> (world \<Rightarrow> 'r list) \<Rightarrow> ('r \<Rightarrow> bool) \<Rightarrow> (world, err + nat) state" where
  "Count e tbl p = db e (\<lambda>w. (Inr (length (filter p (tbl w))), w))"

text \<open>
  \<open>Updates\<close> on the rows that satisfy \<open>p\<close>, atomically: the where clause is evaluated and the
  columns are written in one statement. The result is RowsAffected.
\<close>

definition Updates ::
  "env \<Rightarrow> (world \<Rightarrow> 'r list) \<Rightarrow> (('r list \<Rightarrow> 'r list) \<Rightarrow> world \<Rightarrow> world) \<Rightarrow>
   ('r \<Rightarrow> bool) \<Rightarrow> (time \<Rightarrow> 'r \<Rightarrow> 'r) \<Rightarrow> (world, err + nat) state" where
  "Updates e tbl upd p f =
     db e (\<lambda>w. (Inr (length (filter p (tbl w))),
                upd (map (\<lambda>r. if p r then f (clock w) r else r)) w))"

definition DeleteRows ::
  "env \<Rightarrow> (world \<Rightarrow> 'r list) \<Rightarrow> (('r list \<Rightarrow> 'r list) \<Rightarrow> world \<Rightarrow> world) \<Rightarrow>
   ('r \<Rightarrow> bool) \<Rightarrow> (world, err + nat) state" where
  "DeleteRows e tbl upd p =
     db e (\<lambda>w. (Inr (length (filter p (tbl w))), upd (filter (\<lambda>r. \<not> p r)) w))"

text \<open>The default scope of the domains table: rows that are not soft-deleted.\<close>

definition live :: "DomainRow \<Rightarrow> bool" where
  "live d \<longleftrightarrow> dDeletedAt d = None"

definition FirstDomain :: "env \<Rightarrow> (DomainRow \<Rightarrow> bool) \<Rightarrow> (world, err + DomainRow) state" where
  "FirstDomain e p = First e domains (\<lambda>d. live d \<and> p d)"

definition UpdatesDomain ::
  "env \<Rightarrow> (DomainRow \<Rightarrow> bool) \<Rightarrow> (DomainRow \<Rightarrow> DomainRow) \<Rightarrow> (world, err + nat) state" where
  "UpdatesDomain e p f =
     Updates e domains domains_update (\<lambda>d. live d \<and> p d) (\<lambda>t d. (f d)\<lparr>dUpdatedAt := t\<rparr>)"

text \<open>
  \<open>DB.Transaction\<close>: the body runs as one atomic step, with the faults of its statements; an
  error from it, or a failed commit, restores the tables.
\<close>

definition restoreTables :: "world \<Rightarrow> world \<Rightarrow> world" where
  "restoreTables w0 w = w\<lparr>users := users w0, domains := domains w0, certs := certs w0,
     accounts := accounts w0, targets := targets w0, deployJobs := deployJobs w0\<rparr>"

definition Transaction :: "env \<Rightarrow> (env \<Rightarrow> (world, err + 'a) state) \<Rightarrow> (world, err + 'a) state" where
  "Transaction e body = State (\<lambda>w.
     let w0 = settle e w;
         (r, w1) = run_state (body (e\<lparr>interfere := (\<lambda>_ w. w)\<rparr>)) w0;
         w2 = w1\<lparr>tick := Suc (tick w1)\<rparr>
     in case r of
          Inl err \<Rightarrow> (Inl err, restoreTables w0 w2)
        | Inr x \<Rightarrow> (case dbfail e (tick w2) of
                     Some y \<Rightarrow> (Inl (dbErr y), restoreTables w0 w2)
                   | None \<Rightarrow> (Inr x, w2)))"

text \<open>The table updates as field assignments.\<close>

lemma table_update [run_simps]:
  "domains_update (map g) w = w\<lparr>domains := map g (domains w)\<rparr>"
  "domains_update (filter p) w = w\<lparr>domains := filter p (domains w)\<rparr>"
  "certs_update (map h) w = w\<lparr>certs := map h (certs w)\<rparr>"
  "certs_update (filter q) w = w\<lparr>certs := filter q (certs w)\<rparr>"
  by (cases w; simp)+

section \<open>Early returns\<close>

text \<open>
  \<open>checked m f\<close> is the idiom \<open>x, err := m(); if err != nil { return err }; f(x)\<close>, \<open>checkedO\<close> the
  same where a callee may panic or take the process down, which ends the caller as well.
\<close>

definition checked ::
  "('s, err + 'a) state \<Rightarrow> ('a \<Rightarrow> ('s, err + 'b) state) \<Rightarrow> ('s, err + 'b) state" where
  "checked m f = do {
     r \<leftarrow> m;
     case r of Inl err \<Rightarrow> State_Monad.return (Inl err) | Inr x \<Rightarrow> f x
   }"

definition returns :: "('s, 'a) state \<Rightarrow> ('s, 'a outcome) state" where
  "returns m = do { r \<leftarrow> m; State_Monad.return (Returns r) }"

definition checkedO ::
  "('s, (err + 'a) outcome) state \<Rightarrow> ('a \<Rightarrow> ('s, (err + 'b) outcome) state) \<Rightarrow>
   ('s, (err + 'b) outcome) state" where
  "checkedO m f = do {
     r \<leftarrow> m;
     case r of
       Panics \<Rightarrow> State_Monad.return Panics
     | Exits \<Rightarrow> State_Monad.return Exits
     | Returns (Inl err) \<Rightarrow> State_Monad.return (Returns (Inl err))
     | Returns (Inr x) \<Rightarrow> f x
   }"

lemma run_checked [run_simps]:
  "run_state (checked m f) w =
     (case run_state m w of (Inl err, w') \<Rightarrow> (Inl err, w') | (Inr x, w') \<Rightarrow> run_state (f x) w')"
  by (simp add: checked_def split: prod.split sum.split)

lemma run_returns [run_simps]:
  "run_state (returns m) w = (case run_state m w of (r, w') \<Rightarrow> (Returns r, w'))"
  by (simp add: returns_def split: prod.split)

lemma run_checkedO [run_simps]:
  "run_state (checkedO m f) w =
     (case run_state m w of
        (Panics, w') \<Rightarrow> (Panics, w')
      | (Exits, w') \<Rightarrow> (Exits, w')
      | (Returns (Inl err), w') \<Rightarrow> (Returns (Inl err), w')
      | (Returns (Inr x), w') \<Rightarrow> run_state (f x) w')"
  by (simp add: checkedO_def split: prod.split sum.split outcome.split)

section \<open>Environments without interference or faults\<close>

definition quiet :: "env \<Rightarrow> bool" where
  "quiet e \<longleftrightarrow> (\<forall>n w. interfere e n w = w)"

definition faultless :: "env \<Rightarrow> bool" where
  "faultless e \<longleftrightarrow> (\<forall>n. dbfail e n = None)"

lemma settle_quiet: "quiet e \<Longrightarrow> settle e w = w\<lparr>tick := Suc (tick w)\<rparr>"
  by (simp add: settle_def quiet_def)

lemma settle_tick [simp]: "tick (settle e w) = Suc (tick w)"
  by (simp add: settle_def)

lemma dbfail_faultless: "faultless e \<Longrightarrow> dbfail e n = None"
  by (simp add: faultless_def)

lemmas store_defs =
  Now_def First_def Find_def Count_def Updates_def DeleteRows_def FirstDomain_def
  UpdatesDomain_def

end
