(* ===== verification/Store_Inv.thy ===== *)
theory Store_Inv
  imports Store
begin

text \<open>
  Invariants of effectful code. \<open>keeps I m\<close> says that running \<open>m\<close> from a state with \<open>I\<close> ends
  in one with \<open>I\<close>, whatever its result; it goes through sequencing and branching, so an
  invariant of a whole handler is assembled from one lemma per primitive. \<open>stable e I\<close> is
  the matching rely condition on the other goroutines. The store invariant \<open>wf_store\<close> and the
  interface of a column update of the domains table follow.
\<close>

section \<open>Preservation through the state monad\<close>

definition keeps :: "('s \<Rightarrow> bool) \<Rightarrow> ('s, 'a) state \<Rightarrow> bool" where
  "keeps I m \<longleftrightarrow> (\<forall>s. I s \<longrightarrow> I (snd (run_state m s)))"

named_theorems keeps_intros \<open>preservation rules, one per construct and operation\<close>

lemma keepsD: "keeps I m \<Longrightarrow> I s \<Longrightarrow> I (snd (run_state m s))"
  by (simp add: keeps_def)

lemma keeps_return [keeps_intros]: "keeps I (State_Monad.return x)"
  by (simp add: keeps_def)

lemma keeps_bind [keeps_intros]:
  "keeps I m \<Longrightarrow> (\<And>x. keeps I (f x)) \<Longrightarrow> keeps I (State_Monad.bind m f)"
  by (simp add: keeps_def split: prod.split) (metis snd_conv)

lemma keeps_if [keeps_intros]:
  "(b \<Longrightarrow> keeps I m) \<Longrightarrow> (\<not> b \<Longrightarrow> keeps I n) \<Longrightarrow> keeps I (if b then m else n)"
  by simp

lemma keeps_case_sum [keeps_intros]:
  "(\<And>x. keeps I (f x)) \<Longrightarrow> (\<And>y. keeps I (g y)) \<Longrightarrow> keeps I (case s of Inl x \<Rightarrow> f x | Inr y \<Rightarrow> g y)"
  by (simp split: sum.split)

lemma keeps_case_option [keeps_intros]:
  "keeps I m \<Longrightarrow> (\<And>y. keeps I (g y)) \<Longrightarrow> keeps I (case s of None \<Rightarrow> m | Some y \<Rightarrow> g y)"
  by (simp split: option.split)

lemma keeps_case_prod [keeps_intros]:
  "(\<And>x y. keeps I (f x y)) \<Longrightarrow> keeps I (case s of (x, y) \<Rightarrow> f x y)"
  by (simp split: prod.split)

lemma keeps_case_outcome [keeps_intros]:
  "(\<And>x. keeps I (f x)) \<Longrightarrow> keeps I m \<Longrightarrow> keeps I n \<Longrightarrow>
     keeps I (case s of Returns x \<Rightarrow> f x | Panics \<Rightarrow> m | Exits \<Rightarrow> n)"
  by (simp split: outcome.split)

lemma keeps_checked [keeps_intros]:
  "keeps I m \<Longrightarrow> (\<And>x. keeps I (f x)) \<Longrightarrow> keeps I (checked m f)"
  unfolding checked_def by (intro keeps_intros)

lemma keeps_returns [keeps_intros]: "keeps I m \<Longrightarrow> keeps I (returns m)"
  unfolding returns_def by (intro keeps_intros)

lemma keeps_checkedO [keeps_intros]:
  "keeps I m \<Longrightarrow> (\<And>x. keeps I (f x)) \<Longrightarrow> keeps I (checkedO m f)"
  unfolding checkedO_def by (intro keeps_intros)

lemma keeps_let [keeps_intros]: "(\<And>x. keeps I (f x)) \<Longrightarrow> keeps I (let x = t in f x)"
  by simp

text \<open>Loops over a list of rows.\<close>

fun forEach :: "'r list \<Rightarrow> ('r \<Rightarrow> ('s, unit) state) \<Rightarrow> ('s, unit) state" where
  "forEach [] body = State_Monad.return ()"
| "forEach (x # xs) body = do { _ \<leftarrow> body x; forEach xs body }"

lemma keeps_forEach [keeps_intros]: "(\<And>x. keeps I (body x)) \<Longrightarrow> keeps I (forEach xs body)"
  by (induction xs) (auto intro: keeps_return keeps_bind)

section \<open>Postconditions\<close>

text \<open>\<open>post Q m\<close>: every run of \<open>m\<close>, from any state, ends in a result and a state with \<open>Q\<close>.\<close>

definition post :: "('a \<Rightarrow> 's \<Rightarrow> bool) \<Rightarrow> ('s, 'a) state \<Rightarrow> bool" where
  "post Q m \<longleftrightarrow> (\<forall>s. Q (fst (run_state m s)) (snd (run_state m s)))"

named_theorems post_intros \<open>postcondition rules, one per construct\<close>

lemma postD: "post Q m \<Longrightarrow> run_state m s = (x, s') \<Longrightarrow> Q x s'"
  unfolding post_def by (metis fst_conv snd_conv)

lemma postI: "(\<And>s x s'. run_state m s = (x, s') \<Longrightarrow> Q x s') \<Longrightarrow> post Q m"
  unfolding post_def by (metis prod.collapse)

lemma post_return [post_intros]: "(\<And>s. Q x s) \<Longrightarrow> post Q (State_Monad.return x)"
  by (simp add: post_def)

lemma post_bind [post_intros]: "(\<And>x. post Q (f x)) \<Longrightarrow> post Q (State_Monad.bind m f)"
  by (simp add: post_def split: prod.split)

lemma post_if [post_intros]:
  "(b \<Longrightarrow> post Q m) \<Longrightarrow> (\<not> b \<Longrightarrow> post Q n) \<Longrightarrow> post Q (if b then m else n)"
  by simp

lemma post_case_sum [post_intros]:
  "(\<And>x. s = Inl x \<Longrightarrow> post Q (f x)) \<Longrightarrow> (\<And>y. s = Inr y \<Longrightarrow> post Q (g y)) \<Longrightarrow>
     post Q (case s of Inl x \<Rightarrow> f x | Inr y \<Rightarrow> g y)"
  by (simp split: sum.split)

lemma post_case_option [post_intros]:
  "(s = None \<Longrightarrow> post Q m) \<Longrightarrow> (\<And>y. s = Some y \<Longrightarrow> post Q (g y)) \<Longrightarrow>
     post Q (case s of None \<Rightarrow> m | Some y \<Rightarrow> g y)"
  by (simp split: option.split)

lemma post_case_outcome [post_intros]:
  "(\<And>x. s = Returns x \<Longrightarrow> post Q (f x)) \<Longrightarrow> (s = Panics \<Longrightarrow> post Q m) \<Longrightarrow>
     (s = Exits \<Longrightarrow> post Q n) \<Longrightarrow>
     post Q (case s of Returns x \<Rightarrow> f x | Panics \<Rightarrow> m | Exits \<Rightarrow> n)"
  by (simp split: outcome.split)

lemma post_checked [post_intros]:
  "(\<And>err s. Q (Inl err) s) \<Longrightarrow> (\<And>x. post Q (f x)) \<Longrightarrow> post Q (checked m f)"
  unfolding checked_def by (intro post_intros) auto

lemma post_checkedO [post_intros]:
  "(\<And>err s. Q (Returns (Inl err)) s) \<Longrightarrow> (\<And>s. Q Panics s) \<Longrightarrow> (\<And>s. Q Exits s) \<Longrightarrow>
     (\<And>x. post Q (f x)) \<Longrightarrow> post Q (checkedO m f)"
  unfolding checkedO_def by (intro post_intros) auto

text \<open>Using what is known of the first call.\<close>

lemma post_checkedO_then:
  "post P m \<Longrightarrow> (\<And>err s. Q (Returns (Inl err)) s) \<Longrightarrow> (\<And>s. Q Panics s) \<Longrightarrow> (\<And>s. Q Exits s) \<Longrightarrow>
     (\<And>x s r s'. P (Returns (Inr x)) s \<Longrightarrow> run_state (f x) s = (r, s') \<Longrightarrow> Q r s') \<Longrightarrow>
     post Q (checkedO m f)"
  by (rule postI) (auto simp: run_checkedO dest: postD split: prod.splits sum.splits outcome.splits)

section \<open>The rely condition\<close>

definition stable :: "env \<Rightarrow> (world \<Rightarrow> bool) \<Rightarrow> bool" where
  "stable e I \<longleftrightarrow> (\<forall>n w. I w \<longrightarrow> I (interfere e n w)) \<and> (\<forall>w n. I (w\<lparr>tick := n\<rparr>) = I w)"

lemma stable_settle: "stable e I \<Longrightarrow> I w \<Longrightarrow> I (settle e w)"
  by (simp add: stable_def settle_def)

lemma stable_tick: "stable e I \<Longrightarrow> I (w\<lparr>tick := n\<rparr>) = I w"
  by (simp add: stable_def)

lemma stable_calm: "stable e I \<Longrightarrow> stable (e\<lparr>interfere := (\<lambda>_ w. w)\<rparr>) I"
  by (simp add: stable_def)

lemma keeps_act:
  "stable e I \<Longrightarrow> (\<And>w. I w \<Longrightarrow> I (snd (f w))) \<Longrightarrow> keeps I (act e f)"
  by (simp add: keeps_def run_simps stable_settle)

lemma keeps_db:
  "stable e I \<Longrightarrow> (\<And>w. I w \<Longrightarrow> I (snd (f w))) \<Longrightarrow> keeps I (db e f)"
  by (simp add: db_def) (rule keeps_act, auto split: option.splits)

lemma keeps_read: "stable e I \<Longrightarrow> keeps I (act e (\<lambda>w. (g w, w)))"
  by (rule keeps_act) auto

lemma keeps_queries:
  assumes "stable e I"
  shows "keeps I (Now e)" "keeps I (First e tbl p)" "keeps I (FirstDomain e q)"
    "keeps I (Find e tbl p)" "keeps I (Count e tbl p)"
  using assms by (auto simp: store_defs intro!: keeps_act keeps_db)

lemma keeps_Transaction:
  assumes "stable e I"
    and body: "\<And>tx w0 r w1. stable tx I \<Longrightarrow> quiet tx \<Longrightarrow> I w0 \<Longrightarrow> run_state (body tx) w0 = (r, w1) \<Longrightarrow>
      I w1 \<and> I (restoreTables w0 w1)"
  shows "keeps I (Transaction e body)"
  unfolding keeps_def
proof (intro allI impI)
  fix w assume "I w"
  define w0 where "w0 = settle e w"
  obtain r w1 where run: "run_state (body (e\<lparr>interfere := (\<lambda>_ w. w)\<rparr>)) w0 = (r, w1)"
    by fastforce
  have I0: "I w0" using assms(1) \<open>I w\<close> unfolding w0_def by (rule stable_settle)
  have "quiet (e\<lparr>interfere := (\<lambda>_ w. w)\<rparr>)" by (simp add: quiet_def)
  then have I1: "I w1" and R1: "I (restoreTables w0 w1)"
    using body [OF stable_calm [OF assms(1)] _ I0 run] by simp_all
  have "restoreTables w0 (w1\<lparr>tick := n\<rparr>) = (restoreTables w0 w1)\<lparr>tick := n\<rparr>" for n
    by (simp add: restoreTables_def)
  then show "I (snd (run_state (Transaction e body) w))"
    using I1 R1 run stable_tick [OF assms(1)]
    by (auto simp: Transaction_def Let_def w0_def split: sum.split option.split)
qed

section \<open>The store invariant\<close>

text \<open>
  The five statuses of models/domain.go, and the fact that a generating domain carries the
  time at which it became so.
\<close>

definition statuses :: "string set" where
  "statuses = {''pending'', ''verified'', ''generating'', ''active'', ''error''}"

definition status_ok :: "DomainRow \<Rightarrow> bool" where
  "status_ok d \<longleftrightarrow>
     dStatus d \<in> statuses \<and> (dStatus d = ''generating'' \<longrightarrow> dGeneratingSince d \<noteq> None)"

definition wf_domains :: "uint \<Rightarrow> DomainRow list \<Rightarrow> bool" where
  "wf_domains n ds \<longleftrightarrow>
     distinct (map dID ds) \<and> distinct (map dDomain ds) \<and> (\<forall>d \<in> set ds. dID d \<le> n \<and> status_ok d)"

definition wf_certs :: "uint \<Rightarrow> CertRow list \<Rightarrow> bool" where
  "wf_certs n cs \<longleftrightarrow>
     distinct (map cID cs) \<and> distinct (map cDomainID cs) \<and> (\<forall>c \<in> set cs. cID c \<le> n)"

definition wf_store :: "world \<Rightarrow> bool" where
  "wf_store w \<longleftrightarrow> wf_domains (domainSeq w) (domains w) \<and> wf_certs (certSeq w) (certs w)"

lemma wf_store_tick [simp]: "wf_store (w\<lparr>tick := n\<rparr>) = wf_store w"
  by (simp add: wf_store_def)

lemma wf_domains_mono: "wf_domains m ds \<Longrightarrow> m \<le> n \<Longrightarrow> wf_domains n ds"
  by (fastforce simp: wf_domains_def)

lemma wf_certs_mono: "wf_certs m cs \<Longrightarrow> m \<le> n \<Longrightarrow> wf_certs n cs"
  by (fastforce simp: wf_certs_def)

lemma wf_domains_filter: "wf_domains n ds \<Longrightarrow> wf_domains n (filter p ds)"
  by (auto simp: wf_domains_def distinct_map_filter)

lemma wf_certs_filter: "wf_certs n cs \<Longrightarrow> wf_certs n (filter p cs)"
  by (auto simp: wf_certs_def distinct_map_filter)

section \<open>Column updates of the domains table\<close>

text \<open>
  What every \<open>Updates\<close> map of the server promises: the row keeps its identity (id and name),
  and a row with a proper status keeps one.
\<close>

locale row_update =
  fixes f :: "DomainRow \<Rightarrow> DomainRow"
  assumes keeps_id: "dID (f d) = dID d"
    and keeps_name: "dDomain (f d) = dDomain d"
    and keeps_status: "status_ok d \<Longrightarrow> status_ok (f d)"
begin

lemma stamped_status: "status_ok d \<Longrightarrow> status_ok ((f d)\<lparr>dUpdatedAt := t\<rparr>)"
  using keeps_status [of d] by (simp add: status_ok_def)

lemma map_wf:
  assumes "wf_domains n ds"
  shows "wf_domains n (map (\<lambda>d. if p d then (f d)\<lparr>dUpdatedAt := t\<rparr> else d) ds)"
proof -
  let ?g = "\<lambda>d. if p d then (f d)\<lparr>dUpdatedAt := t\<rparr> else d"
  have keys: "map dID (map ?g ds) = map dID ds" "map dDomain (map ?g ds) = map dDomain ds"
    by (rule distinct_map_keep; simp add: keeps_id keeps_name)+
  show ?thesis
    using assms unfolding wf_domains_def keys by (auto simp: keeps_id stamped_status)
qed

lemma unscoped_updates_keep_wf:
  assumes "stable e wf_store"
  shows "keeps wf_store (Updates e domains domains_update p (\<lambda>t d. (f d)\<lparr>dUpdatedAt := t\<rparr>))"
  using assms unfolding Updates_def by (intro keeps_db) (auto simp: wf_store_def map_wf)

end

text \<open>An update of the default scope leaves the deletion mark alone as well.\<close>

locale domain_update = row_update +
  assumes keeps_deleted: "dDeletedAt (f d) = dDeletedAt d"
begin

lemma updates_keeps_wf:
  assumes "stable e wf_store"
  shows "keeps wf_store (UpdatesDomain e p f)"
  using assms unfolding UpdatesDomain_def Updates_def
  by (intro keeps_db) (auto simp: wf_store_def map_wf)

lemma run_updates:
  "run_state (UpdatesDomain e p f) w =
    (case dbfail e (Suc (tick w)) of
       Some x \<Rightarrow> (Inl (dbErr x), settle e w)
     | None \<Rightarrow> (let w' = settle e w in
         (Inr (length (filter (\<lambda>d. live d \<and> p d) (domains w'))),
          w'\<lparr>domains := map (\<lambda>d. if live d \<and> p d then (f d)\<lparr>dUpdatedAt := clock w'\<rparr> else d)
                         (domains w')\<rparr>)))"
  by (simp add: UpdatesDomain_def Updates_def run_simps Let_def split: option.split)

text \<open>A row the where clause does not select is not touched.\<close>

lemma other_rows:
  assumes "\<And>d. q d \<Longrightarrow> \<not> p d" and "\<And>d. p d \<Longrightarrow> \<not> q ((f d)\<lparr>dUpdatedAt := t\<rparr>)"
  shows "find q (map (\<lambda>d. if p d then (f d)\<lparr>dUpdatedAt := t\<rparr> else d) ds) = find q ds"
  by (induction ds) (auto simp: assms)

end

section \<open>Rows by id\<close>

text \<open>The where clauses \<open>id = ?\<close> and \<open>domain_id = ?\<close>, and the rows they find.\<close>

definition byID :: "uint \<Rightarrow> DomainRow \<Rightarrow> bool" where
  "byID i d \<longleftrightarrow> dID d = i"

definition certOfDomain :: "uint \<Rightarrow> CertRow \<Rightarrow> bool" where
  "certOfDomain i c \<longleftrightarrow> cDomainID c = i"

definition rowOf :: "uint \<Rightarrow> world \<Rightarrow> DomainRow option" where
  "rowOf i w = find (\<lambda>d. live d \<and> byID i d) (domains w)"

definition certOf :: "uint \<Rightarrow> world \<Rightarrow> CertRow option" where
  "certOf i w = find (certOfDomain i) (certs w)"

definition hasCertRow :: "uint \<Rightarrow> world \<Rightarrow> bool" where
  "hasCertRow i w \<longleftrightarrow> certOf i w \<noteq> None"

lemma hasCertRow_count: "hasCertRow i w \<longleftrightarrow> 0 < length (filter (certOfDomain i) (certs w))"
  by (simp add: hasCertRow_def certOf_def find_None_filter)

lemma rowOf_same: "domains w' = domains w \<Longrightarrow> rowOf i w' = rowOf i w"
  by (simp add: rowOf_def)

lemma certOf_same: "certs w' = certs w \<Longrightarrow> certOf i w' = certOf i w"
  by (simp add: certOf_def)

lemma hasCertRow_same: "certs w' = certs w \<Longrightarrow> hasCertRow i w' = hasCertRow i w"
  by (simp add: hasCertRow_def certOf_def)

lemma rows_tick [simp]:
  "rowOf i (w\<lparr>tick := n\<rparr>) = rowOf i w" "certOf i (w\<lparr>tick := n\<rparr>) = certOf i w"
  "hasCertRow i (w\<lparr>tick := n\<rparr>) = hasCertRow i w"
  by (simp_all add: rowOf_def certOf_def hasCertRow_def)

lemma rowOf_id: "rowOf i w = Some d \<Longrightarrow> dID d = i \<and> live d \<and> d \<in> set (domains w)"
  unfolding rowOf_def by (drule find_SomeD) (auto simp: byID_def)

lemma rowOf_status_ok: "wf_store w \<Longrightarrow> rowOf i w = Some d \<Longrightarrow> status_ok d"
  by (drule rowOf_id) (auto simp: wf_store_def wf_domains_def)

text \<open>The row \<open>f\<close> and its time stamp, as \<open>Updates\<close> writes it.\<close>

definition stamp :: "time \<Rightarrow> (DomainRow \<Rightarrow> DomainRow) \<Rightarrow> DomainRow \<Rightarrow> DomainRow" where
  "stamp t f d = (f d)\<lparr>dUpdatedAt := t\<rparr>"

lemma stamp_eq: "stamp t f = (\<lambda>d. (f d)\<lparr>dUpdatedAt := t\<rparr>)"
  by (simp add: stamp_def fun_eq_iff)

definition calm :: "env \<Rightarrow> bool" where
  "calm e \<longleftrightarrow> quiet e \<and> faultless e"

text \<open>The state after \<open>n\<close> primitives of a calm run that changed nothing.\<close>

definition later :: "nat \<Rightarrow> world \<Rightarrow> world" where
  "later n w = w\<lparr>tick := tick w + n\<rparr>"

lemma settle_calm [run_simps]: "calm e \<Longrightarrow> settle e w = later (Suc 0) w"
  by (simp add: calm_def settle_quiet later_def)

lemma dbfail_calm [run_simps]: "calm e \<Longrightarrow> dbfail e n = None"
  by (simp add: calm_def dbfail_faultless)

lemma later_later [simp]: "later m (later n w) = later (n + m) w"
  by (simp add: later_def add.assoc)

lemma later_fields [simp]:
  "domains (later n w) = domains w" "certs (later n w) = certs w" "jobs (later n w) = jobs w"
  "ctxs (later n w) = ctxs w" "clock (later n w) = clock w" "slots (later n w) = slots w"
  "users (later n w) = users w" "workers (later n w) = workers w"
  "tick (later n w) = tick w + n" "rowOf i (later n w) = rowOf i w"
  "certOf i (later n w) = certOf i w" "hasCertRow i (later n w) = hasCertRow i w"
  "spawned (later n w) = spawned w" "tokenSeq (later n w) = tokenSeq w"
  "jobWG (later n w) = jobWG w" "accounts (later n w) = accounts w"
  "certSeq (later n w) = certSeq w" "domainSeq (later n w) = domainSeq w"
  "targets (later n w) = targets w" "deployJobs (later n w) = deployJobs w"
  "encryptionKey (later n w) = encryptionKey w" "delegation (later n w) = delegation w"
  "cfCalls (later n w) = cfCalls w"
  by (simp_all add: later_def rowOf_def certOf_def hasCertRow_def)

text \<open>The state after an update by id in a calm environment.\<close>

definition written :: "(DomainRow \<Rightarrow> DomainRow) \<Rightarrow> uint \<Rightarrow> world \<Rightarrow> world" where
  "written f i w = w\<lparr>domains :=
     map (\<lambda>d. if live d \<and> byID i d then stamp (clock w) f d else d) (domains w)\<rparr>"

definition affected :: "uint \<Rightarrow> world \<Rightarrow> nat" where
  "affected i w = length (filter (\<lambda>d. live d \<and> byID i d) (domains w))"

lemma run_UpdatesDomain_calm [run_simps]:
  "calm e \<Longrightarrow>
     run_state (UpdatesDomain e (byID i) f) w = (Inr (affected i w), written f i (later 1 w))"
  by (simp add: UpdatesDomain_def Updates_def run_simps written_def affected_def stamp_def)

lemma written_other [simp]:
  "certs (written f i w) = certs w" "jobs (written f i w) = jobs w" "ctxs (written f i w) = ctxs w"
  "clock (written f i w) = clock w" "slots (written f i w) = slots w"
  "users (written f i w) = users w" "tick (written f i w) = tick w"
  "certOf j (written f i w) = certOf j w" "hasCertRow j (written f i w) = hasCertRow j w"
  "spawned (written f i w) = spawned w" "workers (written f i w) = workers w"
  "tokenSeq (written f i w) = tokenSeq w" "encryptionKey (written f i w) = encryptionKey w"
  by (simp_all add: written_def certOf_def hasCertRow_def)

context domain_update
begin

lemma row_update_if:
  "find (\<lambda>d. live d \<and> byID j d)
     (map (\<lambda>d. if live d \<and> byID i d \<and> g d then stamp t f d else d) ds) =
   (if i = j
    then map_option (\<lambda>d. if g d then stamp t f d else d) (find (\<lambda>d. live d \<and> byID j d) ds)
    else find (\<lambda>d. live d \<and> byID j d) ds)"
  by (induction ds) (auto simp: live_def byID_def stamp_def keeps_id keeps_deleted)

lemma row_update:
  "find (\<lambda>d. live d \<and> byID j d)
     (map (\<lambda>d. if live d \<and> byID i d then stamp t f d else d) ds) =
   (if i = j then map_option (stamp t f) (find (\<lambda>d. live d \<and> byID j d) ds)
    else find (\<lambda>d. live d \<and> byID j d) ds)"
  using row_update_if [of j i "\<lambda>_. True" t ds] by simp

text \<open>The row after an update by id that did not fail, and everything else unchanged.\<close>

lemma rowOf_update:
  assumes "run_state (UpdatesDomain e (byID i) f) w = (Inr n, w')"
  shows "rowOf j w' = (if i = j then map_option (stamp (clock w') f) (rowOf j (settle e w))
                       else rowOf j (settle e w))"
    and "certs w' = certs (settle e w)" and "jobs w' = jobs (settle e w)"
    and "ctxs w' = ctxs (settle e w)" and "clock w' = clock (settle e w)"
  using assms row_update [unfolded stamp_eq]
  by (auto simp: run_updates Let_def rowOf_def stamp_eq split: option.splits)

lemma rowOf_update_fails:
  "run_state (UpdatesDomain e p f) w = (Inl err, w') \<Longrightarrow> w' = settle e w"
  by (auto simp: run_updates Let_def split: option.splits)

lemma rowOf_written:
  "rowOf j (written f i w) = (if i = j then map_option (stamp (clock w) f) (rowOf j w) else rowOf j w)"
  by (simp add: written_def rowOf_def row_update)

end

lemma rows_affected_id:
  assumes "distinct (map dID ds)"
  shows "length (filter (\<lambda>d. live d \<and> byID i d \<and> g d) ds) =
    (case find (\<lambda>d. live d \<and> byID i d) ds of None \<Rightarrow> 0 | Some d \<Rightarrow> if g d then 1 else 0)"
  using assms
proof (induction ds)
  case (Cons d ds)
  have none: "dID d = i \<Longrightarrow> filter (\<lambda>d. live d \<and> byID i d \<and> g d) ds = []"
    using Cons.prems by (auto simp: filter_empty_conv image_iff byID_def)
  have none': "dID d = i \<Longrightarrow> find (\<lambda>d. live d \<and> byID i d) ds = None"
    using Cons.prems by (auto simp: find_None_filter filter_empty_conv image_iff byID_def)
  show ?case
    using Cons none none' by (auto simp: byID_def)
qed simp

text \<open>A conditional update by id: it selects the row or none.\<close>

context domain_update
begin

lemma run_guarded_calm:
  assumes "calm e" and "wf_store w" and "rowOf i w = Some d"
  shows "run_state (UpdatesDomain e (\<lambda>x. byID i x \<and> g x) f) w =
    (if g d then (Inr 1, written f i (later 1 w)) else (Inr 0, later 1 w))"
proof -
  have dist: "distinct (map dID (domains w))" using assms(2) by (simp add: wf_store_def wf_domains_def)
  have n: "length (filter (\<lambda>d. live d \<and> byID i d \<and> g d) (domains w)) = (if g d then 1 else 0)"
    using rows_affected_id [OF dist, of i g] assms(3) by (simp add: rowOf_def)
  have "d' = d" if "d' \<in> set (domains w)" "dID d' = i" for d'
    using dist that assms(3) by (metis distinct_key_unique rowOf_id)
  then have "map (\<lambda>x. if live x \<and> byID i x \<and> g x then h x else x) (domains w) =
      (if g d then map (\<lambda>x. if live x \<and> byID i x then h x else x) (domains w) else domains w)" for h
    by (auto simp: byID_def intro!: map_idI)
  with n show ?thesis by (simp add: run_updates run_simps assms(1) Let_def written_def stamp_eq)
qed

end

end
