(* ===== verification/Cert_Registry.thy ===== *)
theory Cert_Registry
  imports Store "HOL-Library.AList"
begin

text \<open>
  controllers/cert_job_registry.go: the registry of in-flight certificate jobs and the per-domain
  worker counters. A critical section of the registry's mutex is one primitive; a wait on a
  worker is two (the lookup of the tracker, and its outcome after the other goroutines ran).
  The laws the clients rely on are the locale \<open>job_registry\<close>, interpreted on the critical
  sections.
\<close>

section \<open>The interface\<close>

text \<open>
  \<open>reg s d\<close> is the token registered for domain \<open>d\<close>, \<open>alive s t\<close> whether the context of
  token \<open>t\<close> has no error, \<open>fresh s\<close> the token the next registration will get.
\<close>

locale job_registry =
  fixes reg :: "'s \<Rightarrow> uint \<Rightarrow> 't option"
    and alive :: "'s \<Rightarrow> 't \<Rightarrow> bool"
    and fresh :: "'s \<Rightarrow> 't"
    and register :: "uint \<Rightarrow> time \<Rightarrow> 's \<Rightarrow> 's"
    and cancel :: "uint \<Rightarrow> 's \<Rightarrow> 's"
    and finish :: "uint \<Rightarrow> 't \<Rightarrow> 's \<Rightarrow> 's"
  assumes reg_register: "reg (register d dl s) = (reg s)(d \<mapsto> fresh s)"
    and reg_cancel: "reg (cancel d s) = reg s"
    and reg_finish: "reg (finish d t s) = (if reg s d = Some t then (reg s)(d := None) else reg s)"
    and alive_cancel: "reg s d = Some t \<Longrightarrow> \<not> alive (cancel d s) t"
    and alive_cancel_other: "reg s d \<noteq> Some t \<Longrightarrow> alive (cancel d s) t = alive s t"
    and alive_finish: "alive (finish d t s) t' = alive s t'"
    and alive_register: "t \<noteq> fresh s \<Longrightarrow> alive (register d dl s) t = alive s t"
begin

definition active :: "'s \<Rightarrow> uint \<Rightarrow> 't \<Rightarrow> bool" where
  "active s d t \<longleftrightarrow> reg s d = Some t \<and> alive s t"

lemma active_unique: "active s d t \<Longrightarrow> active s d t' \<Longrightarrow> t = t'"
  by (simp add: active_def)

lemma cancel_inactive: "\<not> active (cancel d s) d t"
  using alive_cancel [of s d t] by (auto simp: active_def reg_cancel)

lemma cancel_keeps_entry: "reg (cancel d s) d' = reg s d'"
  by (simp add: reg_cancel)

lemma supersede_inactive: "t \<noteq> fresh s \<Longrightarrow> \<not> active (register d dl s) d t"
  by (simp add: active_def reg_register)

lemma register_other_domain:
  "d' \<noteq> d \<Longrightarrow> t \<noteq> fresh s \<Longrightarrow> active (register d dl s) d' t = active s d' t"
  by (simp add: active_def reg_register alive_register)

lemma finish_stale: "reg s d \<noteq> Some t \<Longrightarrow> reg (finish d t s) = reg s"
  by (simp add: reg_finish)

lemma finish_own: "reg s d = Some t \<Longrightarrow> reg (finish d t s) d = None"
  by (simp add: reg_finish)

lemma finish_keeps_active: "active s d' t' \<Longrightarrow> (d', t') \<noteq> (d, t) \<Longrightarrow> active (finish d t s) d' t'"
  by (auto simp: active_def reg_finish alive_finish)

text \<open>A registered domain stays registered until its own token finishes.\<close>

lemma entry_survives: "reg s d = Some t' \<Longrightarrow> t' \<noteq> t \<Longrightarrow> reg (finish d t s) d = Some t'"
  by (simp add: reg_finish)

end

section \<open>Contexts\<close>

datatype ctx = Background | JobCtx token

definition ctxErr :: "world \<Rightarrow> ctx \<Rightarrow> err option" where
  "ctxErr w c = (case c of Background \<Rightarrow> None
     | JobCtx t \<Rightarrow> (case ctxs w t of
         None \<Rightarrow> None
       | Some s \<Rightarrow> if canceled s then Some Canceled
                   else if deadline s \<le> clock w then Some DeadlineExceeded else None))"

definition CtxErr :: "env \<Rightarrow> ctx \<Rightarrow> (world, err option) state" where
  "CtxErr e c = act e (\<lambda>w. (ctxErr w c, w))"

definition cancelCtx :: "token \<Rightarrow> world \<Rightarrow> world" where
  "cancelCtx t w = w\<lparr>ctxs := (ctxs w)(t := map_option (canceled_update (\<lambda>_. True)) (ctxs w t))\<rparr>"

section \<open>Critical sections\<close>

abbreviation entry :: "world \<Rightarrow> uint \<Rightarrow> token option" where
  "entry w \<equiv> map_of (jobs w)"

definition cancelEntry :: "uint \<Rightarrow> world \<Rightarrow> world" where
  "cancelEntry d w = (case entry w d of None \<Rightarrow> w | Some t \<Rightarrow> cancelCtx t w)"

definition registerJob :: "uint \<Rightarrow> time \<Rightarrow> world \<Rightarrow> world" where
  "registerJob d dl w =
     (let t = tokenSeq w + 1 in
      w\<lparr>tokenSeq := t,
        ctxs := (ctxs w)(t \<mapsto> \<lparr>deadline = dl, canceled = False\<rparr>),
        jobs := AList.update d t (jobs w)\<rparr>)"

definition endJob :: "uint \<Rightarrow> token \<Rightarrow> world \<Rightarrow> world" where
  "endJob d t w =
     (case entry w d of
        None \<Rightarrow> w
      | Some t' \<Rightarrow> if t' = t then w\<lparr>jobs := AList.delete d (jobs w)\<rparr> else w)"

definition activeJob :: "world \<Rightarrow> uint \<Rightarrow> token \<Rightarrow> bool" where
  "activeJob w d t \<longleftrightarrow> entry w d = Some t \<and> ctxErr w (JobCtx t) = None"

definition inflight :: "world \<Rightarrow> uint \<Rightarrow> bool" where
  "inflight w d \<longleftrightarrow> entry w d \<noteq> None"

text \<open>
  A context counts as alive when it exists and has no error. Every registered token has one
  (\<open>registry_ok\<close> below), so for registered tokens this is \<open>ctxErr = None\<close>.
\<close>

definition aliveCtx :: "world \<Rightarrow> token \<Rightarrow> bool" where
  "aliveCtx w t \<longleftrightarrow>
     (case ctxs w t of None \<Rightarrow> False | Some s \<Rightarrow> \<not> canceled s \<and> clock w < deadline s)"

interpretation registry: job_registry entry aliveCtx "\<lambda>w. tokenSeq w + 1" registerJob cancelEntry endJob
proof (unfold_locales, goal_cases)
  case (1 d dl s)
  show ?case by (simp add: registerJob_def Let_def update_conv')
next
  case (2 d s)
  show ?case by (simp add: cancelEntry_def cancelCtx_def split: option.splits)
next
  case (3 d t s)
  show ?case by (auto simp: endJob_def delete_conv' split: option.splits)
next
  case (4 s d t)
  then show ?case
    by (simp add: cancelEntry_def cancelCtx_def aliveCtx_def split: option.splits)
next
  case (5 s d t)
  then show ?case
    by (auto simp: cancelEntry_def cancelCtx_def aliveCtx_def split: option.splits)
next
  case (6 d t s t')
  show ?case by (simp add: endJob_def aliveCtx_def split: option.splits)
next
  case (7 t s d dl)
  then show ?case by (simp add: registerJob_def Let_def aliveCtx_def split: option.split)
qed

text \<open>Well-formedness: every registered token has a context and was issued by the counter.\<close>

definition registry_ok :: "world \<Rightarrow> bool" where
  "registry_ok w \<longleftrightarrow>
     (\<forall>d t. entry w d = Some t \<longrightarrow> ctxs w t \<noteq> None \<and> t \<le> tokenSeq w)
     \<and> (\<forall>d d' t. entry w d = Some t \<longrightarrow> entry w d' = Some t \<longrightarrow> d = d')"

lemma activeJob_active:
  assumes "registry_ok w"
  shows "activeJob w d t \<longleftrightarrow> registry.active w d t"
proof (cases "entry w d = Some t")
  case True
  with assms have "ctxs w t \<noteq> None" unfolding registry_ok_def by blast
  with True show ?thesis
    by (auto simp: activeJob_def registry.active_def aliveCtx_def ctxErr_def split: if_splits)
qed (simp add: activeJob_def registry.active_def)

lemma registry_ok_cancelEntry: "registry_ok w \<Longrightarrow> registry_ok (cancelEntry d w)"
  by (auto simp: registry_ok_def cancelEntry_def cancelCtx_def split: option.splits)

lemma registry_ok_endJob: "registry_ok w \<Longrightarrow> registry_ok (endJob d t w)"
  unfolding registry_ok_def registry.reg_finish
  by (auto simp: endJob_def split: option.splits if_splits)

lemma token_less_plus1: "(t :: token) < - 1 \<Longrightarrow> t < t + 1"
  by unat_arith

lemma registry_ok_registerJob:
  assumes "registry_ok w" and "tokenSeq w < - 1"
  shows "registry_ok (registerJob d dl w)"
proof -
  have lt: "tokenSeq w < tokenSeq w + 1" using assms(2) by (rule token_less_plus1)
  have old: "t \<le> tokenSeq w" if "entry w d' = Some t" for d' t
    using assms(1) that by (simp add: registry_ok_def)
  have ne: "entry w d' \<noteq> Some (tokenSeq w + 1)" for d'
    using old [of d' "tokenSeq w + 1"] lt by (metis leD)
  have le: "t \<le> tokenSeq w + 1" if "entry w d' = Some t" for d' t
    using old [OF that] lt by (meson less_imp_le order_trans)
  have fields: "ctxs (registerJob d dl w) =
      (ctxs w)(tokenSeq w + 1 \<mapsto> \<lparr>deadline = dl, canceled = False\<rparr>)"
    "tokenSeq (registerJob d dl w) = tokenSeq w + 1"
    by (simp_all add: registerJob_def Let_def)
  show ?thesis
    using assms(1) ne le unfolding registry_ok_def registry.reg_register fields by auto
qed

section \<open>Operations\<close>

definition domainWorkerTrackerFor :: "uint \<Rightarrow> world \<Rightarrow> world" where
  "domainWorkerTrackerFor d w =
     (case workers w d of None \<Rightarrow> w\<lparr>workers := (workers w)(d \<mapsto> 0)\<rparr> | Some _ \<Rightarrow> w)"

definition workerAdd :: "uint \<Rightarrow> world \<Rightarrow> world" where
  "workerAdd d w = w\<lparr>workers := (workers w)(d := map_option Suc (workers w d))\<rparr>"

definition workerDone :: "uint \<Rightarrow> world \<Rightarrow> world" where
  "workerDone d w = w\<lparr>workers := (workers w)(d := map_option (\<lambda>n. n - 1) (workers w d))\<rparr>"

definition beginDomainWorker :: "env \<Rightarrow> uint \<Rightarrow> (world, unit) state" where
  "beginDomainWorker e d = act e (\<lambda>w. ((), workerAdd d (domainWorkerTrackerFor d w)))"

definition endDomainWorker :: "env \<Rightarrow> uint \<Rightarrow> (world, unit) state" where
  "endDomainWorker e d = act e (\<lambda>w. ((), workerDone d w))"

text \<open>
  \<open>waitDomainWorker\<close>: None means the call blocks for ever, which it can only do with a
  timeout that is not positive. When the worker is done and the timer has fired as well, the
  select may take either branch.
\<close>

definition waitDomainWorker :: "env \<Rightarrow> uint \<Rightarrow> duration \<Rightarrow> (world, bool option) state" where
  "waitDomainWorker e d timeout = do {
     tracked \<leftarrow> act e (\<lambda>w. (workers w d \<noteq> None, w));
     if \<not> tracked then State_Monad.return (Some True)
     else act e (\<lambda>w.
       (let finished = (workers w d = Some 0) in
        if timeout \<le> 0 then (if finished then Some True else None)
        else Some (finished \<and> \<not> timerFires e (tick w)), w))
   }"

definition beginCertJob :: "env \<Rightarrow> uint \<Rightarrow> (world, token option) state" where
  "beginCertJob e domainID = do {
     _ \<leftarrow> act e (\<lambda>w. ((), cancelEntry domainID w));
     waited \<leftarrow> waitDomainWorker e domainID (GeneratingTimeoutDuration (Renewal (cfg e)));
     case waited of
       None \<Rightarrow> State_Monad.return None
     | Some _ \<Rightarrow> act e (\<lambda>w.
         (let w' = registerJob domainID
                     (clock w + GeneratingTimeoutDuration (Renewal (cfg e))) w
          in (Some (tokenSeq w'), w')))
   }"

definition releaseCertJob :: "env \<Rightarrow> uint \<Rightarrow> token \<Rightarrow> (world, unit) state" where
  "releaseCertJob e domainID tok = act e (\<lambda>w. ((), endJob domainID tok w))"

definition isCertJobActive :: "env \<Rightarrow> uint \<Rightarrow> token \<Rightarrow> (world, bool) state" where
  "isCertJobActive e domainID tok = act e (\<lambda>w. (activeJob w domainID tok, w))"

definition certJobInflight :: "env \<Rightarrow> uint \<Rightarrow> (world, bool) state" where
  "certJobInflight e domainID = act e (\<lambda>w. (inflight w domainID, w))"

definition cancelCertJob :: "env \<Rightarrow> uint \<Rightarrow> (world, unit) state" where
  "cancelCertJob e domainID = act e (\<lambda>w. ((), cancelEntry domainID w))"

definition cancelEntries :: "(uint \<times> token) list \<Rightarrow> world \<Rightarrow> world" where
  "cancelEntries es w = fold (\<lambda>(d, t). cancelCtx t) es w"

definition CancelAllCertJobs :: "env \<Rightarrow> (world, unit) state" where
  "CancelAllCertJobs e = act e (\<lambda>w. ((), cancelEntries (jobs w) w))"

lemma run_registry [run_simps]:
  "run_state (CtxErr e c) w = (ctxErr (settle e w) c, settle e w)"
  "run_state (beginDomainWorker e d) w =
     ((), workerAdd d (domainWorkerTrackerFor d (settle e w)))"
  "run_state (endDomainWorker e d) w = ((), workerDone d (settle e w))"
  "run_state (releaseCertJob e d t) w = ((), endJob d t (settle e w))"
  "run_state (isCertJobActive e d t) w = (activeJob (settle e w) d t, settle e w)"
  "run_state (certJobInflight e d) w = (inflight (settle e w) d, settle e w)"
  "run_state (cancelCertJob e d) w = ((), cancelEntry d (settle e w))"
  by (simp_all add: CtxErr_def beginDomainWorker_def endDomainWorker_def releaseCertJob_def
      isCertJobActive_def certJobInflight_def cancelCertJob_def run_simps)

text \<open>None of the critical sections touches the tables, the slots or the clock.\<close>

lemma registry_frame [simp]:
  "domains (cancelEntry d w) = domains w" "certs (cancelEntry d w) = certs w"
  "clock (cancelEntry d w) = clock w" "slots (cancelEntry d w) = slots w"
  "users (cancelEntry d w) = users w" "workers (cancelEntry d w) = workers w"
  "jobs (cancelEntry d w) = jobs w" "tick (cancelEntry d w) = tick w"
  "domains (endJob d t w) = domains w" "certs (endJob d t w) = certs w"
  "clock (endJob d t w) = clock w" "slots (endJob d t w) = slots w"
  "domains (registerJob d dl w) = domains w" "certs (registerJob d dl w) = certs w"
  "clock (registerJob d dl w) = clock w" "slots (registerJob d dl w) = slots w"
  "tick (registerJob d dl w) = tick w" "spawned (registerJob d dl w) = spawned w"
  by (simp_all add: cancelEntry_def cancelCtx_def endJob_def registerJob_def Let_def
      split: option.splits)

lemma cancelEntries_jobs [simp]: "jobs (cancelEntries es w) = jobs w"
  by (induction es arbitrary: w) (auto simp: cancelEntries_def cancelCtx_def)

lemma cancelEntries_canceled:
  "(d, t) \<in> set es \<or> (\<exists>s. ctxs w t = Some s \<and> canceled s) \<Longrightarrow> ctxs w t \<noteq> None \<Longrightarrow>
     \<exists>s. ctxs (cancelEntries es w) t = Some s \<and> canceled s"
proof (induction es arbitrary: w)
  case Nil
  then show ?case by (auto simp: cancelEntries_def)
next
  case (Cons x es)
  obtain d' t' where x: "x = (d', t')" by (cases x)
  have step: "cancelEntries (x # es) w = cancelEntries es (cancelCtx t' w)"
    by (simp add: cancelEntries_def x)
  show ?case
    unfolding step
    by (rule Cons.IH) (use Cons.prems in \<open>auto simp: cancelCtx_def x\<close>)
qed

text \<open>A job's liveness is read from the registry, the contexts and the clock only.\<close>

lemma ctxErr_same: "ctxs v = ctxs w \<Longrightarrow> clock v = clock w \<Longrightarrow> ctxErr v c = ctxErr w c"
  by (simp add: ctxErr_def split: ctx.split option.split)

lemma activeJob_same:
  "jobs v = jobs w \<Longrightarrow> ctxs v = ctxs w \<Longrightarrow> clock v = clock w \<Longrightarrow> activeJob v d t = activeJob w d t"
  using ctxErr_same [of v w "JobCtx t"] by (simp add: activeJob_def)

lemma activeJob_frame [simp]:
  "activeJob (w\<lparr>tick := x0\<rparr>) d t = activeJob w d t"
  "activeJob (w\<lparr>accounts := x1\<rparr>) d t = activeJob w d t"
  "activeJob (w\<lparr>accountSeq := x2\<rparr>) d t = activeJob w d t"
  "activeJob (w\<lparr>domains := x3\<rparr>) d t = activeJob w d t"
  "activeJob (w\<lparr>certs := x4\<rparr>) d t = activeJob w d t"
  "activeJob (w\<lparr>certSeq := x5\<rparr>) d t = activeJob w d t"
  "activeJob (w\<lparr>slots := x6\<rparr>) d t = activeJob w d t"
  "activeJob (w\<lparr>jobWG := x7\<rparr>) d t = activeJob w d t"
  "activeJob (w\<lparr>spawned := x8\<rparr>) d t = activeJob w d t"
  "activeJob (w\<lparr>workers := x9\<rparr>) d t = activeJob w d t"
  "activeJob (w\<lparr>users := x10\<rparr>) d t = activeJob w d t"
  by (rule activeJob_same; simp)+

end
