(* ===== verification/Cert_Status.thy ===== *)
theory Cert_Status
  imports Store_Inv Cert_Registry
begin

text \<open>
  The status updates of a certificate operation: in controllers/certificate.go
  setDomainError, saveCertificateRecord, domainHasCertificate, setDomainAutoRenewFailure,
  failCertJob, failCertJobIfActive and rollbackCancelledCertJob, in
  controllers/renewal_scheduler.go rollbackGeneratingDomain and scheduleAutoRenewBackoff, in
  controllers/cname.go markDomainCnameVerified, in controllers/helpers.go loadCertificate. Each
  \<open>Updates\<close> map of the source is a named column update (\<open>...Cols\<close>), an interpretation of
  \<open>domain_update\<close>.
\<close>

section \<open>Column updates\<close>

definition errorCols :: "string \<Rightarrow> string \<Rightarrow> DomainRow \<Rightarrow> DomainRow" where
  "errorCols status message d =
     d\<lparr>dStatus := status, dErrorMessage := message, dGeneratingSince := None\<rparr>"

definition savedCols :: "DomainRow \<Rightarrow> DomainRow" where
  "savedCols d =
     d\<lparr>dStatus := ''active'', dErrorMessage := [], dGeneratingSince := None,
       dAutoRenewFailures := 0, dAutoRenewBackoffUntil := None\<rparr>"

definition backoffCols :: "int \<Rightarrow> time \<Rightarrow> DomainRow \<Rightarrow> DomainRow" where
  "backoffCols failures until d =
     d\<lparr>dAutoRenewFailures := failures, dAutoRenewBackoffUntil := Some until\<rparr>"

definition verifiedCols :: "time \<Rightarrow> DomainRow \<Rightarrow> DomainRow" where
  "verifiedCols now d =
     d\<lparr>dStatus := ''verified'', dErrorMessage := [], dCnameVerifiedAt := Some now\<rparr>"

lemmas cols_defs = errorCols_def savedCols_def backoffCols_def verifiedCols_def

interpretation errorUpd: domain_update "errorCols ''error'' message" for message
  by unfold_locales (auto simp: errorCols_def status_ok_def statuses_def)

interpretation activeUpd: domain_update "errorCols ''active'' message" for message
  by unfold_locales (auto simp: errorCols_def status_ok_def statuses_def)

interpretation rolledVerifiedUpd: domain_update "errorCols ''verified'' message" for message
  by unfold_locales (auto simp: errorCols_def status_ok_def statuses_def)

interpretation savedUpd: domain_update savedCols
  by unfold_locales (auto simp: savedCols_def status_ok_def statuses_def)

interpretation backoffUpd: domain_update "backoffCols failures until" for failures until
  by unfold_locales (auto simp: backoffCols_def status_ok_def)

interpretation verifiedUpd: domain_update "verifiedCols now" for now
  by unfold_locales (auto simp: verifiedCols_def status_ok_def statuses_def)

section \<open>Queries\<close>

text \<open>The count stays 0 when the query fails: its error is not looked at.\<close>

definition domainHasCertificate :: "env \<Rightarrow> uint \<Rightarrow> (world, bool) state" where
  "domainHasCertificate e domainID = do {
     r \<leftarrow> Count e certs (certOfDomain domainID);
     State_Monad.return (case r of Inl _ \<Rightarrow> False | Inr n \<Rightarrow> 0 < n)
   }"

definition loadCertificate :: "env \<Rightarrow> uint \<Rightarrow> (world, CertRow option) state" where
  "loadCertificate e domainID = do {
     r \<leftarrow> First e certs (certOfDomain domainID);
     State_Monad.return (case r of Inl _ \<Rightarrow> None | Inr c \<Rightarrow> Some c)
   }"

section \<open>Status updates\<close>

text \<open>The results of these updates are dropped by the source.\<close>

definition setDomainError :: "env \<Rightarrow> uint \<Rightarrow> string \<Rightarrow> string \<Rightarrow> (world, unit) state" where
  "setDomainError e domainID status message = do {
     _ \<leftarrow> UpdatesDomain e (byID domainID) (errorCols status message);
     State_Monad.return ()
   }"

definition setDomainAutoRenewFailure :: "env \<Rightarrow> uint \<Rightarrow> string \<Rightarrow> (world, unit) state" where
  "setDomainAutoRenewFailure e domainID message = do {
     _ \<leftarrow> UpdatesDomain e (byID domainID) (errorCols ''active'' message);
     State_Monad.return ()
   }"

definition markDomainCnameVerified :: "env \<Rightarrow> uint \<Rightarrow> (world, err + unit) state" where
  "markDomainCnameVerified e domainID = do {
     now \<leftarrow> Now e;
     r \<leftarrow> UpdatesDomain e (byID domainID) (verifiedCols now);
     State_Monad.return (map_sum (\<lambda>x. x) (\<lambda>_. ()) r)
   }"

definition scheduleAutoRenewBackoff :: "env \<Rightarrow> uint \<Rightarrow> (world, unit) state" where
  "scheduleAutoRenewBackoff e domainID = do {
     r \<leftarrow> FirstDomain e (byID domainID);
     case r of
       Inl _ \<Rightarrow> State_Monad.return ()
     | Inr domain \<Rightarrow> do {
         let failures = wrap64 (dAutoRenewFailures domain + 1);
         let backoff = AutoRenewBackoffDuration (Renewal (cfg e)) failures;
         now \<leftarrow> Now e;
         _ \<leftarrow> UpdatesDomain e (byID domainID) (backoffCols failures (now + backoff));
         State_Monad.return ()
       }
   }"

definition failCertJob :: "env \<Rightarrow> uint \<Rightarrow> string \<Rightarrow> bool \<Rightarrow> (world, unit) state" where
  "failCertJob e domainID message autoRenew = do {
     hasCert \<leftarrow> (if autoRenew then domainHasCertificate e domainID else State_Monad.return False);
     if autoRenew \<and> hasCert then do {
       _ \<leftarrow> setDomainAutoRenewFailure e domainID message;
       scheduleAutoRenewBackoff e domainID
     } else do {
       _ \<leftarrow> setDomainError e domainID ''error'' message;
       if autoRenew then scheduleAutoRenewBackoff e domainID else State_Monad.return ()
     }
   }"

definition failCertJobIfActive ::
  "env \<Rightarrow> uint \<Rightarrow> token \<Rightarrow> string \<Rightarrow> bool \<Rightarrow> (world, unit) state" where
  "failCertJobIfActive e domainID tok message autoRenew = do {
     active \<leftarrow> isCertJobActive e domainID tok;
     if \<not> active then State_Monad.return () else failCertJob e domainID message autoRenew
   }"

section \<open>Saving a certificate\<close>

text \<open>
  \<open>tx.Create\<close> on the certificates table: the unique index on domain_id; a fresh id; both time
  stamps set. \<open>tx.Save\<close>: all columns of the row with that id, inserted when there is none.
\<close>

definition CreateCert :: "env \<Rightarrow> CertRow \<Rightarrow> (world, err + CertRow) state" where
  "CreateCert e c =
     db e (\<lambda>w. if list_ex (certOfDomain (cDomainID c)) (certs w)
               then (Inl (dbErr UniqueViolation), w)
               else let row = c\<lparr>cID := Suc (certSeq w), cCreatedAt := clock w, cUpdatedAt := clock w\<rparr>
                    in (Inr row, w\<lparr>certSeq := Suc (certSeq w), certs := certs w @ [row]\<rparr>))"

definition SaveCert :: "env \<Rightarrow> CertRow \<Rightarrow> (world, err + unit) state" where
  "SaveCert e c =
     db e (\<lambda>w. let row = c\<lparr>cUpdatedAt := clock w\<rparr> in
               if list_ex (\<lambda>r. cID r = cID c) (certs w)
               then (Inr (), w\<lparr>certs := map (\<lambda>r. if cID r = cID c then row else r) (certs w)\<rparr>)
               else (Inr (), w\<lparr>certs := certs w @ [row]\<rparr>))"

definition replaceCert :: "env \<Rightarrow> CertRow \<Rightarrow> CertRow \<Rightarrow> (world, err + unit) state" where
  "replaceCert tx certRecord existing =
     SaveCert tx (certRecord\<lparr>cID := cID existing, cCreatedAt := cCreatedAt existing\<rparr>)"

definition upsertCert :: "env \<Rightarrow> CertRow \<Rightarrow> (world, err + unit) state" where
  "upsertCert tx certRecord = do {
     r \<leftarrow> First tx certs (certOfDomain (cDomainID certRecord));
     case r of
       Inl err \<Rightarrow>
         if errorsIs err ErrRecordNotFound then do {
           c \<leftarrow> CreateCert tx certRecord;
           case c of
             Inr _ \<Rightarrow> State_Monad.return (Inr ())
           | Inl cerr \<Rightarrow>
               if errorsIs cerr ErrDuplicatedKey then do {
                 r2 \<leftarrow> First tx certs (certOfDomain (cDomainID certRecord));
                 case r2 of
                   Inl err2 \<Rightarrow> State_Monad.return (Inl err2)
                 | Inr existing \<Rightarrow> replaceCert tx certRecord existing
               } else State_Monad.return (Inl cerr)
         } else State_Monad.return (Inl err)
     | Inr existing \<Rightarrow> replaceCert tx certRecord existing
   }"

definition saveCertificateRecord :: "env \<Rightarrow> uint \<Rightarrow> CertRow \<Rightarrow> (world, err + unit) state" where
  "saveCertificateRecord e domainID certRecord = Transaction e (\<lambda>tx. do {
     r \<leftarrow> upsertCert tx certRecord;
     case r of
       Inl err \<Rightarrow> State_Monad.return (Inl err)
     | Inr _ \<Rightarrow> do {
         u \<leftarrow> UpdatesDomain tx (byID domainID) savedCols;
         State_Monad.return (map_sum (\<lambda>x. x) (\<lambda>_. ()) u)
       }
   })"

section \<open>Rolling back the generating status\<close>

definition cancelledCertJobMessage :: string where
  "cancelledCertJobMessage = ''certificate operation was cancelled''"

definition rollbackCols :: "bool \<Rightarrow> string \<Rightarrow> bool \<Rightarrow> DomainRow \<Rightarrow> DomainRow \<Rightarrow> DomainRow" where
  "rollbackCols hasCert errorMessage restoreVerified domain =
     (if hasCert then errorCols ''active'' errorMessage
      else if restoreVerified \<and> dCnameVerifiedAt domain \<noteq> None then errorCols ''verified'' []
      else errorCols ''error''
             (if errorMessage = [] then cancelledCertJobMessage else errorMessage))"

definition rollbackGeneratingDomain :: "env \<Rightarrow> uint \<Rightarrow> string \<Rightarrow> bool \<Rightarrow> (world, unit) state" where
  "rollbackGeneratingDomain e domainID errorMessage restoreVerified = do {
     r \<leftarrow> FirstDomain e (byID domainID);
     case r of
       Inl _ \<Rightarrow> State_Monad.return ()
     | Inr domain \<Rightarrow>
         if dStatus domain \<noteq> ''generating'' then State_Monad.return ()
         else do {
           hasCert \<leftarrow> domainHasCertificate e domainID;
           _ \<leftarrow> UpdatesDomain e (byID domainID)
                 (rollbackCols hasCert errorMessage restoreVerified domain);
           State_Monad.return ()
         }
   }"

definition rollbackCancelledCertJob :: "env \<Rightarrow> uint \<Rightarrow> token \<Rightarrow> bool \<Rightarrow> (world, unit) state" where
  "rollbackCancelledCertJob e domainID tok autoRenew = do {
     active \<leftarrow> isCertJobActive e domainID tok;
     if active then State_Monad.return ()
     else do {
       running \<leftarrow> certJobInflight e domainID;
       if running then State_Monad.return ()
       else rollbackGeneratingDomain e domainID
              (if autoRenew then cancelledCertJobMessage else []) True
     }
   }"

interpretation rollbackUpd: domain_update "rollbackCols hasCert errorMessage restoreVerified domain"
  for hasCert errorMessage restoreVerified domain
  by unfold_locales (auto simp: rollbackCols_def errorCols_def status_ok_def statuses_def)

end
