(* ===== verification/Samples.thy ===== *)
theory Samples
  imports Store_Inv Config_Props
begin

text \<open>
  The concrete inputs at which the properties are applied: a server with a valid production
  configuration, an environment without interference and faults whose resolver and CA answer,
  and small stores with one domain in each status. The CA, the cipher and the key functions
  are the simplest functions that satisfy the documented behaviour the properties assume.
\<close>

definition sampleResource :: Resource where
  "sampleResource =
     \<lparr>rDomain = ''example.com'', rCertURL = ''https://ca.test/c/2'', rCertStableURL = [],
      rPrivateKey = ''KEY2'', rCertificate = ''CERT2'', rIssuerCertificate = ''CHAIN2''\<rparr>"

text \<open>A resolver that knows the delegation record of the sample domain.\<close>

definition sampleLookup :: "nat \<Rightarrow> string \<Rightarrow> err + string" where
  "sampleLookup n host =
     (if host = ''_acme-challenge.example.com'' then Inr ''1.cname.yourservice.com.''
      else Inl (Errorf ''no such host''))"

definition idleEnv :: env where
  "idleEnv =
     \<lparr>cfg = prodCfg, osenv = prodOs, interfere = (\<lambda>_ w. w), dbfail = (\<lambda>_. None),
      timerFires = (\<lambda>_. False), lookupCNAME = sampleLookup,
      randBytes = (\<lambda>_. Some ''012345678901''),
      sealGCM = (\<lambda>key nonce p. p), openGCM = (\<lambda>key nonce c. Some c),
      notAfter = (\<lambda>_. Inr (100 * Day)), genKey = (\<lambda>_. Inr ''ECKEY''),
      marshalEC = (\<lambda>b. Inr b), parseEC = (\<lambda>b. Inr b), pemEncode = (\<lambda>t b. b),
      pemDecode = (\<lambda>b. Some (''EC PRIVATE KEY'', b)), idna = (\<lambda>d. Some d), ipv6 = (\<lambda>_. False),
      legoClient = (\<lambda>_ _. Inr ()),
      legoRegister = (\<lambda>_. Returns (Inr ''REG'')), regJSON = (\<lambda>r. Inr r), parseReg = (\<lambda>r. Inr r),
      legoObtain = (\<lambda>_ _. Returns (Inr sampleResource)),
      legoRenew = (\<lambda>_ _. Returns (Inr sampleResource)),
      legoSetDNS01 = (\<lambda>_. Inr ()), cfNewWithAPIToken = (\<lambda>_. Inr ()), cfNew = (\<lambda>_ _. Inr ()),
      cfZone = (\<lambda>_ _. Inr ''zone''), cfCreate = (\<lambda>_. Inr ''rec1''), cfDelete = (\<lambda>_. Inr ()),
      addDays = (\<lambda>t n. t + n * Day), formatRFC3339 = (\<lambda>_. ''2020-01-01T00:00:00Z''),
      certMeta = (\<lambda>_. None), sqlInt = (\<lambda>_. None), jsonTargets = (\<lambda>_. None),
      bcryptHash = (\<lambda>_ p. Inr (''h:'' @ p)), bcryptMatch = (\<lambda>p h. h = ''h:'' @ p),
      sessionSaves = (\<lambda>_. True), zipFails = (\<lambda>_. None)\<rparr>"

definition sampleUser :: UserRow where
  "sampleUser = \<lparr>uID = 7, uEmail = ''a@example.com'', uPassword = ''hash'',
                 uCreatedAt = 0, uUpdatedAt = 0\<rparr>"

definition sampleDomain :: "string \<Rightarrow> DomainRow" where
  "sampleDomain status =
     \<lparr>dID = 1, dUserID = 7, dDomain = ''example.com'', dStatus = status,
      dGeneratingSince = (if status = ''generating'' then Some (50 * Day) else None),
      dCNameTarget = ''1.cname.yourservice.com'', dAutoRenew = True,
      dCnameVerifiedAt = (if status = ''pending'' then None else Some (40 * Day)),
      dAutoRenewFailures = 0, dAutoRenewBackoffUntil = None, dErrorMessage = [],
      dCreatedAt = 30 * Day, dUpdatedAt = 40 * Day, dDeletedAt = None\<rparr>"

definition sampleCert :: CertRow where
  "sampleCert =
     \<lparr>cID = 3, cDomainID = 1, cUserID = 7, cDomain = ''example.com'', cCertPEM = ''CERT1'',
      cKeyPEM = ''S0VZMQ=='', cIssuer = ''CHAIN1'', cCertURL = ''https://ca.test/c/1'',
      cCertStableURL = [], cExpiresAt = 60 * Day, cCreatedAt = 41 * Day, cUpdatedAt = 41 * Day\<rparr>"

definition sampleWorld :: "string \<Rightarrow> CertRow list \<Rightarrow> (uint \<times> token) list \<Rightarrow> world" where
  "sampleWorld status cs js =
     \<lparr>clock = 50 * Day, tick = 0, users = [sampleUser], domains = [sampleDomain status],
      certs = cs, accounts = [], targets = [], deployJobs = [], userSeq = 7, domainSeq = 1,
      certSeq = 3, accountSeq = 0, targetSeq = 0, jobs = js,
      ctxs = (\<lambda>t. if t = 1 then Some \<lparr>deadline = 50 * Day + 15 * Minute, canceled = False\<rparr> else None),
      tokenSeq = 1, workers = Map.empty, slots = 0, jobWG = 0, spawned = [],
      encryptionKey = ''0123456789abcdef0123456789abcdef'', delegation = Map.empty, cfCalls = []\<rparr>"

lemma calm_idleEnv [simp]: "calm idleEnv"
  by (simp add: calm_def quiet_def faultless_def idleEnv_def)

lemma idleEnv_fields [simp]:
  "cfg idleEnv = prodCfg" "osenv idleEnv = prodOs" "interfere idleEnv = (\<lambda>_ w. w)"
  "dbfail idleEnv = (\<lambda>_. None)" "timerFires idleEnv = (\<lambda>_. False)"
  "lookupCNAME idleEnv = sampleLookup" "randBytes idleEnv n = Some ''012345678901''"
  "notAfter idleEnv b = Inr (100 * Day)" "genKey idleEnv n = Inr ''ECKEY''"
  "marshalEC idleEnv b = Inr b" "parseEC idleEnv b = Inr b" "pemEncode idleEnv ty b = b"
  "pemDecode idleEnv b = Some (''EC PRIVATE KEY'', b)" "legoClient idleEnv n u = Inr ()"
  "legoSetDNS01 idleEnv n = Inr ()" "cfNewWithAPIToken idleEnv k = Inr ()"
  "legoRegister idleEnv n = Returns (Inr ''REG'')" "regJSON idleEnv b = Inr b"
  "parseReg idleEnv b = Inr b" "legoObtain idleEnv n d = Returns (Inr sampleResource)"
  "legoRenew idleEnv n r = Returns (Inr sampleResource)"
  "cfZone idleEnv n z = Inr ''zone''" "cfCreate idleEnv n = Inr ''rec1''" "cfDelete idleEnv n = Inr ()"
  "addDays idleEnv t m = t + m * Day" "bcryptHash idleEnv n p = Inr (''h:'' @ p)"
  "bcryptMatch idleEnv p h = (h = ''h:'' @ p)" "sessionSaves idleEnv n" "zipFails idleEnv n = None" "idna idleEnv d = Some d"
  "\<not> ipv6 idleEnv d"
  by (simp_all add: idleEnv_def)

lemma sampleWorld_fields [simp]:
  "domains (sampleWorld st cs js) = [sampleDomain st]" "certs (sampleWorld st cs js) = cs"
  "jobs (sampleWorld st cs js) = js" "clock (sampleWorld st cs js) = 50 * Day"
  "tick (sampleWorld st cs js) = 0" "users (sampleWorld st cs js) = [sampleUser]"
  "workers (sampleWorld st cs js) = Map.empty" "slots (sampleWorld st cs js) = 0"
  "tokenSeq (sampleWorld st cs js) = 1" "certSeq (sampleWorld st cs js) = 3"
  "domainSeq (sampleWorld st cs js) = 1" "spawned (sampleWorld st cs js) = []"
  "accounts (sampleWorld st cs js) = []"
  by (simp_all add: sampleWorld_def)

lemma sampleDomain_fields [simp]:
  "dID (sampleDomain st) = 1" "dStatus (sampleDomain st) = st" "dUserID (sampleDomain st) = 7"
  "dDomain (sampleDomain st) = ''example.com''" "dDeletedAt (sampleDomain st) = None"
  "dCNameTarget (sampleDomain st) = ''1.cname.yourservice.com''"
  "dAutoRenew (sampleDomain st)" "dAutoRenewBackoffUntil (sampleDomain st) = None"
  by (simp_all add: sampleDomain_def)

lemma sampleCert_fields [simp]:
  "cID sampleCert = 3" "cDomainID sampleCert = 1" "cUserID sampleCert = 7"
  "cCreatedAt sampleCert = 41 * Day" "cExpiresAt sampleCert = 60 * Day"
  by (simp_all add: sampleCert_def)

lemma sampleWorld_row [simp]:
  "rowOf i (sampleWorld st cs js) = (if i = 1 then Some (sampleDomain st) else None)"
  by (simp add: rowOf_def live_def byID_def)

lemma sampleWorld_cert [simp]:
  "certOf i (sampleWorld st [] js) = None"
  "certOf i (sampleWorld st [sampleCert] js) = (if i = 1 then Some sampleCert else None)"
  "\<not> hasCertRow i (sampleWorld st [] js)"
  "hasCertRow i (sampleWorld st [sampleCert] js) \<longleftrightarrow> i = 1"
  by (auto simp: hasCertRow_def certOf_def certOfDomain_def sampleCert_def)

lemma sampleWorld_wf [simp]:
  "st \<in> statuses \<Longrightarrow> wf_store (sampleWorld st [] js)"
  "st \<in> statuses \<Longrightarrow> wf_store (sampleWorld st [sampleCert] js)"
  by (auto simp: wf_store_def wf_domains_def wf_certs_def status_ok_def sampleDomain_def sampleCert_def)

end
