(* ===== verification/Cert_Status_Props.thy ===== *)
theory Cert_Status_Props
  imports Cert_Status Samples
begin

text \<open>
  Lemmas on the status updates: they keep the store invariant under any stable interference
  and any faults, what each of them writes in a calm environment, the atomicity of
  saveCertificateRecord, and the fate of a superseded or cancelled job.
\<close>

section \<open>The store invariant is kept\<close>

lemma keeps_registry_reads:
  assumes "stable e I"
  shows "keeps I (isCertJobActive e d t)" "keeps I (certJobInflight e d)" "keeps I (CtxErr e c)"
  using assms by (simp_all add: isCertJobActive_def certJobInflight_def CtxErr_def keeps_read)

lemma keeps_wf_reads:
  assumes "stable e I"
  shows "keeps I (domainHasCertificate e i)" "keeps I (loadCertificate e i)"
  using keeps_queries [OF assms]
  by (auto simp: domainHasCertificate_def loadCertificate_def intro!: keeps_intros)

lemma keeps_wf_updates:
  assumes "stable e wf_store"
  shows "keeps wf_store (setDomainError e i ''error'' msg)"
    and "keeps wf_store (setDomainAutoRenewFailure e i msg)"
    and "keeps wf_store (markDomainCnameVerified e i)"
    and "keeps wf_store (scheduleAutoRenewBackoff e i)"
    and "keeps wf_store (rollbackGeneratingDomain e i msg rv)"
  using keeps_queries [OF assms] keeps_wf_reads [OF assms]
    errorUpd.updates_keeps_wf [OF assms] activeUpd.updates_keeps_wf [OF assms]
    verifiedUpd.updates_keeps_wf [OF assms] backoffUpd.updates_keeps_wf [OF assms]
    rollbackUpd.updates_keeps_wf [OF assms]
  by (auto simp: setDomainError_def setDomainAutoRenewFailure_def markDomainCnameVerified_def
      scheduleAutoRenewBackoff_def rollbackGeneratingDomain_def intro!: keeps_intros)

lemma keeps_wf_fail:
  assumes "stable e wf_store"
  shows "keeps wf_store (failCertJob e i msg ar)"
    and "keeps wf_store (failCertJobIfActive e i t msg ar)"
    and "keeps wf_store (rollbackCancelledCertJob e i t ar)"
  using keeps_wf_updates [OF assms] keeps_wf_reads [OF assms] keeps_registry_reads [OF assms]
  by (auto simp: failCertJob_def failCertJobIfActive_def rollbackCancelledCertJob_def
      intro!: keeps_intros)

lemma wf_certs_append:
  "wf_certs n cs \<Longrightarrow> cID c = Suc n \<Longrightarrow> \<not> list_ex (certOfDomain (cDomainID c)) cs \<Longrightarrow>
     wf_certs (Suc n) (cs @ [c])"
  by (fastforce simp: wf_certs_def list_ex_iff certOfDomain_def)

lemma wf_certs_replace:
  assumes "wf_certs n cs" and "r \<in> set cs" and "cID c = cID r" and "cDomainID c = cDomainID r"
  shows "wf_certs n (map (\<lambda>x. if cID x = cID r then c else x) cs)"
proof -
  let ?g = "\<lambda>x. if cID x = cID r then c else x"
  have same: "x = r" if "x \<in> set cs" "cID x = cID r" for x
    using assms(1,2) that distinct_key_unique by (metis wf_certs_def)
  have keys: "map cID (map ?g cs) = map cID cs" "map cDomainID (map ?g cs) = map cDomainID cs"
    using assms(3,4) same by (auto simp: map_eq_conv)
  show ?thesis
    using assms unfolding wf_certs_def keys by auto
qed

lemma upsertCert_wf:
  assumes "quiet tx" and "wf_store w" and "run_state (upsertCert tx c) w = (r, w')"
  shows "wf_store w' \<and> certSeq w \<le> certSeq w' \<and> domains w' = domains w
    \<and> domainSeq w' = domainSeq w"
proof -
  have found: "r \<in> set (certs w) \<and> cDomainID r = cDomainID c"
    if "find (certOfDomain (cDomainID c)) (certs w) = Some r" for r
    using find_SomeD [OF that] by (simp add: certOfDomain_def)
  have wfr: "wf_certs (certSeq w) (map (\<lambda>x. if cID x = cID r then row else x) (certs w))"
    if "find (certOfDomain (cDomainID c)) (certs w) = Some r"
      "cID row = cID r" "cDomainID row = cDomainID c" for r row
    using wf_certs_replace [of "certSeq w" "certs w" r row] found [OF that(1)] that assms(2)
    by (simp add: wf_store_def)
  have fresh: "\<not> list_ex (certOfDomain (cDomainID c)) (certs w)"
    if "find (certOfDomain (cDomainID c)) (certs w) = None"
    using that by (auto simp: find_None_filter filter_empty_conv list_ex_iff)
  show ?thesis
    using assms found fresh
    by (auto simp: upsertCert_def replaceCert_def CreateCert_def SaveCert_def store_defs run_simps
        settle_quiet wf_store_def Let_def wf_certs_append wfr list_ex_iff
        split: option.splits if_splits)
qed

lemma keeps_wf_save:
  assumes "stable e wf_store"
  shows "keeps wf_store (saveCertificateRecord e i c)"
  unfolding saveCertificateRecord_def
proof (rule keeps_Transaction [OF assms])
  fix tx w0 r w1
  assume tx: "stable tx wf_store" "quiet tx" and w0: "wf_store w0"
    and run: "run_state (do {
     r \<leftarrow> upsertCert tx c;
     case r of
       Inl err \<Rightarrow> State_Monad.return (Inl err)
     | Inr _ \<Rightarrow> do {
         u \<leftarrow> UpdatesDomain tx (byID i) savedCols;
         State_Monad.return (map_sum (\<lambda>x. x) (\<lambda>_. ()) u)
       }
   }) w0 = (r, w1)"
  obtain q v where up: "run_state (upsertCert tx c) w0 = (q, v)" by fastforce
  note v = upsertCert_wf [OF tx(2) w0 up]
  have "keeps wf_store (UpdatesDomain tx (byID i) savedCols)"
    using tx(1) by (rule savedUpd.updates_keeps_wf)
  then have k: "wf_store (snd (run_state (UpdatesDomain tx (byID i) savedCols) v))"
    using v by (simp add: keeps_def)
  have w1: "wf_store w1" and seq: "certSeq w0 \<le> certSeq w1 \<and> domainSeq w1 = domainSeq w0"
    using run up v k
    by (auto simp: savedUpd.run_updates settle_quiet [OF tx(2)] Let_def
        split: sum.splits option.splits)
  have "wf_store (restoreTables w0 w1)"
    using w0 seq wf_certs_mono by (auto simp: wf_store_def restoreTables_def)
  with w1 show "wf_store w1 \<and> wf_store (restoreTables w0 w1)" by simp
qed

section \<open>Calm runs\<close>

lemma run_FirstDomain:
  "run_state (FirstDomain e (byID i)) w =
     (case dbfail e (Suc (tick w)) of
        Some x \<Rightarrow> (Inl (dbErr x), settle e w)
      | None \<Rightarrow> (case rowOf i (settle e w) of None \<Rightarrow> Inl ErrRecordNotFound | Some d \<Rightarrow> Inr d,
                  settle e w))"
  by (simp add: store_defs run_simps rowOf_def split: option.split)

lemma run_reads_calm [run_simps]:
  assumes "calm e"
  shows "run_state (domainHasCertificate e i) w = (hasCertRow i w, later 1 w)"
    and "run_state (FirstDomain e (byID i)) w =
      (case rowOf i w of None \<Rightarrow> Inl ErrRecordNotFound | Some d \<Rightarrow> Inr d, later 1 w)"
    and "run_state (loadCertificate e i) w = (certOf i w, later 1 w)"
    and "run_state (Now e) w = (clock w, later 1 w)"
  using assms
  by (auto simp: domainHasCertificate_def loadCertificate_def store_defs run_simps hasCertRow_count
      rowOf_def certOf_def split: option.split)

lemma run_updates_calm [run_simps]:
  assumes "calm e"
  shows "run_state (setDomainError e i status msg) w = ((), written (errorCols status msg) i (later 1 w))"
    and "run_state (setDomainAutoRenewFailure e i msg) w =
      ((), written (errorCols ''active'' msg) i (later 1 w))"
    and "run_state (markDomainCnameVerified e i) w =
      (Inr (), written (verifiedCols (clock w)) i (later 2 w))"
  using assms
  by (simp_all add: setDomainError_def setDomainAutoRenewFailure_def markDomainCnameVerified_def
      run_simps numeral_2_eq_2)

definition backedOff :: "env \<Rightarrow> uint \<Rightarrow> world \<Rightarrow> world" where
  "backedOff e i w = (case rowOf i w of
       None \<Rightarrow> later 1 w
     | Some d \<Rightarrow>
         (let n = wrap64 (dAutoRenewFailures d + 1) in
          written (backoffCols n (clock w + AutoRenewBackoffDuration (Renewal (cfg e)) n)) i (later 3 w)))"

lemma run_backoff_calm [run_simps]:
  "calm e \<Longrightarrow> run_state (scheduleAutoRenewBackoff e i) w = ((), backedOff e i w)"
  by (simp add: scheduleAutoRenewBackoff_def run_simps backedOff_def Let_def numeral_3_eq_3
      split: option.split)

definition rolledBack :: "uint \<Rightarrow> string \<Rightarrow> bool \<Rightarrow> world \<Rightarrow> world" where
  "rolledBack i msg rv w = (case rowOf i w of
       None \<Rightarrow> later 1 w
     | Some d \<Rightarrow> if dStatus d \<noteq> ''generating'' then later 1 w
                 else written (rollbackCols (hasCertRow i w) msg rv d) i (later 3 w))"

lemma run_rollback_calm [run_simps]:
  "calm e \<Longrightarrow> run_state (rollbackGeneratingDomain e i msg rv) w = ((), rolledBack i msg rv w)"
  by (simp add: rollbackGeneratingDomain_def run_simps rolledBack_def numeral_3_eq_3
      split: option.split)

definition failed :: "env \<Rightarrow> uint \<Rightarrow> string \<Rightarrow> bool \<Rightarrow> world \<Rightarrow> world" where
  "failed e i msg ar w =
     (if \<not> ar then written (errorCols ''error'' msg) i (later 1 w)
      else backedOff e i
        (written (errorCols (if hasCertRow i w then ''active'' else ''error'') msg) i (later 2 w)))"

lemma run_fail_calm [run_simps]:
  "calm e \<Longrightarrow> run_state (failCertJob e i msg ar) w = ((), failed e i msg ar w)"
  by (simp add: failCertJob_def run_simps failed_def numeral_2_eq_2)

section \<open>What the updates do\<close>

lemma rollbackCols_fields [row_simps]:
  "dStatus (rollbackCols hc msg rv d x) =
     (if hc then ''active'' else if rv \<and> dCnameVerifiedAt d \<noteq> None then ''verified'' else ''error'')"
  "dErrorMessage (rollbackCols hc msg rv d x) =
     (if hc then msg else if rv \<and> dCnameVerifiedAt d \<noteq> None then []
      else if msg = [] then cancelledCertJobMessage else msg)"
  "dGeneratingSince (rollbackCols hc msg rv d x) = None"
  "dUserID (rollbackCols hc msg rv d x) = dUserID x"
  by (auto simp: rollbackCols_def errorCols_def)

text \<open>
  Rolling back a generating domain (no interference, no faults): the domain leaves
  the generating status, becoming active when it has a certificate, verified when that is asked
  for and its CNAME had been verified, and error otherwise; \<open>generating_since\<close> is cleared and
  no other domain and no certificate changes.
\<close>

theorem rollback_restores:
  assumes "calm e" and "rowOf i w = Some d" and "dStatus d = ''generating''"
    and "w' = snd (run_state (rollbackGeneratingDomain e i msg rv) w)"
  shows "\<exists>d'. rowOf i w' = Some d'
    \<and> dStatus d' = (if hasCertRow i w then ''active''
                   else if rv \<and> dCnameVerifiedAt d \<noteq> None then ''verified'' else ''error'')
    \<and> dErrorMessage d' = (if hasCertRow i w then msg
                   else if rv \<and> dCnameVerifiedAt d \<noteq> None then []
                   else if msg = [] then cancelledCertJobMessage else msg)
    \<and> dGeneratingSince d' = None \<and> dUserID d' = dUserID d
    \<and> (\<forall>j. j \<noteq> i \<longrightarrow> rowOf j w' = rowOf j w) \<and> certs w' = certs w"
proof -
  let ?f = "rollbackCols (hasCertRow i w) msg rv d"
  have w': "w' = written ?f i (later 3 w)"
    using assms by (simp add: run_simps rolledBack_def)
  have row: "rowOf j w' = (if i = j then Some (stamp (clock w) ?f d) else rowOf j w)" for j
    using assms(2) by (auto simp: w' rollbackUpd.rowOf_written)
  have "certs w' = certs w" by (simp add: w')
  moreover have "stamp (clock w) ?f d = (?f d)\<lparr>dUpdatedAt := clock w\<rparr>" by (simp add: stamp_def)
  ultimately show ?thesis
    by (simp add: row row_simps)
qed

theorem rollback_restores_witness:
  "\<exists>d'. rowOf 1 (snd (run_state (rollbackGeneratingDomain idleEnv 1 [] True)
           (sampleWorld ''generating'' [sampleCert] []))) = Some d' \<and> dStatus d' = ''active''"
  using rollback_restores [OF calm_idleEnv, of 1 "sampleWorld ''generating'' [sampleCert] []"
      "sampleDomain ''generating''", OF _ _ refl, of "[]" True]
  by auto

text \<open>
  A failed job (no interference, no faults) leaves its domain out of the generating
  status with the message recorded. A manual job, or one for a domain without a certificate,
  leaves it in error; an automatic renewal of a domain that still has one leaves it active.
  An automatic renewal also counts the failure and sets the time before which the scheduler
  skips the domain; a manual job leaves both as they were.
\<close>

lemma failCertJob_effect:
  assumes "calm e" and "rowOf i w = Some d"
    and "w' = snd (run_state (failCertJob e i msg ar) w)"
  shows "\<exists>d'. rowOf i w' = Some d'
    \<and> dStatus d' = (if ar \<and> hasCertRow i w then ''active'' else ''error'')
    \<and> dErrorMessage d' = msg \<and> dGeneratingSince d' = None
    \<and> dAutoRenewFailures d' =
        (if ar then wrap64 (dAutoRenewFailures d + 1) else dAutoRenewFailures d)
    \<and> dAutoRenewBackoffUntil d' =
        (if ar then Some (clock w + AutoRenewBackoffDuration (Renewal (cfg e))
                           (wrap64 (dAutoRenewFailures d + 1)))
         else dAutoRenewBackoffUntil d)
    \<and> (\<forall>j. j \<noteq> i \<longrightarrow> rowOf j w' = rowOf j w) \<and> certs w' = certs w"
proof -
  have w': "w' = failed e i msg ar w" using assms(1,3) by (simp add: run_simps)
  show ?thesis
    using assms(2)
    by (cases "hasCertRow i w"; cases ar)
      (simp_all add: w' failed_def backedOff_def errorUpd.rowOf_written activeUpd.rowOf_written
        backoffUpd.rowOf_written stamp_def Let_def errorCols_def backoffCols_def)
qed

section \<open>Superseded and cancelled jobs\<close>

text \<open>
  The rollback of a cancelled job never happens. It runs inside the job's worker,
  whose registry entry is only removed after runCertJob returned; as long as the other
  goroutines keep some job registered for the domain (only a worker removes its own entry), the
  in-flight test is true and the function returns without touching the store, whatever the
  schedule and the faults: the final state is the one the other goroutines produced.
\<close>

theorem rollbackCancelledCertJob_noop:
  assumes "\<And>n v. inflight v i \<Longrightarrow> inflight (interfere e n v) i" and "inflight w i"
  shows "snd (run_state (rollbackCancelledCertJob e i tok ar) w) \<in> {settle e w, settle e (settle e w)}"
proof -
  have "inflight (settle e v) i" if "inflight v i" for v
    using assms(1) [OF that] by (simp add: settle_def inflight_def)
  then have "inflight (settle e (settle e w)) i" using assms(2) by blast
  then show ?thesis by (simp add: rollbackCancelledCertJob_def run_simps)
qed

theorem rollbackCancelledCertJob_noop_witness:
  "domains (snd (run_state (rollbackCancelledCertJob idleEnv 1 9 True)
     (sampleWorld ''generating'' [] [(1, 1)]))) = [sampleDomain ''generating'']"
  using rollbackCancelledCertJob_noop [of 1 idleEnv "sampleWorld ''generating'' [] [(1, 1)]" 9 True]
  by (auto simp: inflight_def run_simps)

text \<open>
  A superseded or cancelled job cannot record a failure: if, at the moment it
  checks, its token is not the registered one or its context has an error, the store is left
  exactly as the other goroutines made it, under every schedule and every pattern of faults.
\<close>

theorem superseded_job_cannot_fail_domain:
  assumes "\<not> activeJob (settle e w) i tok"
  shows "run_state (failCertJobIfActive e i tok msg ar) w = ((), settle e w)"
  using assms by (simp add: failCertJobIfActive_def run_simps)

theorem superseded_job_cannot_fail_domain_witness:
  "run_state (failCertJobIfActive idleEnv 1 9 ''boom'' True) (sampleWorld ''generating'' [] [(1, 1)])
     = ((), settle idleEnv (sampleWorld ''generating'' [] [(1, 1)]))"
  using superseded_job_cannot_fail_domain
    [of idleEnv "sampleWorld ''generating'' [] [(1, 1)]" 1 9 "''boom''" True]
  by (simp add: activeJob_def run_simps)

section \<open>Saving a certificate\<close>

lemma restoreTables_fields [simp]:
  "domains (restoreTables w0 w) = domains w0" "certs (restoreTables w0 w) = certs w0"
  by (simp_all add: restoreTables_def)

lemma run_Transaction:
  "run_state (Transaction e body) w =
     (let w0 = settle e w;
          (r, w1) = run_state (body (e\<lparr>interfere := (\<lambda>_ w. w)\<rparr>)) w0;
          w2 = w1\<lparr>tick := Suc (tick w1)\<rparr>
      in case r of
           Inl err \<Rightarrow> (Inl err, restoreTables w0 w2)
         | Inr x \<Rightarrow> (case dbfail e (tick w2) of
                      Some y \<Rightarrow> (Inl (dbErr y), restoreTables w0 w2)
                    | None \<Rightarrow> (Inr x, w2)))"
  by (simp add: Transaction_def)

lemma Transaction_atomic:
  "run_state (Transaction e body) w = (Inl err, w') \<Longrightarrow>
     domains w' = domains (settle e w) \<and> certs w' = certs (settle e w)"
  by (auto simp: run_Transaction Let_def split: prod.splits sum.splits option.splits)

text \<open>The row a save stores: the new contents under the old row's id and creation time.\<close>

definition storedCert :: "world \<Rightarrow> CertRow \<Rightarrow> CertRow" where
  "storedCert w c =
     (case certOf (cDomainID c) w of
        None \<Rightarrow> c\<lparr>cID := Suc (certSeq w), cCreatedAt := clock w, cUpdatedAt := clock w\<rparr>
      | Some old \<Rightarrow> c\<lparr>cID := cID old, cCreatedAt := cCreatedAt old, cUpdatedAt := clock w\<rparr>)"

lemma find_replace:
  assumes "wf_certs n cs" and "find (certOfDomain k) cs = Some old"
    and "cID row = cID old" and "cDomainID row = k"
  shows "find (certOfDomain j) (map (\<lambda>x. if cID x = cID old then row else x) cs) =
    (if j = k then Some row else find (certOfDomain j) cs)"
proof -
  have old: "old \<in> set cs" "cDomainID old = k"
    using find_SomeD [OF assms(2)] by (auto simp: certOfDomain_def)
  let ?g = "\<lambda>x. if cID x = cID old then row else x"
  have same: "x = old" if "x \<in> set cs" "cID x = cID old" for x
    using assms(1) old(1) that distinct_key_unique by (metis wf_certs_def)
  show ?thesis
  proof (cases "j = k")
    case True
    have "distinct (map cDomainID (map ?g cs))"
      using wf_certs_replace [OF assms(1) old(1) assms(3)] assms(4) old(2)
      by (simp add: wf_certs_def)
    then have "find (certOfDomain k) (map ?g cs) = Some row"
      by (rule find_key_eq) (use old assms(4) in \<open>auto simp: certOfDomain_def image_iff\<close>)
    with True show ?thesis by simp
  next
    case False
    have "certOfDomain j (?g x) = certOfDomain j x" if "x \<in> set cs" for x
      using same [OF that] False assms(4) old(2) by (auto simp: certOfDomain_def)
    then have "find (certOfDomain j) (map ?g xs) = map_option ?g (find (certOfDomain j) xs)"
      if "set xs \<subseteq> set cs" for xs
      using that by (induction xs) auto
    moreover have "map_option ?g (find (certOfDomain j) cs) = find (certOfDomain j) cs"
      using False old(2) same find_SomeD [of "certOfDomain j" cs]
      by (cases "find (certOfDomain j) cs") (auto simp: certOfDomain_def)
    ultimately show ?thesis using False by simp
  qed
qed

text \<open>The upsert alone, in a transaction: its two statements, and what they write when both succeed.\<close>

lemma upsert_quiet:
  assumes "quiet tx" and "wf_store w" and "run_state (upsertCert tx c) w = (r, w')"
  shows "if dbfail tx (Suc (tick w)) = None \<and> dbfail tx (Suc (Suc (tick w))) = None
    then r = Inr ()
      \<and> (\<forall>j. certOf j w' = (if j = cDomainID c then Some (storedCert w c) else certOf j w))
      \<and> domains w' = domains w \<and> clock w' = clock w \<and> tick w' = Suc (Suc (tick w))
      \<and> encryptionKey w' = encryptionKey w \<and> accounts w' = accounts w
    else \<exists>err. r = Inl err"
proof (cases "find (certOfDomain (cDomainID c)) (certs w)")
  case None
  then have "\<not> list_ex (certOfDomain (cDomainID c)) (certs w)"
    by (auto simp: find_None_filter filter_empty_conv list_ex_iff)
  with None assms(1,3) show ?thesis
    by (auto simp: upsertCert_def CreateCert_def store_defs run_simps settle_quiet Let_def certOf_def
        storedCert_def find_append certOfDomain_def split: option.splits)
next
  case (Some old)
  then have "list_ex (\<lambda>r. cID r = cID old) (certs w)"
    using find_SomeD by (fastforce simp: list_ex_iff)
  with Some assms(1,3) find_replace [OF _ Some, of "certSeq w"] assms(2) show ?thesis
    by (auto simp: upsertCert_def replaceCert_def SaveCert_def store_defs run_simps settle_quiet Let_def
        certOf_def storedCert_def wf_store_def split: option.splits)
qed

lemma upsert_calm:
  assumes "calm tx" and "wf_store w"
  shows "\<exists>w'. run_state (upsertCert tx c) w = (Inr (), w')
    \<and> (\<forall>j. certOf j w' = (if j = cDomainID c then Some (storedCert w c) else certOf j w))
    \<and> domains w' = domains w \<and> clock w' = clock w \<and> tick w' = tick w + 2
    \<and> encryptionKey w' = encryptionKey w"
proof -
  obtain r w' where run: "run_state (upsertCert tx c) w = (r, w')" by fastforce
  show ?thesis
    using upsert_quiet [OF _ assms(2) run] assms(1) run by (simp add: calm_def dbfail_faultless)
qed

text \<open>
  A save that meets no fault stores the new certificate in place (a renewed row keeps its id and
  creation time), activates the domain and clears its failure count, its backoff and its error,
  and changes the certificate of no other domain.
\<close>

lemma save_activates:
  assumes "calm e" and "wf_store w" and "cDomainID c = i"
    and "run_state (saveCertificateRecord e i c) w = (r, w')"
  shows "r = Inr () \<and> certOf i w' = Some (storedCert w c)
    \<and> (\<forall>j. j \<noteq> i \<longrightarrow> certOf j w' = certOf j w)
    \<and> rowOf i w' = map_option (stamp (clock w) savedCols) (rowOf i w)
    \<and> (\<forall>j. j \<noteq> i \<longrightarrow> rowOf j w' = rowOf j w) \<and> encryptionKey w' = encryptionKey w"
proof -
  let ?tx = "e\<lparr>interfere := (\<lambda>_ w. w)\<rparr>"
  have tx: "calm ?tx" using assms(1) by (simp add: calm_def quiet_def faultless_def)
  have wf: "wf_store (later (Suc 0) w)" using assms(2) by (simp add: wf_store_def)
  obtain v where up: "run_state (upsertCert ?tx c) (later (Suc 0) w) = (Inr (), v)"
    and v: "\<And>j. certOf j v = (if j = cDomainID c then Some (storedCert (later (Suc 0) w) c) else certOf j w)"
      "domains v = domains w" "clock v = clock w" "encryptionKey v = encryptionKey w"
    using upsert_calm [OF tx wf, of c] by auto
  have "storedCert (later (Suc 0) w) c = storedCert w c"
    by (simp add: storedCert_def split: option.split)
  moreover have rows: "rowOf j v = rowOf j w" for j using v(2) by (rule rowOf_same)
  ultimately show ?thesis
    using assms(1,3,4) v tx
    by (auto simp: saveCertificateRecord_def run_Transaction run_simps up Let_def rows
        savedUpd.rowOf_written)
qed

text \<open>The single row of a key.\<close>

lemma filter_single: "distinct xs \<Longrightarrow> x \<in> set xs \<Longrightarrow> filter (\<lambda>y. y = x) xs = [x]"
  by (induction xs) (auto simp: filter_empty_conv)

lemma certOf_only:
  assumes "wf_store w" and "certOf i w = Some k"
  shows "filter (certOfDomain i) (certs w) = [k]"
proof -
  have dist: "distinct (map cDomainID (certs w))" using assms(1) by (simp add: wf_store_def wf_certs_def)
  have k: "k \<in> set (certs w)" "cDomainID k = i"
    using find_SomeD [of "certOfDomain i" "certs w" k] assms(2) by (simp_all add: certOf_def certOfDomain_def)
  have "filter (certOfDomain i) (certs w) = filter (\<lambda>x. x = k) (certs w)"
    using k dist by (intro filter_cong refl) (auto simp: certOfDomain_def dest: distinct_key_unique)
  then show ?thesis using k dist by (simp add: filter_single distinct_map)
qed

text \<open>
  Property C21. Saving a certificate is all or nothing, for every fault in every statement and whatever the
  other goroutines did before the transaction began. It succeeds exactly when none of its statements fails
  (the look-up, the insert or replacement, the update of the domain, the commit). Then the domain has
  exactly one certificate row, with the new contents under the id and creation time of the old row when
  there was one, the domain's row is active without error, failures and backoff, and no certificate and no
  row of another domain has changed. Otherwise both tables are as they were when the transaction began:
  a failed renewal never loses the old certificate.
\<close>

theorem save_all_or_nothing:
  assumes "v = settle e w" and "wf_store v" and "cDomainID c = i"
    and "run_state (saveCertificateRecord e i c) w = (r, w')"
  shows "if dbfail e (tick v + 1) = None \<and> dbfail e (tick v + 2) = None
        \<and> dbfail e (tick v + 3) = None \<and> dbfail e (tick v + 4) = None
    then r = Inr () \<and> filter (certOfDomain i) (certs w') = [storedCert v c]
      \<and> rowOf i w' = map_option (\<lambda>d. d\<lparr>dStatus := ''active'', dErrorMessage := [], dGeneratingSince := None,
            dAutoRenewFailures := 0, dAutoRenewBackoffUntil := None, dUpdatedAt := clock v\<rparr>) (rowOf i v)
      \<and> (\<forall>j. j \<noteq> i \<longrightarrow> certOf j w' = certOf j v \<and> rowOf j w' = rowOf j v)
    else (\<exists>err. r = Inl err) \<and> domains w' = domains v \<and> certs w' = certs v"
proof -
  let ?tx = "e\<lparr>interfere := (\<lambda>_ w. w)\<rparr>"
  have tx: "quiet ?tx" by (simp add: quiet_def)
  obtain q u where up: "run_state (upsertCert ?tx c) v = (q, u)" by fastforce
  note U = upsert_quiet [OF tx assms(2) up]
  note run = assms(4) [unfolded saveCertificateRecord_def run_Transaction, folded assms(1)]
  show ?thesis
  proof (cases "dbfail e (tick v + 1) = None \<and> dbfail e (tick v + 2) = None
      \<and> dbfail e (tick v + 3) = None \<and> dbfail e (tick v + 4) = None")
    case True
    then have u: "q = Inr ()" "tick u = Suc (Suc (tick v))" "clock u = clock v" "domains u = domains v"
        "\<And>j. certOf j u = (if j = i then Some (storedCert v c) else certOf j v)"
      using U assms(3) by simp_all
    have "wf_store u" using upsertCert_wf [OF tx assms(2) up] by simp
    then have only: "filter (certOfDomain i) (certs u) = [storedCert v c]" using u(5) by (simp add: certOf_only)
    obtain n u' where upd: "run_state (UpdatesDomain ?tx (byID i) savedCols) u = (Inr n, u')" "tick u' = Suc (tick u)"
      using True u(2) by (simp add: savedUpd.run_updates Let_def numeral_3_eq_3)
    note R = savedUpd.rowOf_update [OF upd(1)]
    have rows: "rowOf j (settle ?tx u) = rowOf j v" "certOf j (settle ?tx u) = certOf j u"
        "certs (settle ?tx u) = certs u" "clock (settle ?tx u) = clock u" for j
      using rowOf_same [OF u(4), of j] by (simp_all add: settle_quiet [OF tx])
    have "r = Inr () \<and> w' = u'\<lparr>tick := Suc (tick u')\<rparr>"
      using run True u(1,2) up upd by (simp add: Let_def eval_nat_numeral)
    then show ?thesis
      using True R rows only u(3,5) by (auto simp: stamp_eq savedCols_def certOf_same [OF R(2)] certOf_def rowOf_def)
  next
    case False
    have "\<exists>err. r = Inl err"
      using False U up run savedUpd.run_updates [of ?tx "byID i" u]
      by (auto simp: Let_def eval_nat_numeral split: if_splits option.splits prod.splits)
    then obtain err where r: "r = Inl err" by blast
    have "domains w' = domains v \<and> certs w' = certs v"
      unfolding assms(1) by (rule Transaction_atomic [OF assms(4) [unfolded saveCertificateRecord_def r]])
    with False r show ?thesis by auto
  qed
qed

text \<open>A renewal that is saved, and one whose third statement, the update of the domain, fails.\<close>

definition updateFailsEnv :: env where
  "updateFailsEnv = idleEnv\<lparr>dbfail := (\<lambda>n. if n = 4 then Some DriverError else None)\<rparr>"

theorem save_all_or_nothing_witness:
  "map cCertPEM (filter (certOfDomain 1)
       (certs (snd (run_state (saveCertificateRecord idleEnv 1 (sampleCert\<lparr>cCertPEM := ''NEW''\<rparr>))
          (sampleWorld ''generating'' [sampleCert] []))))) = [''NEW'']
   \<and> certs (snd (run_state (saveCertificateRecord updateFailsEnv 1 (sampleCert\<lparr>cCertPEM := ''NEW''\<rparr>))
       (sampleWorld ''generating'' [sampleCert] []))) = [sampleCert]"
proof -
  let ?c = "sampleCert\<lparr>cCertPEM := ''NEW''\<rparr>" and ?w = "sampleWorld ''generating'' [sampleCert] []"
  have quiet: "quiet idleEnv" "quiet updateFailsEnv" using calm_idleEnv by (simp_all add: updateFailsEnv_def quiet_def)
  have wf: "wf_store (?w\<lparr>tick := n\<rparr>)" for n by (simp add: statuses_def)
  have c: "cDomainID ?c = 1" "cCertPEM (storedCert v ?c) = ''NEW''" for v
    by (simp_all add: sampleCert_def storedCert_def split: option.split)
  obtain r w' where ok: "run_state (saveCertificateRecord idleEnv 1 ?c) ?w = (r, w')" by fastforce
  obtain r2 w2 where fails: "run_state (saveCertificateRecord updateFailsEnv 1 ?c) ?w = (r2, w2)" by fastforce
  have start: "settle idleEnv ?w = ?w\<lparr>tick := 1\<rparr>" "settle updateFailsEnv ?w = ?w\<lparr>tick := 1\<rparr>"
    by (simp_all add: settle_quiet [OF quiet(1)] settle_quiet [OF quiet(2)])
  have fault: "dbfail updateFailsEnv 4 = Some DriverError" by (simp add: updateFailsEnv_def)
  show ?thesis
    using save_all_or_nothing [OF refl _ c(1) ok] save_all_or_nothing [OF refl _ c(1) fails] ok fails wf c(2)
    by (simp add: start fault)
qed

end
