(* ===== verification/Cert_Slots.thy ===== *)
theory Cert_Slots
  imports Store
begin

text \<open>
  controllers/cert_job_semaphore.go: the global cap on simultaneous certificate jobs, a buffered
  channel whose length is the number of slots in use. The interface of such a pool is the
  locale \<open>slot_pool\<close>; the channel operations of the model interpret it.
\<close>

section \<open>The interface\<close>

locale slot_pool =
  fixes inUse :: "'s \<Rightarrow> nat"
    and acquire :: "nat \<Rightarrow> 's \<Rightarrow> bool \<times> 's"
    and release :: "'s \<Rightarrow> 's"
  assumes acquire_free: "inUse s < cap \<Longrightarrow> fst (acquire cap s) \<and> inUse (snd (acquire cap s)) = Suc (inUse s)"
    and acquire_full: "cap \<le> inUse s \<Longrightarrow> acquire cap s = (False, s)"
    and release_some: "0 < inUse s \<Longrightarrow> inUse (release s) = inUse s - 1"
    and release_none: "inUse s = 0 \<Longrightarrow> release s = s"
begin

lemma acquire_iff: "fst (acquire cap s) \<longleftrightarrow> inUse s < cap"
  using acquire_free [of s cap] acquire_full [of cap s] by (cases "inUse s < cap") auto

lemma acquire_bounded: "inUse s \<le> cap \<Longrightarrow> inUse (snd (acquire cap s)) \<le> cap"
  using acquire_free [of s cap] acquire_full [of cap s] by (cases "inUse s < cap") auto

lemma release_bounded: "inUse s \<le> cap \<Longrightarrow> inUse (release s) \<le> cap"
  using release_some [of s] release_none [of s] by (cases "inUse s = 0") auto

lemma acquire_count:
  "inUse (snd (acquire cap s)) = inUse s + (if fst (acquire cap s) then 1 else 0)"
  using acquire_free [of s cap] acquire_full [of cap s] by (cases "inUse s < cap") auto

lemma acquire_release:
  "fst (acquire cap s) \<Longrightarrow> inUse (release (snd (acquire cap s))) = inUse s"
  using acquire_count [of cap s] release_some [of "snd (acquire cap s)"] by simp

end

section \<open>The channel\<close>

definition certJobSlotsCap :: "env \<Rightarrow> nat" where
  "certJobSlotsCap e = nat (MaxConcurrentCertJobs (Renewal (cfg e)))"

definition sendSlot :: "nat \<Rightarrow> world \<Rightarrow> bool \<times> world" where
  "sendSlot n w = (if slots w < n then (True, w\<lparr>slots := Suc (slots w)\<rparr>) else (False, w))"

definition recvSlot :: "world \<Rightarrow> world" where
  "recvSlot w = (if 0 < slots w then w\<lparr>slots := slots w - 1\<rparr> else w)"

definition tryAcquireCertJobSlot :: "env \<Rightarrow> (world, bool) state" where
  "tryAcquireCertJobSlot e = act e (sendSlot (certJobSlotsCap e))"

definition releaseCertJobSlot :: "env \<Rightarrow> (world, unit) state" where
  "releaseCertJobSlot e = act e (\<lambda>w. ((), recvSlot w))"

interpretation pool: slot_pool slots sendSlot recvSlot
  by unfold_locales (auto simp: sendSlot_def recvSlot_def)

lemma certJobSlotsCap_pos: "0 < certJobSlotsCap e"
  by (simp add: certJobSlotsCap_def MaxConcurrentCertJobs_def)

lemma sendSlot_other [simp]:
  "domains (snd (sendSlot n w)) = domains w" "certs (snd (sendSlot n w)) = certs w"
  "jobs (snd (sendSlot n w)) = jobs w" "ctxs (snd (sendSlot n w)) = ctxs w"
  "clock (snd (sendSlot n w)) = clock w" "users (snd (sendSlot n w)) = users w"
  "workers (snd (sendSlot n w)) = workers w" "spawned (snd (sendSlot n w)) = spawned w"
  "tokenSeq (snd (sendSlot n w)) = tokenSeq w" "tick (snd (sendSlot n w)) = tick w"
  by (simp_all add: sendSlot_def)

lemma run_tryAcquire [run_simps]:
  "run_state (tryAcquireCertJobSlot e) w = sendSlot (certJobSlotsCap e) (settle e w)"
  by (simp add: tryAcquireCertJobSlot_def run_simps)

lemma run_release [run_simps]:
  "run_state (releaseCertJobSlot e) w = ((), recvSlot (settle e w))"
  by (simp add: releaseCertJobSlot_def run_simps)

end
