(* ===== verification/Cert_Registry_Props.thy ===== *)
theory Cert_Registry_Props
  imports Cert_Registry Cert_Slots Samples
begin

text \<open>
  Properties of the job registry, of the worker trackers and of the slot channel. They hold for
  every schedule: the registry is judged at the states in which the operation's own critical
  sections run, whatever the other goroutines did in between. The laws come from the
  interpretations \<open>registry\<close> and \<open>pool\<close>.
\<close>

section \<open>Registration\<close>

lemma sample_registry_ok [simp]:
  "registry_ok (sampleWorld st cs [])" "registry_ok (sampleWorld st cs [(1, 1)])"
  "registry_ok (later n (sampleWorld st cs [(1, 1)]))"
  by (auto simp: registry_ok_def sampleWorld_def split: if_splits)

lemma generatingTimeout_prod [simp]: "GeneratingTimeoutDuration (Renewal prodCfg) = 15 * Minute"
  by (simp add: prodCfg_def setDefaults_def GeneratingTimeoutDuration_def parseDurationDefault_def
      go_simps)

abbreviation generatingTimeout :: "env \<Rightarrow> duration" where
  "generatingTimeout e \<equiv> GeneratingTimeoutDuration (Renewal (cfg e))"

definition blocks :: "env \<Rightarrow> uint \<Rightarrow> duration \<Rightarrow> world \<Rightarrow> bool" where
  "blocks e d timeout w \<longleftrightarrow>
     timeout \<le> 0 \<and> workers (settle e w) d \<noteq> None \<and> workers (settle e (settle e w)) d \<noteq> Some 0"

lemma wait_blocks:
  "fst (run_state (waitDomainWorker e d timeout) w) = None \<longleftrightarrow> blocks e d timeout w"
  by (auto simp: waitDomainWorker_def blocks_def run_simps Let_def)

lemma wait_returns:
  "0 < timeout \<Longrightarrow> \<exists>b. fst (run_state (waitDomainWorker e d timeout) w) = Some b"
  using wait_blocks [of e d timeout w]
  by (cases "fst (run_state (waitDomainWorker e d timeout) w)") (auto simp: blocks_def)

text \<open>The state in which the last critical section of beginCertJob starts.\<close>

definition beforeRegister :: "env \<Rightarrow> uint \<Rightarrow> world \<Rightarrow> world" where
  "beforeRegister e d w =
     settle e (snd (run_state (waitDomainWorker e d (generatingTimeout e)) (cancelEntry d (settle e w))))"

lemma run_beginCertJob:
  "run_state (beginCertJob e d) w =
     (if fst (run_state (waitDomainWorker e d (generatingTimeout e)) (cancelEntry d (settle e w))) = None
      then (None, snd (run_state (waitDomainWorker e d (generatingTimeout e)) (cancelEntry d (settle e w))))
      else let v = beforeRegister e d w;
               w' = registerJob d (clock v + generatingTimeout e) v
           in (Some (tokenSeq w'), w'))"
  by (auto simp: beginCertJob_def beforeRegister_def run_simps Let_def split: prod.split option.split)

lemma token_one_small: "(1 :: token) < - 1"
  by (simp add: word_less_def unsigned_minus_1_eq_mask mask_eq_exp_minus_1)

lemma registerJob_token: "tokenSeq (registerJob d dl w) = tokenSeq w + 1"
  by (simp add: registerJob_def Let_def)

text \<open>
  Registration supersedes: when beginCertJob returns a token, that token is the one
  just drawn from the counter and the only one registered for the domain, its context is the
  only active one and expires after the generating timeout, and the entries and the contexts of
  all other domains are as they were when the registration ran. Every schedule.
\<close>

theorem beginCertJob_supersedes:
  assumes "run_state (beginCertJob e d) w = (Some t, w')" and "registry_ok (beforeRegister e d w)"
    and "tokenSeq (beforeRegister e d w) < - 1"
  shows "t = tokenSeq (beforeRegister e d w) + 1 \<and> entry w' d = Some t
    \<and> (activeJob w' d t \<longleftrightarrow> 0 < generatingTimeout e)
    \<and> (\<forall>t'. t' \<noteq> t \<longrightarrow> \<not> activeJob w' d t')
    \<and> (\<forall>d'. d' \<noteq> d \<longrightarrow> entry w' d' = entry (beforeRegister e d w) d')
    \<and> (\<forall>d' t'. d' \<noteq> d \<longrightarrow> activeJob w' d' t' = activeJob (beforeRegister e d w) d' t')
    \<and> registry_ok w'"
proof -
  let ?v = "beforeRegister e d w"
  have w': "w' = registerJob d (clock ?v + generatingTimeout e) ?v" and t: "t = tokenSeq ?v + 1"
    using assms(1) by (auto simp: run_beginCertJob Let_def registerJob_def split: if_splits)
  have reg: "entry w' = (entry ?v)(d \<mapsto> t)" by (simp add: w' t registry.reg_register)
  have ok: "registry_ok w'" unfolding w' using assms(2,3) by (rule registry_ok_registerJob)
  have "activeJob w' d t \<longleftrightarrow> 0 < generatingTimeout e"
    using reg t by (auto simp: activeJob_def ctxErr_def w' registerJob_def Let_def)
  moreover have "\<not> activeJob w' d t'" if "t' \<noteq> t" for t'
    using that reg by (auto simp: activeJob_def)
  moreover have "activeJob w' d' t' = activeJob ?v d' t'" if "d' \<noteq> d" for d' t'
  proof (cases "entry ?v d' = Some t'")
    case True
    then have "t' \<le> tokenSeq ?v" using assms(2) by (simp add: registry_ok_def)
    then have "t' \<noteq> tokenSeq ?v + 1" using token_less_plus1 [OF assms(3)] by (metis leD)
    then show ?thesis
      using registry.register_other_domain [OF that, of t' ?v] ok assms(2)
      by (simp add: activeJob_active w')
  qed (use that reg in \<open>simp add: activeJob_def\<close>)
  ultimately show ?thesis using reg t ok by simp
qed

lemma beforeRegister_idle:
  "workers w d = None \<Longrightarrow> beforeRegister idleEnv d w = later 3 (cancelEntry d w)"
  by (simp add: beforeRegister_def waitDomainWorker_def run_simps later_def cancelEntry_def
      cancelCtx_def split: option.split)

theorem beginCertJob_supersedes_witness:
  "\<exists>w'. run_state (beginCertJob idleEnv 1) (sampleWorld ''generating'' [] [(1, 1)]) = (Some 2, w')
     \<and> activeJob w' 1 2 \<and> \<not> activeJob w' 1 1"
proof -
  let ?w = "sampleWorld ''generating'' [] [(1, 1)]"
  have seq: "tokenSeq (beforeRegister idleEnv 1 ?w) = 1"
    by (simp add: beforeRegister_idle cancelEntry_def cancelCtx_def)
  have ok: "registry_ok (beforeRegister idleEnv 1 ?w)"
    by (auto simp: beforeRegister_idle registry_ok_def cancelEntry_def cancelCtx_def
        sampleWorld_def split: if_splits)
  have "fst (run_state (waitDomainWorker idleEnv 1 (generatingTimeout idleEnv))
      (cancelEntry 1 (settle idleEnv ?w))) \<noteq> None"
    unfolding wait_blocks by (simp add: blocks_def Minute_def)
  then obtain w' where run: "run_state (beginCertJob idleEnv 1) ?w = (Some 2, w')"
    using seq by (simp add: run_beginCertJob Let_def registerJob_token)
  show ?thesis
    using beginCertJob_supersedes [OF run ok] run seq by (auto simp: Minute_def token_one_small)
qed

text \<open>
  beginCertJob and the wait it makes return under every schedule when the generating
  timeout is positive; with a timeout that is not positive the wait blocks for ever exactly when
  the domain has a tracked worker that does not finish.
\<close>

theorem beginCertJob_returns_iff:
  "fst (run_state (beginCertJob e d) w) \<noteq> None \<longleftrightarrow>
     \<not> blocks e d (generatingTimeout e) (cancelEntry d (settle e w))"
  by (auto simp: run_beginCertJob Let_def wait_blocks)

section \<open>Release and cancellation\<close>

text \<open>
  The release of a superseded job leaves its successor registered: a token that is
  not the registered one removes nothing, the registered one removes its own entry only.
\<close>

theorem stale_release_keeps_successor:
  "entry (snd (run_state (releaseCertJob e d t) w)) =
     (if entry (settle e w) d = Some t then (entry (settle e w))(d := None) else entry (settle e w))"
  by (simp add: run_simps registry.reg_finish)

text \<open>
  Cancelling a job makes its token inactive at once and keeps its entry, so that the
  domain counts as having a job in flight until the worker itself releases it; jobs of other
  domains are not affected.
\<close>

theorem cancel_keeps_inflight:
  assumes "registry_ok (settle e w)" and "w' = snd (run_state (cancelCertJob e d) w)"
  shows "(\<forall>t. \<not> activeJob w' d t) \<and> (\<forall>d'. inflight w' d' = inflight (settle e w) d')
    \<and> (\<forall>d' t. d' \<noteq> d \<longrightarrow> activeJob w' d' t = activeJob (settle e w) d' t)"
proof -
  have w': "w' = cancelEntry d (settle e w)" using assms(2) by (simp add: run_simps)
  have ok: "registry_ok w'" unfolding w' using assms(1) by (rule registry_ok_cancelEntry)
  have "activeJob w' d' t = activeJob (settle e w) d' t" if "d' \<noteq> d" for d' t
  proof (cases "entry (settle e w) d' = Some t")
    case True
    then have "entry (settle e w) d \<noteq> Some t" using assms(1) that by (auto simp: registry_ok_def)
    with True ok assms(1) show ?thesis
      by (simp add: activeJob_active registry.active_def registry.alive_cancel_other w' registry.reg_cancel)
  qed (simp add: activeJob_def w')
  moreover have "\<not> activeJob w' d t" for t
    using ok registry.cancel_inactive by (simp add: activeJob_active w')
  ultimately show ?thesis by (simp add: inflight_def w')
qed

theorem cancel_keeps_inflight_witness:
  "inflight (snd (run_state (cancelCertJob idleEnv 1) (sampleWorld ''generating'' [] [(1, 1)]))) 1"
proof -
  have "registry_ok (settle idleEnv (sampleWorld ''generating'' [] [(1, 1)]))"
    using sample_registry_ok(3) [of "Suc 0"] by (simp add: run_simps)
  from cancel_keeps_inflight [OF this refl, of 1] show ?thesis
    by (simp add: run_simps inflight_def)
qed

text \<open>Once its contexts are cancelled no entry is active, as long as every entry has a context.\<close>

lemma cancel_all_inactive:
  assumes "\<And>d t. entry (settle e w) d = Some t \<Longrightarrow> t \<in> dom (ctxs (settle e w))"
    and "run_state (CancelAllCertJobs e) w = (r, w')"
  shows "jobs w' = jobs (settle e w)" and "\<not> activeJob w' d t"
proof -
  let ?v = "settle e w"
  have w': "w' = cancelEntries (jobs ?v) ?v"
    using assms(2) by (simp add: CancelAllCertJobs_def run_simps)
  then show "jobs w' = jobs ?v" by simp
  show "\<not> activeJob w' d t"
  proof
    assume act: "activeJob w' d t"
    then have reg: "entry ?v d = Some t" by (simp add: activeJob_def w')
    then have "(d, t) \<in> set (jobs ?v)" and "ctxs ?v t \<noteq> None"
      using assms(1) [OF reg] by (auto simp: map_of_SomeD)
    then obtain s where "ctxs w' t = Some s \<and> canceled s"
      using cancelEntries_canceled [of d t "jobs ?v" ?v] w' by blast
    with act show False by (simp add: activeJob_def ctxErr_def)
  qed
qed

text \<open>
  On shutdown every job is cancelled: after CancelAllCertJobs no token of any domain
  is active, and every entry is still there for its worker to remove.
\<close>

theorem CancelAllCertJobs_cancels:
  assumes "registry_ok (settle e w)" and "w' = snd (run_state (CancelAllCertJobs e) w)"
  shows "jobs w' = jobs (settle e w) \<and> (\<forall>d t. \<not> activeJob w' d t)"
proof -
  have ctx: "t \<in> dom (ctxs (settle e w))" if "entry (settle e w) d = Some t" for d t
    using assms(1) that by (auto simp: registry_ok_def)
  have run: "run_state (CancelAllCertJobs e) w = ((), w')" using assms(2) by (simp add: prod_eq_iff)
  from cancel_all_inactive [OF _ run] ctx show ?thesis by blast
qed

theorem CancelAllCertJobs_cancels_witness:
  "\<not> activeJob (snd (run_state (CancelAllCertJobs idleEnv) (sampleWorld ''generating'' [] [(1, 1)]))) 1 1"
proof -
  have "registry_ok (settle idleEnv (sampleWorld ''generating'' [] [(1, 1)]))"
    using sample_registry_ok(3) [of "Suc 0"] by (simp add: run_simps)
  from CancelAllCertJobs_cancels [OF this refl] show ?thesis by blast
qed

section \<open>Slots\<close>

text \<open>
  What the goroutines do with the slot channel, in the order in which the operations take effect: the
  results of the attempts, and the world after the last operation.
\<close>

datatype slotOp = AcquireSlot | ReleaseSlot

fun slotRun :: "env \<Rightarrow> slotOp list \<Rightarrow> world \<Rightarrow> bool list \<times> world" where
  "slotRun e [] w = ([], w)"
| "slotRun e (AcquireSlot # ops) w =
     (let (ok, v) = run_state (tryAcquireCertJobSlot e) w;
          (oks, w') = slotRun e ops v
      in (ok # oks, w'))"
| "slotRun e (ReleaseSlot # ops) w = slotRun e ops (snd (run_state (releaseCertJobSlot e) w))"

abbreviation slotsGranted :: "env \<Rightarrow> slotOp list \<Rightarrow> world \<Rightarrow> nat" where
  "slotsGranted e ops w \<equiv> count_list (fst (slotRun e ops w)) True"

abbreviation slotsReleased :: "slotOp list \<Rightarrow> nat" where
  "slotsReleased ops \<equiv> count_list ops ReleaseSlot"

lemma slotRun_append:
  "slotRun e (xs @ ys) w =
     (fst (slotRun e xs w) @ fst (slotRun e ys (snd (slotRun e xs w))), snd (slotRun e ys (snd (slotRun e xs w))))"
proof (induction xs arbitrary: w)
  case (Cons x xs)
  then show ?case by (cases x) (simp_all add: case_prod_unfold Let_def)
qed simp

text \<open>The books of the channel: slots in use are slots granted less slots given back.\<close>

lemma slots_book:
  assumes "\<And>v. slots (settle e v) = slots v"
    and "\<And>k. slotsReleased (take k ops) \<le> slots w + slotsGranted e (take k ops) w"
  shows "slots (snd (slotRun e ops w)) + slotsReleased ops = slots w + slotsGranted e ops w"
  using assms(2)
proof (induction ops rule: rev_induct)
  case (snoc x ops)
  have "slotsReleased (take k ops) \<le> slots w + slotsGranted e (take k ops) w" for k
    using snoc.prems [of "min k (length ops)"] by (simp add: min_def split: if_splits)
  then have IH: "slots (snd (slotRun e ops w)) + slotsReleased ops = slots w + slotsGranted e ops w"
    by (rule snoc.IH)
  have last: "slotsReleased (ops @ [x]) \<le> slots w + slotsGranted e (ops @ [x]) w" using snoc.prems [of "Suc (length ops)"] by simp
  show ?case
  proof (cases x)
    case AcquireSlot
    then show ?thesis
      using IH by (simp add: slotRun_append run_simps pool.acquire_count assms(1) case_prod_unfold Let_def)
  next
    case ReleaseSlot
    then have "0 < slots (snd (slotRun e ops w))" using IH last by (simp add: slotRun_append)
    then show ?thesis
      using IH ReleaseSlot by (simp add: slotRun_append run_simps pool.release_some assms(1))
  qed
qed simp

lemma slots_capped:
  assumes "\<And>v. slots (settle e v) = slots v" and "slots w \<le> certJobSlotsCap e"
  shows "slots (snd (slotRun e ops w)) \<le> certJobSlotsCap e"
  using assms(2)
proof (induction ops arbitrary: w)
  case (Cons x ops)
  then show ?case
    using pool.acquire_bounded [of "settle e w"] pool.release_bounded [of "settle e w"]
    by (cases x) (simp_all add: run_simps assms(1) case_prod_unfold Let_def)
qed simp

text \<open>
  Property C28. The slot channel over any sequence of attempts and releases of the goroutines (all of them: in
  between nobody touches the channel), from a state within the cap, in which a slot is given back only by
  a goroutine that was granted one: the slots in use are those at the start and those granted less those
  given back, so no slot is lost and none is counted twice; they never exceed the cap; and the next
  attempt succeeds exactly when fewer are in use than the cap, which is the configured number, or five
  when that is not positive.
\<close>

theorem slots_bounded:
  assumes "\<And>v. slots (settle e v) = slots v" and "slots w \<le> certJobSlotsCap e"
    and "\<And>k. slotsReleased (take k ops) \<le> slots w + slotsGranted e (take k ops) w"
  shows "slots (snd (slotRun e ops w)) + slotsReleased ops = slots w + slotsGranted e ops w
    \<and> slots (snd (slotRun e ops w)) \<le> certJobSlotsCap e
    \<and> fst (slotRun e (ops @ [AcquireSlot]) w) =
        fst (slotRun e ops w) @ [slots w + slotsGranted e ops w < certJobSlotsCap e + slotsReleased ops]
    \<and> int (certJobSlotsCap e) =
        (if MaxConcurrentJobs (Renewal (cfg e)) \<le> 0 then 5 else MaxConcurrentJobs (Renewal (cfg e)))"
proof -
  note books = slots_book [of e ops w, OF assms(1,3)]
  have "fst (slotRun e (ops @ [AcquireSlot]) w) =
      fst (slotRun e ops w) @ [slots (snd (slotRun e ops w)) < certJobSlotsCap e]"
    by (simp add: slotRun_append run_simps pool.acquire_iff assms(1) case_prod_unfold Let_def)
  with books slots_capped [OF assms(1,2)] show ?thesis
    by (auto simp: certJobSlotsCap_def MaxConcurrentCertJobs_def)
qed

text \<open>Six jobs ask for a slot of five; after one is given back, a seventh gets it.\<close>

theorem slots_bounded_witness:
  "fst (slotRun idleEnv (replicate 6 AcquireSlot @ [ReleaseSlot] @ [AcquireSlot]) (sampleWorld ''verified'' [] []))
     = replicate 5 True @ [False, True]"
proof -
  let ?w = "sampleWorld ''verified'' [] []" and ?ops = "replicate 6 AcquireSlot @ [ReleaseSlot]"
  have cap: "certJobSlotsCap idleEnv = 5"
    by (simp add: certJobSlotsCap_def MaxConcurrentCertJobs_def prodCfg_fields setDefaults_def)
  have run: "fst (slotRun idleEnv ?ops ?w) = replicate 5 True @ [False]"
    by (simp add: eval_nat_numeral run_simps sendSlot_def cap Let_def)
  have "slotsReleased (take k ?ops) \<le> slots ?w + slotsGranted idleEnv (take k ?ops) ?w" for k
  proof (cases "k \<le> 6")
    case True
    then have "set (take k ?ops) \<subseteq> {AcquireSlot}" by auto
    then have "slotsReleased (take k ?ops) = 0" by (intro count_notin) auto
    then show ?thesis by simp
  next
    case False
    then have all: "take k ?ops = ?ops" by simp
    show ?thesis unfolding all run by (simp add: eval_nat_numeral)
  qed
  from slots_bounded [OF _ _ this] run show ?thesis
    by (simp add: cap run_simps, simp add: eval_nat_numeral)
qed

end
