(* ===== verification/Cert_Lock.thy ===== *)
theory Cert_Lock
  imports Cert_Status_Props Cert_Registry_Props
begin

text \<open>
  lockDomainForCertJob of controllers/renewal_scheduler.go: the database lock that precedes every
  certificate job. The lock is the conditional update that moves the row to generating, from any
  other status or from a generating status older than the generating timeout. None as the result
  means the call blocks for ever in waitDomainWorker.
\<close>

section \<open>The code\<close>

definition lockCols :: "time \<Rightarrow> DomainRow \<Rightarrow> DomainRow" where
  "lockCols now d =
     d\<lparr>dStatus := ''generating'', dErrorMessage := [], dGeneratingSince := Some now\<rparr>"

interpretation lockUpd: domain_update "lockCols now" for now
  by unfold_locales (auto simp: lockCols_def status_ok_def statuses_def)

text \<open>A generating row whose lock is older than the cutoff; the where clause of the lock.\<close>

definition staleGenerating :: "time \<Rightarrow> DomainRow \<Rightarrow> bool" where
  "staleGenerating staleBefore d \<longleftrightarrow>
     dStatus d = ''generating''
     \<and> (case dGeneratingSince d of None \<Rightarrow> True | Some s \<Rightarrow> Before s staleBefore)"

definition lockable :: "time \<Rightarrow> DomainRow \<Rightarrow> bool" where
  "lockable staleBefore d \<longleftrightarrow> dStatus d \<notin> {''generating''} \<or> staleGenerating staleBefore d"

definition userByID :: "uint \<Rightarrow> UserRow \<Rightarrow> bool" where
  "userByID i u \<longleftrightarrow> uID u = i"

text \<open>From the conditional update on.\<close>

definition takeLock :: "env \<Rightarrow> DomainRow \<Rightarrow> time \<Rightarrow> time \<Rightarrow> (world, err + UserRow) state" where
  "takeLock e current now staleBefore = do {
     result \<leftarrow> UpdatesDomain e (\<lambda>d. byID (dID current) d \<and> lockable staleBefore d) (lockCols now);
     case result of
       Inl err \<Rightarrow> State_Monad.return (Inl err)
     | Inr rowsAffected \<Rightarrow>
         if rowsAffected = 0 then State_Monad.return (Inl errCertOperationInProgress)
         else do {
           r \<leftarrow> First e users (userByID (dUserID current));
           case r of
             Inl err \<Rightarrow> do {
               _ \<leftarrow> setDomainError e (dID current) ''error'' ''user not found'';
               State_Monad.return (Inl err)
             }
           | Inr user \<Rightarrow> State_Monad.return (Inr user)
         }
   }"

text \<open>The in-flight test and the takeover of a stale job: Some None when the lock may be tried.\<close>

definition clearStaleJob :: "env \<Rightarrow> uint \<Rightarrow> bool \<Rightarrow> (world, err option option) state" where
  "clearStaleJob e domainID isStaleGenerating = do {
     running \<leftarrow> certJobInflight e domainID;
     if \<not> running then State_Monad.return (Some None)
     else if \<not> isStaleGenerating then State_Monad.return (Some (Some errCertOperationInProgress))
     else do {
       _ \<leftarrow> cancelCertJob e domainID;
       waited \<leftarrow> waitDomainWorker e domainID (generatingTimeout e);
       State_Monad.return (case waited of
           None \<Rightarrow> None
         | Some finished \<Rightarrow> Some (if finished then None else Some errCertOperationInProgress))
     }
   }"

definition lockDomainForCertJob ::
  "env \<Rightarrow> DomainRow \<Rightarrow> bool \<Rightarrow> (world, (err + UserRow) option) state" where
  "lockDomainForCertJob e domain requireExistingCert = do {
     existing \<leftarrow> (if requireExistingCert
                   then do { r \<leftarrow> First e certs (certOfDomain (dID domain));
                             State_Monad.return (map_sum (\<lambda>x. x) (\<lambda>_. ()) r) }
                   else State_Monad.return (Inr ()));
     case existing of
       Inl err \<Rightarrow> State_Monad.return (Some (Inl err))
     | Inr _ \<Rightarrow> do {
         r \<leftarrow> FirstDomain e (byID (dID domain));
         case r of
           Inl err \<Rightarrow> State_Monad.return (Some (Inl err))
         | Inr current \<Rightarrow> do {
             now \<leftarrow> Now e;
             let staleBefore = now - generatingTimeout e;
             cleared \<leftarrow> clearStaleJob e (dID current) (staleGenerating staleBefore current);
             case cleared of
               None \<Rightarrow> State_Monad.return None
             | Some (Some err) \<Rightarrow> State_Monad.return (Some (Inl err))
             | Some None \<Rightarrow> do {
                 u \<leftarrow> takeLock e current now staleBefore;
                 State_Monad.return (Some u)
               }
           }
       }
   }"

section \<open>Invariants\<close>

lemma keeps_wait: "stable e I \<Longrightarrow> keeps I (waitDomainWorker e d timeout)"
  unfolding waitDomainWorker_def by (intro keeps_intros keeps_read)

lemma keeps_cancel:
  assumes "stable e I" and "\<And>w. I w \<Longrightarrow> I (cancelEntry d w)"
  shows "keeps I (cancelCertJob e d)"
  unfolding cancelCertJob_def using assms by (auto intro: keeps_act)

lemma keeps_clearStaleJob:
  assumes "stable e I" and "\<And>w. I w \<Longrightarrow> I (cancelEntry d w)"
  shows "keeps I (clearStaleJob e d b)"
  unfolding clearStaleJob_def
  by (intro keeps_intros keeps_registry_reads keeps_wait keeps_cancel assms)

lemma wf_store_cancel: "wf_store w \<Longrightarrow> wf_store (cancelEntry d w)"
  by (simp add: wf_store_def cancelEntry_def cancelCtx_def split: option.split)

lemma keeps_wf_lock:
  assumes "stable e wf_store"
  shows "keeps wf_store (lockDomainForCertJob e row req)"
  unfolding lockDomainForCertJob_def takeLock_def Let_def
  by (intro keeps_intros keeps_queries keeps_wf_updates lockUpd.updates_keeps_wf
      keeps_clearStaleJob wf_store_cancel assms)

section \<open>Mutual exclusion\<close>

text \<open>
  \<open>held i s limit\<close>: the row of domain \<open>i\<close> is generating since \<open>s\<close> and the clock has not passed
  \<open>limit\<close>.
\<close>

definition held :: "uint \<Rightarrow> time \<Rightarrow> time \<Rightarrow> world \<Rightarrow> bool" where
  "held i s limit w \<longleftrightarrow> clock w \<le> limit
     \<and> (\<forall>d \<in> set (domains w). live d \<and> dID d = i \<longrightarrow>
          dStatus d = ''generating'' \<and> dGeneratingSince d = Some s)"

lemma held_not_lockable:
  "held i s (s + t) w \<Longrightarrow> now \<le> clock w \<Longrightarrow> d \<in> set (domains w) \<Longrightarrow> live d \<Longrightarrow> dID d = i \<Longrightarrow>
     \<not> lockable (now - t) d"
  by (auto simp: held_def lockable_def staleGenerating_def Before_def)

lemma held_cancel: "held i s l w \<Longrightarrow> held i s l (cancelEntry d w)"
  by (simp add: held_def)

lemma takeLock_held:
  assumes "stable e (held i s (s + generatingTimeout e))"
    and "held i s (s + generatingTimeout e) w" and "dID current = i"
    and "now \<le> clock (settle e w)"
    and "run_state (takeLock e current now (now - generatingTimeout e)) w = (r, w')"
  shows "(\<exists>err. r = Inl err) \<and> w' = settle e w"
proof -
  let ?v = "settle e w" and ?p = "\<lambda>d. byID i d \<and> lockable (now - generatingTimeout e) d"
  have held: "held i s (s + generatingTimeout e) ?v" using assms(1,2) by (rule stable_settle)
  have none: "\<not> (live d \<and> ?p d)" if "d \<in> set (domains ?v)" for d
    using held_not_lockable [OF held assms(4) that] by (auto simp: byID_def)
  have "filter (\<lambda>d. live d \<and> ?p d) (domains ?v) = []"
    using none by (auto simp: filter_empty_conv)
  moreover have "map (\<lambda>d. if live d \<and> ?p d then f d else d) (domains ?v) = domains ?v" for f
    by (rule map_idI) (use none in auto)
  ultimately show ?thesis
    using assms(3,5) by (auto simp: takeLock_def lockUpd.run_updates Let_def split: option.splits)
qed

text \<open>A clock that only moves forward.\<close>

definition forward :: "env \<Rightarrow> bool" where
  "forward e \<longleftrightarrow> (\<forall>n w. clock w \<le> clock (interfere e n w))"

lemma forward_stable:
  "forward e \<Longrightarrow> stable e I \<Longrightarrow> stable e (\<lambda>w. I w \<and> now \<le> clock w)"
  by (auto simp: forward_def stable_def intro: order_trans)

lemma forward_settle: "forward e \<Longrightarrow> now \<le> clock w \<Longrightarrow> now \<le> clock (settle e w)"
  by (auto simp: forward_def settle_def intro: order_trans)

lemma calm_forward: "calm e \<Longrightarrow> forward e"
  by (simp add: calm_def quiet_def forward_def)

text \<open>
  Property C17. Mutual exclusion through the database: while the row of a domain stays generating
  since \<open>s\<close> and the generating timeout has not passed, no attempt to lock the domain succeeds, for
  a manual job or a renewal, whatever the schedule and the faults, and the attempt leaves the lock
  as it is.
\<close>

theorem lock_excludes:
  assumes "stable e (held i s (s + generatingTimeout e))" and "forward e"
    and "held i s (s + generatingTimeout e) w" and "dID row = i"
    and "run_state (lockDomainForCertJob e row req) w = (r, w')"
  shows "(\<forall>u. r \<noteq> Some (Inr u)) \<and> held i s (s + generatingTimeout e) w'"
proof -
  let ?I = "held i s (s + generatingTimeout e)"
  let ?check = "if req then do { r \<leftarrow> First e certs (certOfDomain (dID row));
                                 State_Monad.return (map_sum (\<lambda>x. x) (\<lambda>_. ()) r) }
                else State_Monad.return (Inr ())"
  obtain r1 w1 where c: "run_state ?check w = (r1, w1)" by fastforce
  have "keeps ?I ?check" by (intro keeps_intros keeps_queries assms(1))
  then have I1: "?I w1" using assms(3) c by (auto dest: keepsD)
  obtain r2 w2 where f: "run_state (FirstDomain e (byID (dID row))) w1 = (r2, w2)" by fastforce
  then have I2: "?I w2" using I1 keeps_queries(3) [OF assms(1)] by (metis keepsD snd_conv)
  define w3 where "w3 = settle e w2"
  define now where "now = clock w3"
  have I3: "?I w3" unfolding w3_def using assms(1) I2 by (rule stable_settle)
  show ?thesis
  proof (cases "\<exists>d. r1 = Inr () \<and> r2 = Inr d")
    case False
    have "run_state (lockDomainForCertJob e row req) w =
        (case r1 of Inl err \<Rightarrow> (Some (Inl err), w1) | Inr _ \<Rightarrow>
           (case r2 of Inl err \<Rightarrow> (Some (Inl err), w2) | Inr d \<Rightarrow> run_state (lockDomainForCertJob e row req) w))"
      by (simp add: lockDomainForCertJob_def c f split: sum.split)
    then show ?thesis
      using False assms(5) I1 I2 by (cases r1; cases r2) auto
  next
    case True
    then obtain d where d: "r1 = Inr ()" "r2 = Inr d" by blast
    have id: "dID d = i"
      using f d(2) assms(4)
      by (auto simp: run_FirstDomain split: option.splits dest: rowOf_id)
    let ?J = "\<lambda>v. ?I v \<and> now \<le> clock v"
    let ?clear = "clearStaleJob e i (staleGenerating (now - generatingTimeout e) d)"
    have stJ: "stable e ?J" using assms(2,1) by (rule forward_stable)
    obtain r4 w4 where cl: "run_state ?clear w3 = (r4, w4)" by fastforce
    have "keeps ?J ?clear" by (rule keeps_clearStaleJob [OF stJ]) (simp add: held_cancel)
    moreover have "?J w3" using I3 by (simp add: now_def)
    ultimately have J4: "?J w4" using cl by (metis (no_types, lifting) keepsD snd_conv)
    have now5: "now \<le> clock (settle e w4)" using assms(2) J4 by (simp add: forward_settle)
    obtain r5 w5 where t: "run_state (takeLock e d now (now - generatingTimeout e)) w4 = (r5, w5)"
      by fastforce
    have "(\<exists>err. r5 = Inl err) \<and> w5 = settle e w4"
      using takeLock_held [OF assms(1) _ id now5 t] J4 by blast
    moreover have "?I (settle e w4)" using assms(1) J4 by (simp add: stable_settle)
    moreover have "run_state (lockDomainForCertJob e row req) w =
        (case r4 of None \<Rightarrow> (None, w4) | Some (Some err) \<Rightarrow> (Some (Inl err), w4)
         | Some None \<Rightarrow> (Some r5, w5))"
      by (simp add: lockDomainForCertJob_def Let_def c f d id Now_def run_act cl t
          w3_def [symmetric] now_def [symmetric] split: option.split)
    ultimately show ?thesis
      using assms(5) J4 by (auto split: option.splits)
  qed
qed

lemma stable_calm_env: "calm e \<Longrightarrow> (\<And>w n. I (w\<lparr>tick := n\<rparr>) = I w) \<Longrightarrow> stable e I"
  by (simp add: calm_def quiet_def stable_def)

theorem lock_excludes_witness:
  "\<forall>u. fst (run_state (lockDomainForCertJob idleEnv (sampleDomain ''generating'') False)
     (sampleWorld ''generating'' [] [])) \<noteq> Some (Inr u)"
proof -
  let ?w = "sampleWorld ''generating'' [] []"
  obtain r w' where run: "run_state (lockDomainForCertJob idleEnv (sampleDomain ''generating'') False) ?w
      = (r, w')" by fastforce
  have "held 1 (50 * Day) (50 * Day + generatingTimeout idleEnv) ?w"
    by (simp add: held_def sampleDomain_def Minute_def)
  moreover have "stable idleEnv (held 1 (50 * Day) (50 * Day + generatingTimeout idleEnv))"
    by (rule stable_calm_env) (simp_all add: held_def)
  ultimately show ?thesis
    using lock_excludes [OF _ calm_forward [OF calm_idleEnv] _ _ run, of 1 "50 * Day"] run by simp
qed

section \<open>Calm runs\<close>

text \<open>
  What the lock does when nothing interferes and nothing fails: the result and the final state.
\<close>

definition lockResult :: "uint \<Rightarrow> DomainRow \<Rightarrow> time \<Rightarrow> world \<Rightarrow> err + UserRow \<Rightarrow> world \<Rightarrow> bool" where
  "lockResult i d stale w r w' \<longleftrightarrow>
     (if \<not> lockable stale d then r = Inl errCertOperationInProgress \<and> domains w' = domains w
      else (case find (userByID (dUserID d)) (users w) of
              Some u \<Rightarrow> r = Inr u
                \<and> (\<forall>j. rowOf j w' =
                      (if i = j then Some (stamp (clock w) (lockCols (clock w)) d) else rowOf j w))
            | None \<Rightarrow> r = Inl ErrRecordNotFound
                \<and> (\<exists>d'. rowOf i w' = Some d' \<and> dStatus d' = ''error''
                     \<and> dErrorMessage d' = ''user not found'' \<and> dGeneratingSince d' = None)))"

lemma takeLock_calm:
  assumes "calm e" and "wf_store w" and "rowOf i w = Some d" and "now = clock w"
    and "run_state (takeLock e d now stale) w = (r, w')"
  shows "lockResult i d stale w r w' \<and> jobs w' = jobs w \<and> ctxs w' = ctxs w"
proof -
  let ?f = "lockCols now"
  have id: "dID d = i" using assms(3) by (auto dest: rowOf_id)
  have upd: "run_state (UpdatesDomain e (\<lambda>x. byID (dID d) x \<and> lockable stale x) ?f) w =
      (if lockable stale d then (Inr 1, written ?f i (later 1 w)) else (Inr 0, later 1 w))"
    using lockUpd.run_guarded_calm [OF assms(1-3)] id by simp
  let ?u = "find (userByID (dUserID d)) (users w)"
  show ?thesis
  proof (cases "lockable stale d")
    case False
    then show ?thesis using assms(5) upd by (auto simp: takeLock_def lockResult_def)
  next
    case True
    then show ?thesis
      using assms upd id
      by (cases ?u)
        (auto simp: takeLock_def lockResult_def First_def run_simps lockUpd.rowOf_written errorUpd.rowOf_written
          stamp_def errorCols_def lockCols_def)
  qed
qed

lemma run_clearStaleJob_calm:
  assumes "calm e"
  shows "run_state (clearStaleJob e i b) w =
    (if \<not> inflight w i then (Some None, later 1 w)
     else if \<not> b then (Some (Some errCertOperationInProgress), later 1 w)
     else let v = cancelEntry i (later 2 w); (x, v') = run_state (waitDomainWorker e i (generatingTimeout e)) v
          in (map_option (\<lambda>f. if f then None else Some errCertOperationInProgress) x, v'))"
  using assms
  by (auto simp: clearStaleJob_def run_simps inflight_def Let_def numeral_2_eq_2
      split: option.split prod.split)

lemma lockResult_tables:
  "domains v = domains w \<Longrightarrow> users v = users w \<Longrightarrow> clock v = clock w \<Longrightarrow>
     lockResult i d stale v r w' = lockResult i d stale w r w'"
  using rowOf_same [of v w] by (simp add: lockResult_def split: option.split)

lemma inflight_later [simp]: "inflight (later n w) d = inflight w d"
  by (simp add: inflight_def)

lemma lock_calm:
  assumes "calm e" and "wf_store w" and "rowOf i w = Some d" and "dID row = i"
    and "run_state (lockDomainForCertJob e row req) w = (r, w')"
    and "stale = clock w - generatingTimeout e"
  shows "(if req \<and> \<not> hasCertRow i w then r = Some (Inl ErrRecordNotFound) \<and> domains w' = domains w
      else if inflight w i \<and> \<not> staleGenerating stale d
      then r = Some (Inl errCertOperationInProgress) \<and> domains w' = domains w
      else if inflight w i then True
      else \<exists>res. r = Some res \<and> lockResult i d stale w res w')"
proof -
  have id: "dID d = i" using assms(3) by (auto dest: rowOf_id)
  have wf: "wf_store (later n w)" for n using assms(2) by (simp add: wf_store_def)
  let ?n = "if req then 4 else 3 :: nat"
  obtain u v where t: "run_state (takeLock e d (clock w) stale) (later ?n w) = (u, v)" by fastforce
  have cert: "hasCertRow i w \<longleftrightarrow> (\<exists>c. find (certOfDomain i) (certs w) = Some c)"
    by (auto simp: hasCertRow_def certOf_def)
  have "lockResult i d stale (later ?n w) u v"
    using takeLock_calm [OF assms(1) wf _ _ t, of i] assms(3) by simp
  then have L: "lockResult i d stale w u v" by (simp add: lockResult_tables [of "later ?n w" w])
  show ?thesis
    using assms(1,3-6) id t L
    by (cases req)
      (auto simp: lockDomainForCertJob_def First_def run_simps run_clearStaleJob_calm Let_def cert
        eval_nat_numeral split: option.splits)
qed


text \<open>
  Property C18. The outcome of a lock that meets no interference and no fault, for a domain
  without a job in flight: a renewal without a certificate is refused, a domain that is already
  generating and not stale is refused, both without a write; otherwise the row becomes generating
  from now on and the owner is returned, no other row changes, and if the owner's row is missing
  the domain ends in error.
\<close>

theorem lock_outcome:
  assumes "calm e" and "wf_store w" and "rowOf i w = Some d" and "dID row = i" and "\<not> inflight w i"
    and "run_state (lockDomainForCertJob e row req) w = (r, w')"
  shows "(if req \<and> \<not> hasCertRow i w then r = Some (Inl ErrRecordNotFound) \<and> domains w' = domains w
      else if dStatus d = ''generating''
           \<and> (\<exists>s. dGeneratingSince d = Some s \<and> clock w \<le> s + generatingTimeout e)
      then r = Some (Inl errCertOperationInProgress) \<and> domains w' = domains w
      else (case find (\<lambda>u. uID u = dUserID d) (users w) of
              Some u \<Rightarrow> r = Some (Inr u)
                \<and> (\<exists>d'. rowOf i w' = Some d' \<and> dStatus d' = ''generating''
                     \<and> dGeneratingSince d' = Some (clock w) \<and> dErrorMessage d' = [])
                \<and> (\<forall>j. j \<noteq> i \<longrightarrow> rowOf j w' = rowOf j w)
            | None \<Rightarrow> r = Some (Inl ErrRecordNotFound)
                \<and> (\<exists>d'. rowOf i w' = Some d' \<and> dStatus d' = ''error'')))"
proof -
  have "find (userByID (dUserID d)) (users w) = find (\<lambda>u. uID u = dUserID d) (users w)"
    by (simp add: userByID_def [abs_def])
  then show ?thesis
    using lock_calm [OF assms(1-4,6) refl] assms(5)
    by (auto simp: lockResult_def lockable_def staleGenerating_def Before_def stamp_def lockCols_def
        split: option.splits if_splits)
qed

theorem lock_outcome_witness:
  "\<exists>w'. run_state (lockDomainForCertJob idleEnv (sampleDomain ''verified'') False)
       (sampleWorld ''verified'' [] []) = (Some (Inr sampleUser), w')
     \<and> (\<exists>d'. rowOf 1 w' = Some d' \<and> dStatus d' = ''generating'' \<and> dGeneratingSince d' = Some (50 * Day))"
proof -
  let ?w = "sampleWorld ''verified'' [] []" and ?d = "sampleDomain ''verified''"
  obtain r w' where run: "run_state (lockDomainForCertJob idleEnv ?d False) ?w = (r, w')" by fastforce
  have "wf_store ?w" by (simp add: statuses_def)
  then show ?thesis
    using lock_outcome [OF calm_idleEnv _ _ _ _ run, of 1 ?d] run
    by (auto simp: inflight_def sampleUser_def)
qed

lemma cancelEntry_later: "cancelEntry i (later n w) = later n (cancelEntry i w)"
  by (simp add: cancelEntry_def cancelCtx_def later_def split: option.split)

lemma cancelled_inactive:
  "registry_ok w \<Longrightarrow> jobs v = jobs w \<Longrightarrow> ctxs v = ctxs (cancelEntry i w) \<Longrightarrow> \<not> activeJob v i t"
proof
  assume reg: "registry_ok w" and v: "jobs v = jobs w" "ctxs v = ctxs (cancelEntry i w)"
    and act: "activeJob v i t"
  then have t: "entry w i = Some t" by (simp add: activeJob_def)
  then obtain s where "ctxs w t = Some s" using reg unfolding registry_ok_def by blast
  with t v act show False by (simp add: activeJob_def ctxErr_def cancelEntry_def cancelCtx_def)
qed

text \<open>
  Taking over a stale lock: a job in flight for a domain that has been generating
  longer than the timeout, and whose worker is gone, is cancelled before the lock is taken, so
  that no token of the old job is active afterwards; a worker that is still running when the
  wait times out refuses the takeover.
\<close>

theorem lock_takeover:
  assumes "calm e" and "wf_store w" and "registry_ok w" and "rowOf i w = Some d" and "dID row = i"
    and "run_state (lockDomainForCertJob e row False) w = (r, w')"
    and "stale = clock w - generatingTimeout e" and "inflight w i" and "staleGenerating stale d"
    and "0 < generatingTimeout e" and "\<forall>n. \<not> timerFires e n"
  shows "if workers w i \<in> {None, Some 0}
    then (\<exists>res. r = Some res \<and> lockResult i d stale w res w') \<and> (\<forall>t. \<not> activeJob w' i t)
    else r = Some (Inl errCertOperationInProgress) \<and> domains w' = domains w"
proof -
  have id: "dID d = i" using assms(4) by (auto dest: rowOf_id)
  let ?n = "if workers w i = None then 1 else 2 :: nat"
  let ?v = "later ?n (cancelEntry i (later 4 w))"
  have wf: "wf_store ?v" using assms(2) by (simp add: wf_store_def cancelEntry_def cancelCtx_def split: option.split)
  have row: "rowOf i ?v = Some d" using assms(4) by (simp add: rowOf_def)
  obtain u v where t: "run_state (takeLock e d (clock w) stale) ?v = (u, v)" by fastforce
  have T: "lockResult i d stale ?v u v \<and> jobs v = jobs ?v \<and> ctxs v = ctxs ?v"
    using takeLock_calm [OF assms(1) wf row _ t] by simp
  then have L: "lockResult i d stale w u v" using lockResult_tables [of ?v w] by simp
  have inact: "\<not> activeJob v i t" for t
    using cancelled_inactive [OF assms(3)] T by (simp add: cancelEntry_later)
  have "run_state (lockDomainForCertJob e row False) w =
      (if workers w i \<in> {None, Some 0} then (Some u, v)
       else (Some (Inl errCertOperationInProgress), ?v))"
    using assms(1,4,5,7-11) id t
    by (auto simp: lockDomainForCertJob_def run_simps run_clearStaleJob_calm Let_def
        waitDomainWorker_def eval_nat_numeral split: option.splits)
  then show ?thesis using assms(6) L inact by (auto simp: cancelEntry_later)
qed

text \<open>The sample server thirty minutes later, when the lock has expired.\<close>

definition lateWorld :: world where
  "lateWorld = (sampleWorld ''generating'' [] [(1, 1)])\<lparr>clock := 50 * Day + 30 * Minute\<rparr>"

lemma registry_ok_clock [simp]: "registry_ok (w\<lparr>clock := c\<rparr>) = registry_ok w"
  by (simp add: registry_ok_def)

theorem lock_takeover_witness:
  "\<exists>w'. run_state (lockDomainForCertJob idleEnv (sampleDomain ''generating'') False) lateWorld
       = (Some (Inr sampleUser), w') \<and> (\<forall>t. \<not> activeJob w' 1 t)"
proof -
  let ?d = "sampleDomain ''generating''"
  obtain r w' where run: "run_state (lockDomainForCertJob idleEnv ?d False) lateWorld = (r, w')"
    by fastforce
  have wf: "wf_store lateWorld" using sampleWorld_wf(1) [of "''generating''" "[(1, 1)]"]
    by (simp add: lateWorld_def wf_store_def statuses_def)
  have reg: "registry_ok lateWorld" using sample_registry_ok(2) by (simp add: lateWorld_def)
  have row: "rowOf 1 lateWorld = Some ?d" using sampleWorld_row [of 1 "''generating''" "[]" "[(1, 1)]"]
    by (simp add: lateWorld_def rowOf_def)
  have stale: "staleGenerating (clock lateWorld - generatingTimeout idleEnv) ?d"
    by (simp add: staleGenerating_def lateWorld_def sampleDomain_def Before_def Minute_def)
  have idle: "inflight lateWorld 1" "0 < generatingTimeout idleEnv" "\<forall>n. \<not> timerFires idleEnv n"
    "dID ?d = 1" "workers lateWorld 1 = None" "find (userByID 7) (users lateWorld) = Some sampleUser"
    by (simp_all add: inflight_def lateWorld_def Minute_def userByID_def sampleUser_def)
  have "lockable (clock lateWorld - generatingTimeout idleEnv) ?d"
    unfolding lockable_def using stale by blast
  then show ?thesis
    using lock_takeover [OF calm_idleEnv wf reg row idle(4) run refl idle(1) stale idle(2,3)] run idle(5,6)
    by (simp add: lockResult_def)
qed

end
