(* ===== verification/Crypto.thy ===== *)
theory Crypto
  imports Samples
begin

text \<open>
  services/crypto.go: private keys at rest. AES-GCM and the random source are parameters
  (\<open>sealGCM\<close>, \<open>openGCM\<close>, \<open>randBytes\<close>); the package variable encryptionKey is a field of the state,
  set once at start. The text of errors of the standard library is not modelled beyond their
  first words.
\<close>

definition gcmNonceSize :: nat where
  "gcmNonceSize = 12"

definition InitCrypto :: "env \<Rightarrow> (world, err + unit) state" where
  "InitCrypto e = State (\<lambda>w.
     if EncryptionKey (Security (cfg e)) = [] then (Inr (), w\<lparr>encryptionKey := []\<rparr>)
     else case DecodeEncryptionKey (osenv e) (EncryptionKey (Security (cfg e))) of
            None \<Rightarrow> (Inl (Errorf ''illegal base64 data''), w)
          | Some key \<Rightarrow>
              if length key \<noteq> 32 then (Inl (Errorf ''encryption key must be 32 bytes''), w)
              else (Inr (), w\<lparr>encryptionKey := key\<rparr>))"

text \<open>aes.NewCipher accepts the three AES key sizes.\<close>

definition NewCipher :: "bytes \<Rightarrow> err + unit" where
  "NewCipher key =
     (if length key \<in> {16, 24, 32} then Inr () else Inl (Errorf ''crypto/aes: invalid key size''))"

definition EncryptWith :: "env \<Rightarrow> bytes \<Rightarrow> bytes \<Rightarrow> bytes option \<Rightarrow> err + bytes" where
  "EncryptWith e key plaintext rnd =
     (if key = [] then Inr plaintext
      else case NewCipher key of
        Inl err \<Rightarrow> Inl err
      | Inr _ \<Rightarrow>
          (case rnd of
             None \<Rightarrow> Inl (Errorf ''EOF'')
           | Some nonce \<Rightarrow>
               let ciphertext = nonce @ sealGCM e key nonce plaintext
               in Inr (encodeB64 ciphertext)))"

definition Encrypt :: "env \<Rightarrow> bytes \<Rightarrow> (world, err + bytes) state" where
  "Encrypt e plaintext =
     act e (\<lambda>w. (EncryptWith e (encryptionKey w) plaintext (randBytes e (tick w)), w))"

definition DecryptWith :: "env \<Rightarrow> bytes \<Rightarrow> bytes \<Rightarrow> err + bytes" where
  "DecryptWith e key data =
     (if key = [] then Inr data
      else case decodeB64 data of
        None \<Rightarrow> Inl (Errorf ''illegal base64 data'')
      | Some raw \<Rightarrow>
          (case NewCipher key of
             Inl err \<Rightarrow> Inl err
           | Inr _ \<Rightarrow>
               if length raw < gcmNonceSize then Inl (Errorf ''ciphertext too short'')
               else (let nonce = take gcmNonceSize raw; ciphertext = drop gcmNonceSize raw in
                     case openGCM e key nonce ciphertext of
                       None \<Rightarrow> Inl (Errorf ''cipher: message authentication failed'')
                     | Some p \<Rightarrow> Inr p)))"

definition Decrypt :: "env \<Rightarrow> bytes \<Rightarrow> (world, err + bytes) state" where
  "Decrypt e data = act e (\<lambda>w. (DecryptWith e (encryptionKey w) data, w))"

lemma run_crypto [run_simps]:
  "run_state (Encrypt e p) w =
     (EncryptWith e (encryptionKey (settle e w)) p (randBytes e (Suc (tick w))), settle e w)"
  "run_state (Decrypt e c) w = (DecryptWith e (encryptionKey (settle e w)) c, settle e w)"
  by (simp_all add: Encrypt_def Decrypt_def run_simps)

lemma keeps_crypto [keeps_intros]:
  "stable e I \<Longrightarrow> keeps I (Encrypt e p)" "stable e I \<Longrightarrow> keeps I (Decrypt e p)"
  by (simp_all add: Encrypt_def Decrypt_def keeps_read)

section \<open>Properties\<close>

text \<open>The documented behaviour of an AEAD and of io.ReadFull on the random reader.\<close>

definition aead_laws :: "env \<Rightarrow> bool" where
  "aead_laws e \<longleftrightarrow>
     (\<forall>key nonce p. openGCM e key nonce (sealGCM e key nonce p) = Some p)
     \<and> (\<forall>n b. randBytes e n = Some b \<longrightarrow> length b = gcmNonceSize)"

lemma decrypt_sealed:
  "aead_laws e \<Longrightarrow> EncryptWith e key p (randBytes e n) = Inr c \<Longrightarrow> DecryptWith e key c = Inr p"
  by (auto simp: EncryptWith_def DecryptWith_def Let_def aead_laws_def b64.roundtrip
      split: if_splits sum.splits option.splits)

text \<open>
  Property C37. What Encrypt stores, Decrypt reads back: for every plaintext, also when
  encryption is switched off, as long as the key is the same.
\<close>

theorem decrypt_encrypt:
  assumes "aead_laws e" and "run_state (Encrypt e p) w = (Inr c, w')"
    and "encryptionKey (settle e v) = encryptionKey w'"
  shows "run_state (Decrypt e c) v = (Inr p, settle e v)"
  using assms by (auto simp: run_simps dest: decrypt_sealed)

lemma aead_idle: "aead_laws idleEnv"
  by (simp add: aead_laws_def idleEnv_def gcmNonceSize_def)

theorem decrypt_encrypt_witness:
  "\<exists>c w'. run_state (Encrypt idleEnv ''KEY'') (sampleWorld ''verified'' [] []) = (Inr c, w')
     \<and> c \<noteq> ''KEY'' \<and> run_state (Decrypt idleEnv c) w' = (Inr ''KEY'', settle idleEnv w')"
proof -
  let ?w = "sampleWorld ''verified'' [] []"
  let ?c = "encodeB64 (''012345678901'' @ ''KEY'')"
  have run: "run_state (Encrypt idleEnv ''KEY'') ?w = (Inr ?c, settle idleEnv ?w)"
    by (simp add: run_simps EncryptWith_def NewCipher_def) (simp add: idleEnv_def sampleWorld_def)
  have "?c \<noteq> ''KEY''" by code_simp
  with decrypt_encrypt [OF aead_idle run, of "settle idleEnv ?w"] run show ?thesis
    by (simp add: run_simps del: encodeB64.simps)
qed

text \<open>
  Start-up loads the key that Validate accepted: with a valid configuration
  InitCrypto succeeds, and outside dev mode it leaves a key of 32 bytes in place, so that no
  private key is stored in clear.
\<close>

theorem InitCrypto_after_Validate:
  assumes "Validate (osenv e) (cfg e) = Inr ()"
  shows "\<exists>w'. run_state (InitCrypto e) w = (Inr (), w')
    \<and> (\<not> IsDevMode (osenv e) (Security (cfg e)) \<longrightarrow> length (encryptionKey w') = 32)
    \<and> w' = w\<lparr>encryptionKey := encryptionKey w'\<rparr>"
  using assms
  by (auto simp: InitCrypto_def Validate_ok split: option.splits if_splits)

theorem InitCrypto_after_Validate_witness:
  "\<exists>w'. run_state (InitCrypto idleEnv) (sampleWorld ''verified'' [] []) = (Inr (), w')
     \<and> length (encryptionKey w') = 32"
  using InitCrypto_after_Validate [of idleEnv "sampleWorld ''verified'' [] []"] prodCfg_valid prodCfg_fields(6)
  by auto

end
