(* ===== verification/Acme_Scope.thy ===== *)
theory Acme_Scope
  imports Crypto Cert_Lock Domain_Name
begin

text \<open>
  services/acme_scope.go and services/acme_http.go: the liveness scope of a certificate job, and the
  HTTP client of the CA library, whose requests end with the job.
\<close>

section \<open>The job scope\<close>

record acmeCtx =
  jobCtx :: ctx
  jobScope :: "(uint \<times> token) option"

definition WithCertJobScope :: "ctx \<Rightarrow> uint \<Rightarrow> token \<Rightarrow> acmeCtx" where
  "WithCertJobScope c domainID tok = \<lparr>jobCtx = c, jobScope = Some (domainID, tok)\<rparr>"

definition requireACMEActive :: "env \<Rightarrow> acmeCtx \<Rightarrow> (world, err + unit) state" where
  "requireACMEActive e c = do {
     err \<leftarrow> CtxErr e (jobCtx c);
     case err of
       Some x \<Rightarrow> State_Monad.return (Inl x)
     | None \<Rightarrow>
         (case jobScope c of
            None \<Rightarrow> State_Monad.return (Inr ())
          | Some (domainID, tok) \<Rightarrow> do {
              active \<leftarrow> isCertJobActive e domainID tok;
              State_Monad.return (if active then Inr () else Inl Canceled)
            })
   }"

lemma keeps_requireACMEActive [keeps_intros]: "stable e I \<Longrightarrow> keeps I (requireACMEActive e c)"
  unfolding requireACMEActive_def by (intro keeps_intros keeps_registry_reads)

section \<open>The HTTP client\<close>

text \<open>
  A RoundTripper sends a request under the context of the request. The redirect policy and the
  cookie jar of a client are opaque; \<open>legoBase\<close> is the client of lego's configuration and
  \<open>defaultTransport\<close> the transport of net/http.
\<close>

type_synonym ('q, 's) roundTripper = "ctx \<Rightarrow> 'q \<Rightarrow> (world, err + 's) state"

record ('q, 's, 'o) httpClient =
  Timeout :: duration
  Transport :: "('q, 's) roundTripper option"
  CheckRedirect :: 'o
  Jar :: 'o

definition RoundTrip :: "env \<Rightarrow> ctx \<Rightarrow> ('q, 's) roundTripper \<Rightarrow> ('q, 's) roundTripper" where
  "RoundTrip e c base _ req = do {
     done \<leftarrow> CtxErr e c;
     case done of Some err \<Rightarrow> State_Monad.return (Inl err) | None \<Rightarrow> base c req
   }"

definition acmeHTTPClient ::
  "env \<Rightarrow> ('q, 's, 'o) httpClient \<Rightarrow> ('q, 's) roundTripper \<Rightarrow> ctx \<Rightarrow> ('q, 's, 'o) httpClient option \<Rightarrow>
   ('q, 's, 'o) httpClient" where
  "acmeHTTPClient e legoBase defaultTransport c given =
     (let base = (case given of None \<Rightarrow> legoBase | Some b \<Rightarrow> b);
          transport = (case Transport base of None \<Rightarrow> defaultTransport | Some t \<Rightarrow> t)
      in \<lparr>Timeout = Timeout base, Transport = Some (RoundTrip e c transport),
          CheckRedirect = CheckRedirect base, Jar = Jar base\<rparr>)"

text \<open>How long shutdown waits for the jobs it cancelled.\<close>

definition acmeLegoHTTPRoundBudget :: duration where
  "acmeLegoHTTPRoundBudget = 2 * Minute"

definition ACMEWorkDrainBudget :: "env \<Rightarrow> duration" where
  "ACMEWorkDrainBudget e =
     (let propagation = PropagationTimeoutDuration (DNS (cfg e));
          budget = wrap64 (wrap64 (propagation + acmeLegoHTTPRoundBudget) + 30 * Second);
          mx = GeneratingTimeoutDuration (Renewal (cfg e))
      in if budget > mx then mx else budget)"

end
