(* ===== verification/Delegation_Dns.thy ===== *)
theory Delegation_Dns
  imports Acme_Scope
begin

text \<open>
  services/delegation_dns.go: the DNS-01 provider. The TXT record of a challenge lives on the
  delegation target of the domain; per target the server remembers the record it created last
  (\<open>delegation\<close> in the state) and changes it under the target's mutex, which is why the two
  operations on it are atomic steps here. The calls to the Cloudflare API are the trace
  \<open>cfCalls\<close>, newest first, their results parameters.
\<close>

definition cloudflareMinTTL :: nat where
  "cloudflareMinTTL = 120"

section \<open>The API client\<close>

text \<open>
  \<open>zoneOnce\<close> is what the first lookup stored under the sync.Once, zone or error. Inside a critical
  section the tick is advanced by hand, so that every call and every look at the job has its own
  oracle value.
\<close>

record cloudflareClient =
  authZone :: string
  zoneOnce :: "(err + string) option"

definition newCloudflareClient :: "env \<Rightarrow> err + cloudflareClient" where
  "newCloudflareClient e =
     (let cf = Cloudflare (DNS (cfg e));
          r = (if APIToken cf \<noteq> [] then cfNewWithAPIToken e (APIToken cf)
               else cfNew e (APIKey cf) (APIEmail cf))
      in case r of
           Inl err \<Rightarrow> Inl (Wrap ''cloudflare client: '' err)
         | Inr _ \<Rightarrow> Inr \<lparr>authZone = AuthZone (DNS (cfg e)), zoneOnce = None\<rparr>)"

definition getZoneID :: "env \<Rightarrow> nat \<Rightarrow> cloudflareClient \<Rightarrow> (err + string) \<times> cloudflareClient" where
  "getZoneID e n client =
     (case zoneOnce client of
        Some r \<Rightarrow> (r, client)
      | None \<Rightarrow> let r = cfZone e n (authZone client) in (r, client\<lparr>zoneOnce := Some r\<rparr>))"

definition tickOn :: "world \<Rightarrow> world" where
  "tickOn w = w\<lparr>tick := Suc (tick w)\<rparr>"

definition createTXT ::
  "env \<Rightarrow> acmeCtx \<Rightarrow> cloudflareClient \<Rightarrow> string \<Rightarrow> string \<Rightarrow> world \<Rightarrow>
   ((err + string) \<times> cloudflareClient) \<times> world" where
  "createTXT e c client name content w =
     (case ctxErr w (jobCtx c) of
        Some err \<Rightarrow> ((Inl err, client), w)
      | None \<Rightarrow>
          (case getZoneID e (tick w) client of
             (Inl err, client') \<Rightarrow> ((Inl (Wrap ''cloudflare zone lookup: '' err), client'), w)
           | (Inr zoneID, client') \<Rightarrow>
               (let w' = (tickOn w)\<lparr>cfCalls := CreateTXT name content # cfCalls w\<rparr> in
                case cfCreate e (tick w) of
                  Inl err \<Rightarrow> ((Inl (Wrap ''cloudflare create TXT: '' err), client'), w')
                | Inr recID \<Rightarrow> ((Inr recID, client'), w'))))"

definition deleteTXT ::
  "env \<Rightarrow> acmeCtx \<Rightarrow> cloudflareClient \<Rightarrow> string \<Rightarrow> world \<Rightarrow>
   ((err + unit) \<times> cloudflareClient) \<times> world" where
  "deleteTXT e c client recordID w =
     (case ctxErr w (jobCtx c) of
        Some err \<Rightarrow> ((Inl err, client), w)
      | None \<Rightarrow>
          (case getZoneID e (tick w) client of
             (Inl err, client') \<Rightarrow> ((Inl err, client'), w)
           | (Inr zoneID, client') \<Rightarrow>
               ((cfDelete e (tick w), client'), (tickOn w)\<lparr>cfCalls := DeleteTXT recordID # cfCalls w\<rparr>)))"

section \<open>Records per delegation target\<close>

definition scopeErr :: "world \<Rightarrow> acmeCtx \<Rightarrow> err option" where
  "scopeErr w c =
     (case ctxErr w (jobCtx c) of
        Some err \<Rightarrow> Some err
      | None \<Rightarrow>
          (case jobScope c of
             None \<Rightarrow> None
           | Some (domainID, tok) \<Rightarrow> if activeJob w domainID tok then None else Some Canceled))"

text \<open>The field recordID is the empty string when there is no record.\<close>

definition delegationRecord :: "world \<Rightarrow> string \<Rightarrow> string" where
  "delegationRecord w name = (case delegation w name of None \<Rightarrow> [] | Some r \<Rightarrow> r)"

definition setDelegation :: "string \<Rightarrow> string \<Rightarrow> world \<Rightarrow> world" where
  "setDelegation name recordID w = w\<lparr>delegation := (delegation w)(name \<mapsto> recordID)\<rparr>"

text \<open>
  The critical section of replaceDelegationTXT. The job is looked at twice, before the old
  record is deleted and before the new one is created; \<open>interfere\<close> may end it in between, but
  the mutex keeps every other holder of the target out, so only the job state is taken from the
  interference.
\<close>

definition duringSection :: "env \<Rightarrow> world \<Rightarrow> world" where
  "duringSection e w =
     (let v = settle e w
      in v\<lparr>delegation := delegation w, cfCalls := cfCalls w\<rparr>)"

definition replaceSection ::
  "env \<Rightarrow> acmeCtx \<Rightarrow> cloudflareClient \<Rightarrow> string \<Rightarrow> string \<Rightarrow> world \<Rightarrow>
   ((err + string) \<times> cloudflareClient) \<times> world" where
  "replaceSection e c client targetName content w =
     (case scopeErr w c of
        Some err \<Rightarrow> ((Inl err, client), w)
      | None \<Rightarrow>
          let (client1, w1) =
                (if delegationRecord w targetName \<noteq> [] then
                   (case deleteTXT e c client (delegationRecord w targetName) w of
                      ((_, client'), w') \<Rightarrow> (client', setDelegation targetName [] w'))
                 else (client, w));
              w2 = duringSection e w1
          in case scopeErr w2 c of
               Some err \<Rightarrow> ((Inl err, client1), w2)
             | None \<Rightarrow>
                 (case createTXT e c client1 targetName content w2 of
                    ((Inl err, client2), w3) \<Rightarrow> ((Inl err, client2), w3)
                  | ((Inr recordID, client2), w3) \<Rightarrow>
                      ((Inr recordID, client2), setDelegation targetName recordID w3)))"

definition replaceDelegationTXT ::
  "env \<Rightarrow> acmeCtx \<Rightarrow> cloudflareClient \<Rightarrow> string \<Rightarrow> string \<Rightarrow>
   (world, (err + string) \<times> cloudflareClient) state" where
  "replaceDelegationTXT e c client targetName content = do {
     r \<leftarrow> requireACMEActive e c;
     case r of
       Inl err \<Rightarrow> State_Monad.return (Inl err, client)
     | Inr _ \<Rightarrow> act e (replaceSection e c client targetName content)
   }"

definition releaseDelegationTXT ::
  "env \<Rightarrow> acmeCtx \<Rightarrow> cloudflareClient \<Rightarrow> string \<Rightarrow> string \<Rightarrow>
   (world, (err + unit) \<times> cloudflareClient) state" where
  "releaseDelegationTXT e c client targetName recordID =
     act e (\<lambda>w.
       if delegationRecord w targetName \<noteq> recordID then ((Inr (), client), w)
       else (case deleteTXT e c client recordID w of
               ((Inl err, client'), w') \<Rightarrow> ((Inl err, client'), w')
             | ((Inr _, client'), w') \<Rightarrow> ((Inr (), client'), setDelegation targetName [] w')))"

section \<open>The provider\<close>

definition delegationTargetLookup :: "env \<Rightarrow> uint \<Rightarrow> string \<Rightarrow> (world, err + string) state" where
  "delegationTargetLookup e userID domainName = do {
     let name = NormalizeDomain (uni (osenv e)) domainName;
     r \<leftarrow> FirstDomain e (\<lambda>d. dDomain d = name \<and> dUserID d = userID);
     State_Monad.return (case r of
         Inl err \<Rightarrow>
           if errorsIs err ErrRecordNotFound
           then Inl (Errorf (''domain '' @ Quote (uni (osenv e)) name @ '' not found for user''))
           else Inl err
       | Inr domain \<Rightarrow>
           if dCNameTarget domain = []
           then Inl (Errorf (''domain '' @ Quote (uni (osenv e)) name
                             @ '' has no delegation target configured''))
           else Inr (dCNameTarget domain))
   }"

text \<open>
  Its two maps go from the challenge token to the record and to the target. The functions of the
  library it calls are the challenge value \<open>info\<close> and ToFqdn/UnFqdn, which append and drop one
  final dot. Both callbacks return the provider as they leave it, also when they fail.
\<close>

record provider =
  providerCtx :: acmeCtx
  dnsClient :: cloudflareClient
  getDelegationTarget :: "string \<Rightarrow> (world, err + string) state"
  recordIDs :: "string \<Rightarrow> string option"
  targetNames :: "string \<Rightarrow> string option"

definition newDelegationDNSProvider ::
  "env \<Rightarrow> acmeCtx option \<Rightarrow> (string \<Rightarrow> (world, err + string) state) \<Rightarrow> err + provider" where
  "newDelegationDNSProvider e given getTarget =
     (let c = (case given of None \<Rightarrow> \<lparr>jobCtx = Background, jobScope = None\<rparr> | Some c \<Rightarrow> c)
      in case newCloudflareClient e of
           Inl err \<Rightarrow> Inl err
         | Inr cl \<Rightarrow> Inr \<lparr>providerCtx = c, dnsClient = cl, getDelegationTarget = getTarget,
                          recordIDs = Map.empty, targetNames = Map.empty\<rparr>)"

definition ToFqdn :: "string \<Rightarrow> string" where
  "ToFqdn name = (if name = [] \<or> last name = CHR ''.'' then name else name @ ''.'')"

definition UnFqdn :: "string \<Rightarrow> string" where
  "UnFqdn name = TrimSuffix name ''.''"

definition Present ::
  "env \<Rightarrow> (string \<Rightarrow> string \<Rightarrow> string) \<Rightarrow> string \<Rightarrow> string \<Rightarrow> string \<Rightarrow> provider \<Rightarrow>
   (world, (err + unit) \<times> provider) state" where
  "Present e info domain tok keyAuth d = do {
     r \<leftarrow> requireACMEActive e (providerCtx d);
     case r of
       Inl err \<Rightarrow> State_Monad.return (Inl err, d)
     | Inr _ \<Rightarrow> do {
         t \<leftarrow> getDelegationTarget d domain;
         case t of
           Inl err \<Rightarrow> State_Monad.return
             (Inl (Wrap (''delegation DNS: lookup target for '' @ Quote (uni (osenv e)) domain @ '': '') err), d)
         | Inr delegationTarget \<Rightarrow> do {
             let name = UnFqdn (ToFqdn delegationTarget);
             (res, cl) \<leftarrow> replaceDelegationTXT e (providerCtx d) (dnsClient d) name (info domain keyAuth);
             State_Monad.return (case res of
                 Inl err \<Rightarrow> (Inl err, d\<lparr>dnsClient := cl\<rparr>)
               | Inr recordID \<Rightarrow> (Inr (), d\<lparr>dnsClient := cl, recordIDs := (recordIDs d)(tok \<mapsto> recordID),
                                           targetNames := (targetNames d)(tok \<mapsto> name)\<rparr>))
           }
       }
   }"

text \<open>
  CleanUp forgets the token before it deletes the record: the provider it returns has no entry
  for it, whatever the deletion does.
\<close>

definition CleanUp :: "env \<Rightarrow> string \<Rightarrow> provider \<Rightarrow> (world, (err + unit) \<times> provider) state" where
  "CleanUp e tok d =
     (case recordIDs d tok of
        None \<Rightarrow> State_Monad.return (Inr (), d)
      | Some recordID \<Rightarrow> do {
          (r, cl) \<leftarrow> releaseDelegationTXT e (providerCtx d) (dnsClient d)
                       (case targetNames d tok of None \<Rightarrow> [] | Some n \<Rightarrow> n) recordID;
          State_Monad.return (r, d\<lparr>dnsClient := cl, recordIDs := (recordIDs d)(tok := None),
                                   targetNames := (targetNames d)(tok := None)\<rparr>)
        })"

definition ProviderTimeout :: "env \<Rightarrow> duration \<times> duration" where
  "ProviderTimeout e = (PropagationTimeoutDuration (DNS (cfg e)), PropagationIntervalDuration (DNS (cfg e)))"

end
