(* ===== verification/Acme.thy ===== *)
theory Acme
  imports Delegation_Dns
begin

text \<open>
  services/lego.go: the ACME account of a user, and obtaining or renewing a certificate through the
  lego library. The library, the key functions and the CA are parameters; what an Obtain or
  Renew call does to the delegation records happens through the callbacks of the client's provider
  (Delegation_Dns) while the call runs, which is interference here. A parsed
  \<open>registration.Resource\<close> and a private key are opaque byte strings.
\<close>

section \<open>Accounts\<close>

record acmeUser =
  auEmail :: string
  auRegistration :: "bytes option"
  auKey :: bytes

definition userAccount :: "uint \<Rightarrow> AcmeRow \<Rightarrow> bool" where
  "userAccount u a \<longleftrightarrow> aUserID a = u"

definition accountByID :: "uint \<Rightarrow> AcmeRow \<Rightarrow> bool" where
  "accountByID i a \<longleftrightarrow> aID a = i"

definition UpdatesAccount ::
  "env \<Rightarrow> (AcmeRow \<Rightarrow> bool) \<Rightarrow> (AcmeRow \<Rightarrow> AcmeRow) \<Rightarrow> (world, err + nat) state" where
  "UpdatesAccount e p f = Updates e accounts accounts_update p (\<lambda>t a. (f a)\<lparr>aUpdatedAt := t\<rparr>)"

definition effectiveCAURL :: "env \<Rightarrow> string" where
  "effectiveCAURL e = (if CAURL (ACME (cfg e)) \<noteq> [] then CAURL (ACME (cfg e)) else letsEncryptURL)"

definition normalizeCAURL :: "env \<Rightarrow> string \<Rightarrow> string" where
  "normalizeCAURL e url = TrimSuffix (TrimSpace (uni (osenv e)) url) ''/''"

text \<open>The pointer argument is updated in the caller: the new account is returned.\<close>

definition invalidateRegistrationIfCAChanged :: "env \<Rightarrow> AcmeRow \<Rightarrow> (world, err + AcmeRow) state" where
  "invalidateRegistrationIfCAChanged e account =
     (let stored = normalizeCAURL e (aCAURL account);
          current = normalizeCAURL e (effectiveCAURL e)
      in if stored = [] then
           (if aRegistration account = [] then State_Monad.return (Inr account)
            else checked (UpdatesAccount e (accountByID (aID account)) (aRegistration_update (\<lambda>_. [])))
              (\<lambda>_. State_Monad.return (Inr (account\<lparr>aRegistration := []\<rparr>))))
         else if stored = current then State_Monad.return (Inr account)
         else checked (UpdatesAccount e (accountByID (aID account))
                (\<lambda>a. a\<lparr>aRegistration := [], aCAURL := []\<rparr>))
              (\<lambda>_. State_Monad.return (Inr (account\<lparr>aRegistration := [], aCAURL := []\<rparr>))))"

definition encodeECPrivateKey :: "env \<Rightarrow> bytes \<Rightarrow> err + bytes" where
  "encodeECPrivateKey e key =
     (case marshalEC e key of Inl err \<Rightarrow> Inl err | Inr der \<Rightarrow> Inr (pemEncode e ''EC PRIVATE KEY'' der))"

definition parseECPrivateKey :: "env \<Rightarrow> bytes \<Rightarrow> err + bytes" where
  "parseECPrivateKey e pemData =
     (case pemDecode e pemData of
        None \<Rightarrow> Inl (Errorf ''failed to decode EC private key PEM'')
      | Some (_, der) \<Rightarrow> parseEC e der)"

definition acmeUserFromAccount :: "env \<Rightarrow> AcmeRow \<Rightarrow> (world, err + acmeUser) state" where
  "acmeUserFromAccount e account = do {
     k \<leftarrow> Decrypt e (aPrivateKeyPEM account);
     State_Monad.return (case k of
         Inl err \<Rightarrow> Inl (Wrap ''decrypt ACME account key: '' err)
       | Inr keyPEM \<Rightarrow>
           (case parseECPrivateKey e keyPEM of
              Inl err \<Rightarrow> Inl err
            | Inr privateKey \<Rightarrow>
                if aRegistration account = []
                then Inr \<lparr>auEmail = aEmail account, auRegistration = None, auKey = privateKey\<rparr>
                else (case parseReg e (aRegistration account) of
                        Inl err \<Rightarrow> Inl (Wrap ''parse ACME registration: '' err)
                      | Inr reg \<Rightarrow>
                          Inr \<lparr>auEmail = aEmail account, auRegistration = Some reg, auKey = privateKey\<rparr>)))
   }"

definition loadAcmeAccount :: "env \<Rightarrow> uint \<Rightarrow> (world, err + acmeUser) state" where
  "loadAcmeAccount e userID =
     checked (First e accounts (userAccount userID)) (\<lambda>account.
     checked (invalidateRegistrationIfCAChanged e account) (\<lambda>account.
     acmeUserFromAccount e account))"

text \<open>\<open>Create\<close> on the accounts table: unique index on user_id.\<close>

definition CreateAccount :: "env \<Rightarrow> AcmeRow \<Rightarrow> (world, err + AcmeRow) state" where
  "CreateAccount e a =
     db e (\<lambda>w. if list_ex (userAccount (aUserID a)) (accounts w)
               then (Inl (dbErr UniqueViolation), w)
               else let row = a\<lparr>aID := Suc (accountSeq w), aCreatedAt := clock w, aUpdatedAt := clock w\<rparr>
                    in (Inr row, w\<lparr>accountSeq := Suc (accountSeq w), accounts := accounts w @ [row]\<rparr>))"

definition createAcmeAccount :: "env \<Rightarrow> uint \<Rightarrow> string \<Rightarrow> (world, err + acmeUser) state" where
  "createAcmeAccount e userID email =
     checked (act e (\<lambda>w. (genKey e (tick w), w))) (\<lambda>privateKey.
     checked (State_Monad.return (encodeECPrivateKey e privateKey)) (\<lambda>keyPEM.
     checked (Encrypt e keyPEM) (\<lambda>encryptedKey. do {
       c \<leftarrow> CreateAccount e \<lparr>aID = 0, aUserID = userID, aEmail = email, aPrivateKeyPEM = encryptedKey,
              aRegistration = [], aCAURL = [], aCreatedAt = 0, aUpdatedAt = 0\<rparr>;
       case c of
         Inl err \<Rightarrow>
           if errorsIs err ErrDuplicatedKey then loadAcmeAccount e userID
           else State_Monad.return (Inl err)
       | Inr _ \<Rightarrow> State_Monad.return
             (Inr \<lparr>auEmail = email, auRegistration = None, auKey = privateKey\<rparr>)
     })))"

definition loadOrCreateAcmeAccount :: "env \<Rightarrow> uint \<Rightarrow> string \<Rightarrow> (world, err + acmeUser) state" where
  "loadOrCreateAcmeAccount e userID email = do {
     r \<leftarrow> loadAcmeAccount e userID;
     case r of
       Inr user \<Rightarrow> State_Monad.return (Inr user)
     | Inl err \<Rightarrow>
         if \<not> errorsIs err ErrRecordNotFound then State_Monad.return (Inl err)
         else createAcmeAccount e userID email
   }"

definition saveAcmeRegistration :: "env \<Rightarrow> uint \<Rightarrow> bytes \<Rightarrow> (world, err + unit) state" where
  "saveAcmeRegistration e userID reg =
     (case regJSON e reg of
        Inl err \<Rightarrow> State_Monad.return (Inl err)
      | Inr data \<Rightarrow> checked (UpdatesAccount e (userAccount userID)
            (\<lambda>a. a\<lparr>aRegistration := data, aCAURL := effectiveCAURL e\<rparr>))
          (\<lambda>_. State_Monad.return (Inr ())))"

definition loadAcmeRegistration :: "env \<Rightarrow> uint \<Rightarrow> (world, err + bytes option) state" where
  "loadAcmeRegistration e userID =
     checked (First e accounts (userAccount userID)) (\<lambda>account.
     checked (invalidateRegistrationIfCAChanged e account) (\<lambda>account.
     State_Monad.return
       (if aRegistration account = [] then Inr None
        else case parseReg e (aRegistration account) of
               Inl err \<Rightarrow> Inl (Wrap ''parse ACME registration: '' err)
             | Inr reg \<Rightarrow> Inr (Some reg))))"

section \<open>Certificates\<close>

text \<open>
  The client of the library, of which the program uses no more than its DNS provider: its directory URL
  is the effective one.
\<close>

definition newLegoClient :: "env \<Rightarrow> acmeCtx \<Rightarrow> uint \<Rightarrow> (world, err + provider) state" where
  "newLegoClient e c userID =
     checked (act e (\<lambda>w. (legoClient e (tick w) (effectiveCAURL e), w))) (\<lambda>_.
     checked (State_Monad.return (newDelegationDNSProvider e (Some c) (delegationTargetLookup e userID))) (\<lambda>provider.
     checked (act e (\<lambda>w. (legoSetDNS01 e (tick w), w))) (\<lambda>_.
     State_Monad.return (Inr provider))))"

text \<open>
  The call to the library runs in a goroutine of its own. The caller's select takes the error of
  a context that has ended, by whichever branch, and otherwise the result; a panic of the call is
  in a goroutine without a recover. When the context ends first the caller returns without
  waiting, with the same value: the call then goes on as part of the environment.
\<close>

definition runACMEWithContext ::
  "env \<Rightarrow> acmeCtx \<Rightarrow> (world, (err + Resource) outcome) state \<Rightarrow> (world, (err + Resource) outcome) state" where
  "runACMEWithContext e c run =
     checkedO (returns (requireACMEActive e c)) (\<lambda>_. do {
       result \<leftarrow> checkedO (returns (requireACMEActive e c)) (\<lambda>_. run);
       case result of
         Panics \<Rightarrow> State_Monad.return Exits
       | Exits \<Rightarrow> State_Monad.return Exits
       | Returns r \<Rightarrow> do {
           done \<leftarrow> CtxErr e (jobCtx c);
           case done of
             Some err \<Rightarrow> State_Monad.return (Returns (Inl err))
           | None \<Rightarrow> checkedO (returns (requireACMEActive e c)) (\<lambda>_. State_Monad.return (Returns r))
         }
     })"

definition obtainWithContext :: "env \<Rightarrow> acmeCtx \<Rightarrow> string \<Rightarrow> (world, (err + Resource) outcome) state" where
  "obtainWithContext e c domain =
     runACMEWithContext e c (act e (\<lambda>w. (legoObtain e (tick w) domain, w)))"

definition renewWithContext :: "env \<Rightarrow> acmeCtx \<Rightarrow> Resource \<Rightarrow> (world, (err + Resource) outcome) state" where
  "renewWithContext e c existing =
     runACMEWithContext e c (act e (\<lambda>w. (legoRenew e (tick w) existing, w)))"

text \<open>
  The user's registration is set in place: the result is the user with its registration. A
  second load of the account looks for a registration that another job stored meanwhile.
\<close>

definition adoptRegistration ::
  "env \<Rightarrow> acmeUser \<Rightarrow> uint \<Rightarrow> err \<Rightarrow> (world, (err + acmeUser) outcome) state" where
  "adoptRegistration e user userID failure = do {
     r \<leftarrow> loadAcmeRegistration e userID;
     State_Monad.return (Returns (case r of
         Inr (Some reg) \<Rightarrow> Inr (user\<lparr>auRegistration := Some reg\<rparr>)
       | _ \<Rightarrow> Inl failure))
   }"

definition ensureRegistered ::
  "env \<Rightarrow> acmeCtx \<Rightarrow> acmeUser \<Rightarrow> uint \<Rightarrow> (world, (err + acmeUser) outcome) state" where
  "ensureRegistered e c user userID =
     checkedO (returns (requireACMEActive e c)) (\<lambda>_.
     if auRegistration user \<noteq> None then State_Monad.return (Returns (Inr user))
     else checkedO (returns (loadAcmeRegistration e userID)) (\<lambda>stored.
       case stored of
         Some reg \<Rightarrow> State_Monad.return (Returns (Inr (user\<lparr>auRegistration := Some reg\<rparr>)))
       | None \<Rightarrow> do {
           r \<leftarrow> act e (\<lambda>w. (legoRegister e (tick w), w));
           case r of
             Panics \<Rightarrow> State_Monad.return Panics
           | Exits \<Rightarrow> State_Monad.return Exits
           | Returns (Inl err) \<Rightarrow> adoptRegistration e user userID (Wrap ''ACME registration: '' err)
           | Returns (Inr reg) \<Rightarrow> do {
               s \<leftarrow> saveAcmeRegistration e userID reg;
               case s of
                 Inl err \<Rightarrow> adoptRegistration e (user\<lparr>auRegistration := Some reg\<rparr>) userID
                              (Wrap ''save ACME registration: '' err)
               | Inr _ \<Rightarrow> State_Monad.return (Returns (Inr (user\<lparr>auRegistration := Some reg\<rparr>)))
             }
         }))"

text \<open>The steps Obtain and Renew share: a live job, an account, a client, a registration.\<close>

definition prepareACME ::
  "env \<Rightarrow> acmeCtx \<Rightarrow> uint \<Rightarrow> string \<Rightarrow> (world, (err + acmeUser) outcome) state" where
  "prepareACME e c userID email =
     checkedO (returns (requireACMEActive e c)) (\<lambda>_.
     checkedO (returns (loadOrCreateAcmeAccount e userID email)) (\<lambda>user.
     checkedO (returns (newLegoClient e c userID)) (\<lambda>_.
     ensureRegistered e c user userID)))"

definition ObtainCertificate ::
  "env \<Rightarrow> acmeCtx \<Rightarrow> uint \<Rightarrow> string \<Rightarrow> string \<Rightarrow> (world, (err + Resource) outcome) state" where
  "ObtainCertificate e c userID domain email =
     checkedO (prepareACME e c userID email) (\<lambda>_. obtainWithContext e c domain)"

definition RenewExistingCertificate ::
  "env \<Rightarrow> acmeCtx \<Rightarrow> uint \<Rightarrow> string \<Rightarrow> Resource \<Rightarrow> (world, (err + Resource) outcome) state" where
  "RenewExistingCertificate e c userID email existing =
     checkedO (prepareACME e c userID email) (\<lambda>_.
     if rCertURL existing = [] then ObtainCertificate e c userID (rDomain existing) email
     else do {
       r \<leftarrow> renewWithContext e c existing;
       State_Monad.return (case r of
           Returns (Inl err) \<Rightarrow> Returns (Inl (Wrap ''ACME renew: '' err))
         | _ \<Rightarrow> r)
     })"

definition BuildCertResource :: "env \<Rightarrow> CertRow \<Rightarrow> (world, err + Resource) state" where
  "BuildCertResource e cert =
     checked (Decrypt e (cKeyPEM cert)) (\<lambda>keyPEM. State_Monad.return (Inr
       \<lparr>rDomain = cDomain cert, rCertURL = cCertURL cert, rCertStableURL = cCertStableURL cert,
        rPrivateKey = keyPEM, rCertificate = cCertPEM cert, rIssuerCertificate = cIssuer cert\<rparr>))"

end
