(* ===== verification/Acme_Props.thy ===== *)
theory Acme_Props
  imports Acme
begin

text \<open>
  Properties of the ACME client: a result always belongs to a job that was still active, an
  account is never used with a registration of another CA, a panic of the library inside Obtain
  or Renew cannot be recovered by the job, and the delegation records of a target follow the
  newest job.
\<close>

section \<open>The scope of a job\<close>

text \<open>A job's context: its own token as context and as scope.\<close>

abbreviation jobScopeCtx :: "uint \<Rightarrow> token \<Rightarrow> acmeCtx" where
  "jobScopeCtx i t \<equiv> WithCertJobScope (JobCtx t) i t"

lemma run_requireACMEActive:
  "run_state (requireACMEActive e (jobScopeCtx i t)) w =
     (case ctxErr (settle e w) (JobCtx t) of
        Some err \<Rightarrow> (Inl err, settle e w)
      | None \<Rightarrow> (if activeJob (settle e (settle e w)) i t then Inr () else Inl Canceled,
                 settle e (settle e w)))"
  by (simp add: requireACMEActive_def WithCertJobScope_def run_simps split: option.split)

text \<open>Success needs a job that was active when it was looked at last.\<close>

definition activeIfOk :: "uint \<Rightarrow> token \<Rightarrow> (err + 'a) outcome \<Rightarrow> world \<Rightarrow> bool" where
  "activeIfOk i t r w \<longleftrightarrow> (\<forall>x. r = Returns (Inr x) \<longrightarrow> activeJob w i t)"

lemma activeIfOk_fails [simp]:
  "activeIfOk i t (Returns (Inl err)) w" "activeIfOk i t Panics w" "activeIfOk i t Exits w"
  by (simp_all add: activeIfOk_def)

lemma require_then_return:
  "post (activeIfOk i t)
     (checkedO (returns (requireACMEActive e (jobScopeCtx i t))) (\<lambda>_. State_Monad.return (Returns r)))"
  by (rule postI) (auto simp: run_simps run_requireACMEActive activeIfOk_def
      split: option.splits if_splits)

lemma post_runACME: "post (activeIfOk i t) (runACMEWithContext e (jobScopeCtx i t) run)"
  unfolding runACMEWithContext_def by (intro post_intros require_then_return activeIfOk_fails)

lemma post_Obtain: "post (activeIfOk i t) (ObtainCertificate e (jobScopeCtx i t) u domain email)"
  unfolding ObtainCertificate_def obtainWithContext_def
  by (intro post_intros post_runACME activeIfOk_fails)

lemma post_Renew: "post (activeIfOk i t) (RenewExistingCertificate e (jobScopeCtx i t) u email existing)"
proof -
  have last: "post (activeIfOk i t) (do {
      r \<leftarrow> renewWithContext e (jobScopeCtx i t) existing;
      State_Monad.return (case r of
          Returns (Inl err) \<Rightarrow> Returns (Inl (Wrap ''ACME renew: '' err))
        | _ \<Rightarrow> r)})"
    by (rule postI)
      (auto simp: renewWithContext_def split: prod.splits outcome.splits sum.splits
        dest!: postD [OF post_runACME])
  show ?thesis
    unfolding RenewExistingCertificate_def
    by (intro post_intros post_Obtain last activeIfOk_fails)
qed

text \<open>
  Property C35. A certificate is only handed to a job that is still the registered one: when
  ObtainCertificate or RenewExistingCertificate succeeds for a job, its token was registered and
  its context alive at the moment of the last look, whatever the schedule, the faults and the
  answers of the CA.
\<close>

theorem acme_success_needs_active_job:
  assumes "run_state (ObtainCertificate e (jobScopeCtx i t) u domain email) w = (Returns (Inr res), w')
    \<or> run_state (RenewExistingCertificate e (jobScopeCtx i t) u email existing) w = (Returns (Inr res), w')"
  shows "activeJob w' i t"
  using assms postD [OF post_Obtain] postD [OF post_Renew] by (fastforce simp: activeIfOk_def)

section \<open>Registrations\<close>

lemma invalidate_ok:
  "run_state (invalidateRegistrationIfCAChanged e a) w = (Inr a', w') \<Longrightarrow> aRegistration a' \<noteq> [] \<Longrightarrow>
     a' = a \<and> normalizeCAURL e (aCAURL a) = normalizeCAURL e (effectiveCAURL e)"
  by (auto simp: invalidateRegistrationIfCAChanged_def Let_def run_checked
      split: if_splits prod.splits sum.splits)

text \<open>
  A stored registration is used only with the CA it was made at: when
  loadAcmeRegistration returns one, it is the parsed registration of the user's account row, and
  the CA URL recorded with it is the configured one up to surrounding space and a final slash.
  After acme.ca_url changed, or for an account from before the URL was recorded, the answer is
  that there is none.
\<close>

theorem registration_of_current_CA:
  assumes "run_state (loadAcmeRegistration e u) w = (Inr (Some reg), w')"
  shows "\<exists>a. find (userAccount u) (accounts (settle e w)) = Some a \<and> parseReg e (aRegistration a) = Inr reg
    \<and> aRegistration a \<noteq> [] \<and> normalizeCAURL e (aCAURL a) = normalizeCAURL e (effectiveCAURL e)"
proof -
  obtain a where a: "find (userAccount u) (accounts (settle e w)) = Some a"
    using assms by (auto simp: loadAcmeRegistration_def First_def run_simps split: option.splits)
  obtain r v where inv: "run_state (invalidateRegistrationIfCAChanged e a) (settle e w) = (r, v)"
    by fastforce
  then show ?thesis
    using assms a invalidate_ok [of e a "settle e w"]
    by (auto simp: loadAcmeRegistration_def First_def run_simps
        split: option.splits sum.splits if_splits)
qed

definition sampleAccount :: "string \<Rightarrow> AcmeRow" where
  "sampleAccount url =
     \<lparr>aID = 1, aUserID = 7, aEmail = ''a@example.com'', aPrivateKeyPEM = [], aRegistration = ''REG'',
      aCAURL = url, aCreatedAt = 0, aUpdatedAt = 0\<rparr>"

definition accountWorld :: "string \<Rightarrow> world" where
  "accountWorld url = (sampleWorld ''verified'' [] [])\<lparr>accounts := [sampleAccount url]\<rparr>"

lemma normalize_le: "normalizeCAURL idleEnv letsEncryptURL = letsEncryptURL"
  "effectiveCAURL idleEnv = letsEncryptURL"
proof -
  show "effectiveCAURL idleEnv = letsEncryptURL"
    by (simp add: effectiveCAURL_def prodCfg_fields) (simp add: setDefaults_def)
  show "normalizeCAURL idleEnv letsEncryptURL = letsEncryptURL"
    unfolding normalizeCAURL_def idleEnv_fields prodOs_def asciiOnly_def letsEncryptURL_def
    by code_simp
qed

theorem registration_of_current_CA_witness:
  "\<exists>w'. run_state (loadAcmeRegistration idleEnv 7) (accountWorld letsEncryptURL) = (Inr (Some ''REG''), w')
     \<and> normalizeCAURL idleEnv letsEncryptURL = normalizeCAURL idleEnv (effectiveCAURL idleEnv)"
proof -
  let ?w = "accountWorld letsEncryptURL" and ?a = "sampleAccount letsEncryptURL"
  have acc: "accounts ?w = [?a]" "userAccount 7 ?a" "aCAURL ?a = letsEncryptURL" "aRegistration ?a = ''REG''"
    by (simp_all add: accountWorld_def userAccount_def sampleAccount_def)
  have "letsEncryptURL \<noteq> []" by (simp add: letsEncryptURL_def)
  then obtain w' where run: "run_state (loadAcmeRegistration idleEnv 7) ?w = (Inr (Some ''REG''), w')"
    using acc normalize_le
    by (auto simp: loadAcmeRegistration_def First_def run_simps invalidateRegistrationIfCAChanged_def Let_def)
  from registration_of_current_CA [OF this] acc run show ?thesis by (auto simp: run_simps)
qed

text \<open>An Obtain or Renew never runs with an unregistered account.\<close>

lemma prepareACME_registered:
  "post (\<lambda>r w. \<forall>u. r = Returns (Inr u) \<longrightarrow> auRegistration u \<noteq> None) (prepareACME e c userID email)"
  unfolding prepareACME_def ensureRegistered_def adoptRegistration_def
  by (intro post_intros) (auto split: sum.splits option.splits)

section \<open>Account keys\<close>

text \<open>The documented behaviour of crypto/x509 and encoding/pem.\<close>

definition key_laws :: "env \<Rightarrow> bool" where
  "key_laws e \<longleftrightarrow> (\<forall>k der. marshalEC e k = Inr der \<longrightarrow> parseEC e der = Inr k)
     \<and> (\<forall>b. pemDecode e (pemEncode e ''EC PRIVATE KEY'' b) = Some (''EC PRIVATE KEY'', b))"

lemma parse_encoded_key: "key_laws e \<Longrightarrow> encodeECPrivateKey e k = Inr p \<Longrightarrow> parseECPrivateKey e p = Inr k"
  by (auto simp: encodeECPrivateKey_def parseECPrivateKey_def key_laws_def split: sum.splits)

lemma no_account: "\<not> list_ex p as \<Longrightarrow> find p as = None"
  by (simp add: find_None_iff list_ex_iff)

lemma new_account: "userAccount u \<lparr>aID = i, aUserID = u, aEmail = m, aPrivateKeyPEM = k,
     aRegistration = r, aCAURL = c, aCreatedAt = t, aUpdatedAt = t'\<rparr>"
  by (simp add: userAccount_def)

lemma normalizeCAURL_Nil [simp]: "normalizeCAURL e [] = []"
  by (simp add: normalizeCAURL_def TrimSpace_def TrimSuffix_def)

lemma load_unregistered:
  assumes "calm e" and "find (userAccount u) (accounts w) = Some a"
    and "aRegistration a = []" and "aCAURL a = []"
    and "DecryptWith e (encryptionKey w) (aPrivateKeyPEM a) = Inr p" and "parseECPrivateKey e p = Inr k"
  shows "run_state (loadAcmeAccount e u) w =
    (Inr \<lparr>auEmail = aEmail a, auRegistration = None, auKey = k\<rparr>, later 2 w)"
  using assms
  by (simp add: loadAcmeAccount_def First_def run_simps invalidateRegistrationIfCAChanged_def Let_def
      acmeUserFromAccount_def eval_nat_numeral)

text \<open>
  Property C36. The account key survives storage (no interference, no faults): the user that createAcmeAccount
  returns, key and address included, is the one loadAcmeAccount reads back from the encrypted
  row, so later jobs of the user sign with the same key.
\<close>

theorem account_key_roundtrip:
  assumes "calm e" and "aead_laws e" and "key_laws e"
    and "run_state (createAcmeAccount e u m) w = (Inr user, w')"
  shows "run_state (loadAcmeAccount e u) w' = (Inr user, later 2 w')"
proof -
  obtain k p c where k: "encodeECPrivateKey e k = Inr p" "EncryptWith e (encryptionKey w) p (randBytes e (Suc (tick (later 1 w)))) = Inr c"
      "user = \<lparr>auEmail = m, auRegistration = None, auKey = k\<rparr>"
    and w': "encryptionKey w' = encryptionKey w"
      "\<exists>a. find (userAccount u) (accounts w') = Some a \<and> aEmail a = m \<and> aPrivateKeyPEM a = c
         \<and> aRegistration a = [] \<and> aCAURL a = []"
    using assms(1,4)
    by (auto simp: createAcmeAccount_def CreateAccount_def run_simps Let_def find_append no_account
        new_account split: sum.splits if_splits)
  show ?thesis
    using load_unregistered [OF assms(1)] w' k(3) decrypt_sealed [OF assms(2) k(2)]
      parse_encoded_key [OF assms(3) k(1)]
    by auto
qed

lemma key_laws_idle: "key_laws idleEnv"
  by (simp add: key_laws_def)

lemma account_key_roundtrip_witness:
  "\<exists>user w'. run_state (createAcmeAccount idleEnv 7 ''a@example.com'') (sampleWorld ''verified'' [] []) = (Inr user, w')
     \<and> auKey user = ''ECKEY'' \<and> run_state (loadAcmeAccount idleEnv 7) w' = (Inr user, later 2 w')"
proof -
  let ?w = "sampleWorld ''verified'' [] []" and ?u = "\<lparr>auEmail = ''a@example.com'', auRegistration = None, auKey = ''ECKEY''\<rparr>"
  have "encryptionKey ?w = ''0123456789abcdef0123456789abcdef''" by (simp add: sampleWorld_def)
  then obtain w' where run: "run_state (createAcmeAccount idleEnv 7 ''a@example.com'') ?w = (Inr ?u, w')"
    by (simp add: createAcmeAccount_def CreateAccount_def run_simps Let_def encodeECPrivateKey_def EncryptWith_def
        NewCipher_def del: encodeB64.simps append.simps)
  from account_key_roundtrip [OF calm_idleEnv aead_idle key_laws_idle run] run show ?thesis by auto
qed

section \<open>Panics of the library\<close>

lemma post_checked_returns:
  "(\<And>err s. Q (Returns (Inl err)) s) \<Longrightarrow> (\<And>x. post Q (f x)) \<Longrightarrow> post Q (checkedO (returns m) f)"
  by (auto simp: post_def run_simps split: prod.split sum.split)

lemma runACME_no_panic: "post (\<lambda>r w. r \<noteq> Panics) (runACMEWithContext e c run)"
proof -
  have "post (\<lambda>r w. r \<noteq> Panics)
      (checkedO (returns (requireACMEActive e c)) (\<lambda>_. State_Monad.return (Returns r)))" for r
    by (rule postI) (auto simp: run_simps split: prod.splits sum.splits)
  then have last: "post (\<lambda>r w. r \<noteq> Panics)
      (case fin of Some err \<Rightarrow> State_Monad.return (Returns (Inl err))
       | None \<Rightarrow> checkedO (returns (requireACMEActive e c)) (\<lambda>_. State_Monad.return (Returns r)))" for fin r
    by (cases fin) (simp_all add: post_return)
  have "post (\<lambda>r w. r \<noteq> Panics) (do {
       result \<leftarrow> checkedO (returns (requireACMEActive e c)) (\<lambda>_. run);
       case result of
         Panics \<Rightarrow> State_Monad.return Exits
       | Exits \<Rightarrow> State_Monad.return Exits
       | Returns r \<Rightarrow> do {
           done \<leftarrow> CtxErr e (jobCtx c);
           case done of
             Some err \<Rightarrow> State_Monad.return (Returns (Inl err))
           | None \<Rightarrow> checkedO (returns (requireACMEActive e c)) (\<lambda>_. State_Monad.return (Returns r))
         }})"
    by (rule post_bind, rule post_case_outcome) (auto intro!: post_return post_bind last)
  then show ?thesis
    unfolding runACMEWithContext_def by (auto intro: post_checked_returns)
qed

lemma job_later [simp]:
  "ctxErr (later n w) c = ctxErr w c" "activeJob (later n w) i t = activeJob w i t"
  by (auto simp: ctxErr_def activeJob_def split: ctx.split option.split)

lemma activeJob_ctx: "activeJob w i t \<Longrightarrow> ctxErr w (JobCtx t) = None"
  by (simp add: activeJob_def)

lemma run_runACME_calm:
  assumes "calm e" and "activeJob w i t"
  shows "run_state (requireACMEActive e (jobScopeCtx i t)) w = (Inr (), later 2 w)"
  using assms activeJob_ctx [OF assms(2)] by (simp add: run_requireACMEActive run_simps eval_nat_numeral)

lemma obtain_panic_exits:
  assumes "calm e" and "activeJob w i t" and "\<And>n. legoObtain e n domain = Panics"
  shows "fst (run_state (obtainWithContext e (jobScopeCtx i t) domain) w) = Exits"
  using assms
  by (simp add: obtainWithContext_def runACMEWithContext_def run_simps run_runACME_calm)

text \<open>A job of the sample domain whose user is registered with the configured CA.\<close>

definition jobWorld :: world where
  "jobWorld = (sampleWorld ''generating'' [] [(1, 1)])\<lparr>accounts :=
     [(sampleAccount letsEncryptURL)\<lparr>aPrivateKeyPEM := encodeB64 (''012345678901'' @ ''KEY'')\<rparr>]\<rparr>"

lemma jobWorld_active: "activeJob jobWorld 1 1"
  by (simp add: activeJob_def ctxErr_def jobWorld_def sampleWorld_def Minute_def)

lemma loadAcmeAccount_jobWorld:
  "run_state (loadAcmeAccount idleEnv 7) (later n jobWorld) =
     (Inr \<lparr>auEmail = ''a@example.com'', auRegistration = Some ''REG'', auKey = ''KEY''\<rparr>,
      later (n + 2) jobWorld)"
proof -
  have acc: "accounts jobWorld = [(sampleAccount letsEncryptURL)\<lparr>aPrivateKeyPEM := encodeB64 (''012345678901'' @ ''KEY'')\<rparr>]"
    "encryptionKey jobWorld = ''0123456789abcdef0123456789abcdef''"
    by (simp_all add: jobWorld_def sampleWorld_def)
  have "DecryptWith idleEnv ''0123456789abcdef0123456789abcdef''
      (encodeB64 (''012345678901'' @ ''KEY'')) = Inr ''KEY''"
    unfolding DecryptWith_def by (simp add: b64.roundtrip NewCipher_def gcmNonceSize_def idleEnv_def
        del: encodeB64.simps append.simps)
  then show ?thesis
    using normalize_le
    by (simp add: loadAcmeAccount_def First_def run_simps invalidateRegistrationIfCAChanged_def Let_def
        parseECPrivateKey_def acc userAccount_def sampleAccount_def acmeUserFromAccount_def letsEncryptURL_def
        del: encodeB64.simps append.simps)
qed

theorem acme_success_needs_active_job_witness:
  "\<exists>w'. run_state (ObtainCertificate idleEnv (jobScopeCtx 1 1) 7 ''example.com'' ''a@example.com'') jobWorld
       = (Returns (Inr sampleResource), w') \<and> activeJob w' 1 1"
proof -
  have jobCtx: "jobCtx (jobScopeCtx (Suc 0) 1) = JobCtx 1"
    by (simp add: WithCertJobScope_def)
  have "\<exists>w'. run_state (ObtainCertificate idleEnv (jobScopeCtx 1 1) 7 ''example.com'' ''a@example.com'') jobWorld
       = (Returns (Inr sampleResource), w')"
    using jobWorld_active loadAcmeAccount_jobWorld activeJob_ctx [OF jobWorld_active]
    by (simp add: ObtainCertificate_def prepareACME_def loadOrCreateAcmeAccount_def newLegoClient_def
        newDelegationDNSProvider_def newCloudflareClient_def Let_def prodCfg_fields ensureRegistered_def obtainWithContext_def
        runACMEWithContext_def run_simps run_runACME_calm jobCtx)
  with acme_success_needs_active_job [of idleEnv 1 1 7 "''example.com''" "''a@example.com''" jobWorld sampleResource]
  show ?thesis by blast
qed

section \<open>Shutdown budget\<close>

text \<open>
  Shutdown never waits longer for the cancelled jobs than a certificate operation
  may take, and for every sane propagation timeout waits that timeout plus 150 seconds when this
  is less.
\<close>

theorem drain_budget:
  "ACMEWorkDrainBudget e \<le> generatingTimeout e
   \<and> (PropagationTimeoutDuration (DNS (cfg e)) < 2 ^ 62 \<longrightarrow>
        ACMEWorkDrainBudget e =
          min (PropagationTimeoutDuration (DNS (cfg e)) + 150 * Second) (generatingTimeout e))"
proof -
  have "- (2 ^ 63) \<le> PropagationTimeoutDuration (DNS (cfg e))"
    using parseDurationDefault_range [of "5 * Minute" "PropagationTimeout (DNS (cfg e))"]
    by (simp add: PropagationTimeoutDuration_def Minute_def)
  then show ?thesis
    by (auto simp: ACMEWorkDrainBudget_def acmeLegoHTTPRoundBudget_def Let_def wrap64_def Minute_def
        Second_def)
qed

theorem drain_budget_witness: "ACMEWorkDrainBudget idleEnv = 450 * Second"
proof -
  have "PropagationTimeoutDuration (DNS (cfg idleEnv)) = 5 * Minute"
    by (simp add: PropagationTimeoutDuration_def parseDurationDefault_def prodCfg_def setDefaults_def go_simps)
  then show ?thesis using drain_budget [of idleEnv] by (simp add: Minute_def Second_def)
qed

text \<open>
  Every request of the library's client looks at the job first, whatever transport it was built on: after the job
  has ended nothing is sent.
\<close>

lemma ended_job_sends_nothing:
  assumes "ctxErr (settle e w) c = Some err"
  shows "\<exists>t. Transport (acmeHTTPClient e legoBase defaultTransport c given) = Some t
    \<and> run_state (t rc req) w = (Inl err, settle e w)"
  using assms by (simp add: acmeHTTPClient_def Let_def RoundTrip_def run_simps)

section \<open>Delegation records\<close>

text \<open>The state in which the critical section of replaceDelegationTXT starts.\<close>

definition sectionStart :: "env \<Rightarrow> acmeCtx \<Rightarrow> world \<Rightarrow> world" where
  "sectionStart e c w = settle e (snd (run_state (requireACMEActive e c) w))"

lemma during_fields [simp]:
  "delegation (duringSection e w) = delegation w" "cfCalls (duringSection e w) = cfCalls w"
  by (simp_all add: duringSection_def Let_def)

lemma setDelegation_fields [simp]:
  "cfCalls (setDelegation n r w) = cfCalls w"
  "delegationRecord (setDelegation n r w) m = (if m = n then r else delegationRecord w m)"
  by (simp_all add: setDelegation_def delegationRecord_def)

lemma getZoneID_sticks: "getZoneID e n cl = (z, cl') \<Longrightarrow> getZoneID e m cl' = (z, cl')"
  by (auto simp: getZoneID_def Let_def split: option.splits)

lemma createTXT_ok:
  "createTXT e c cl name content w = ((Inr r, cl'), w') \<Longrightarrow>
     cfCalls w' = CreateTXT name content # cfCalls w
     \<and> (\<forall>n. delegationRecord w' n = delegationRecord w n) \<and> (\<exists>z. fst (getZoneID e (tick w) cl) = Inr z)"
  by (auto simp: createTXT_def tickOn_def Let_def delegationRecord_def split: option.splits sum.splits prod.splits)

lemma deleteTXT_effect:
  "deleteTXT e c cl rid w = ((r, cl'), w') \<Longrightarrow> delegation w' = delegation w
    \<and> (ctxErr w (jobCtx c) = None \<longrightarrow> cl' = snd (getZoneID e (tick w) cl)
        \<and> cfCalls w' = (if \<exists>z. fst (getZoneID e (tick w) cl) = Inr z then [DeleteTXT rid] else []) @ cfCalls w)"
  by (auto simp: deleteTXT_def tickOn_def split: option.splits sum.splits prod.splits)

text \<open>
  A challenge record replaces the one before it: when replaceDelegationTXT succeeds, the target
  remembers the new record, no other target changes, and the API was asked for exactly the
  deletion of the previous record, if there was one, and then the new one. A job that has ended when
  the section starts fails and changes nothing.
\<close>

theorem replace_follows_newest:
  assumes "run_state (replaceDelegationTXT e c cl name content) w = ((r, cl'), w')"
    and "v = sectionStart e c w"
  shows "(\<forall>rid. r = Inr rid \<longrightarrow> delegationRecord w' name = rid
      \<and> (\<forall>n. n \<noteq> name \<longrightarrow> delegationRecord w' n = delegationRecord v n)
      \<and> cfCalls w' = CreateTXT name content #
          (if delegationRecord v name \<noteq> [] then [DeleteTXT (delegationRecord v name)] else []) @ cfCalls v)
    \<and> (scopeErr v c \<noteq> None \<longrightarrow> (\<exists>err. r = Inl err) \<and> w' \<in> {v, snd (run_state (requireACMEActive e c) w)})"
proof -
  obtain q u where q: "run_state (requireACMEActive e c) w = (q, u)" by fastforce
  show ?thesis
  proof (cases q)
    case (Inl err)
    then show ?thesis using assms(1) q by (auto simp: replaceDelegationTXT_def)
  next
    case (Inr x)
    then have run: "replaceSection e c cl name content v = ((r, cl'), w')"
      using assms q by (simp add: replaceDelegationTXT_def run_simps sectionStart_def)
    show ?thesis
    proof (cases "scopeErr v c")
      case (Some err)
      then show ?thesis using run by (auto simp: replaceSection_def)
    next
      case None
      then have alive: "ctxErr v (jobCtx c) = None" by (auto simp: scopeErr_def split: option.splits)
      obtain d cl1 v1 where del: "deleteTXT e c cl (delegationRecord v name) v = ((d, cl1), v1)"
        by (metis prod.exhaust)
      define old where "old \<longleftrightarrow> delegationRecord v name \<noteq> []"
      define cl2 where "cl2 = (if old then cl1 else cl)"
      define w2 where "w2 = duringSection e (if old then setDelegation name [] v1 else v)"
      note eff = deleteTXT_effect [OF del]
      have recs: "delegationRecord w2 n = delegationRecord v n" if "n \<noteq> name" for n
        using that eff by (auto simp: w2_def delegationRecord_def setDelegation_def)
      have sect: "replaceSection e c cl name content v =
          (case scopeErr w2 c of Some err \<Rightarrow> ((Inl err, cl2), w2)
           | None \<Rightarrow> (case createTXT e c cl2 name content w2 of
                ((Inl err, cl3), w3) \<Rightarrow> ((Inl err, cl3), w3)
              | ((Inr recordID, cl3), w3) \<Rightarrow> ((Inr recordID, cl3), setDelegation name recordID w3)))"
        by (cases "delegationRecord v name = []") (simp_all add: replaceSection_def None del old_def w2_def cl2_def Let_def
            cong: option.case_cong)
      have "cfCalls w2 = (if old then [DeleteTXT (delegationRecord v name)] else []) @ cfCalls v"
        if "fst (getZoneID e (tick w2) cl2) = Inr z" for z
      proof -
        obtain z' where "getZoneID e (tick v) cl = (z', cl1)" if old
          using eff alive by (metis prod.collapse)
        then show ?thesis
          using that eff alive getZoneID_sticks [of e "tick v" cl z' cl1 "tick w2"]
          by (auto simp: w2_def cl2_def)
      qed
      then show ?thesis
        using run None recs createTXT_ok [of e c cl2 name content w2]
        unfolding sect by (auto simp: old_def split: option.splits prod.splits sum.splits)
    qed
  qed
qed

definition sampleScope :: acmeCtx where
  "sampleScope = jobScopeCtx 1 1"

definition sampleClient :: cloudflareClient where
  "sampleClient = \<lparr>authZone = ''yourservice.com'', zoneOnce = None\<rparr>"

theorem replace_follows_newest_witness:
  "\<exists>cl w'. run_state (replaceDelegationTXT idleEnv sampleScope sampleClient ''t'' ''v'')
       (setDelegation ''t'' ''old'' (sampleWorld ''generating'' [] [(1, 1)])) = ((Inr ''rec1'', cl), w')
     \<and> delegationRecord w' ''t'' = ''rec1'' \<and> cfCalls w' = [CreateTXT ''t'' ''v'', DeleteTXT ''old'']"
proof -
  let ?w = "setDelegation ''t'' ''old'' (sampleWorld ''generating'' [] [(1, 1)])"
  have "activeJob ?w 1 1"
    by (simp add: activeJob_def ctxErr_def setDelegation_def sampleWorld_def Minute_def)
  then have req: "run_state (requireACMEActive idleEnv sampleScope) ?w = (Inr (), later 2 ?w)"
    unfolding sampleScope_def by (rule run_runACME_calm [OF calm_idleEnv])
  then have start: "sectionStart idleEnv sampleScope ?w = later 3 ?w"
    by (simp add: sectionStart_def run_simps)
  have sect: "fst (fst (replaceSection idleEnv sampleScope sampleClient ''t'' ''v'' (later 3 ?w))) = Inr ''rec1''"
    by (simp add: replaceSection_def scopeErr_def sampleScope_def WithCertJobScope_def activeJob_def
        ctxErr_def setDelegation_def sampleWorld_def Minute_def later_def delegationRecord_def
        deleteTXT_def createTXT_def getZoneID_def sampleClient_def tickOn_def duringSection_def settle_def Let_def)
  then obtain cl w' where run: "run_state (replaceDelegationTXT idleEnv sampleScope sampleClient ''t'' ''v'') ?w = ((Inr ''rec1'', cl), w')"
    using req by (cases "replaceSection idleEnv sampleScope sampleClient ''t'' ''v'' (later 3 ?w)" rule: prod.exhaust)
      (auto simp: replaceDelegationTXT_def run_simps)
  show ?thesis
    using replace_follows_newest [OF run start [symmetric]] run
    by (simp add: delegationRecord_def setDelegation_def later_def sampleWorld_def)
qed

text \<open>
  Cleaning up after an older job leaves the record of its successor alone: a record
  that is no longer the one the target remembers is released without an API call or a change.
\<close>

theorem stale_cleanup_harmless:
  assumes "recordIDs d tok = Some rid" and "targetNames d tok = Some name"
    and "delegationRecord (settle e w) name \<noteq> rid"
  shows "run_state (CleanUp e tok d) w =
    ((Inr (), d\<lparr>recordIDs := (recordIDs d)(tok := None), targetNames := (targetNames d)(tok := None)\<rparr>),
     settle e w)"
  using assms by (simp add: CleanUp_def releaseDelegationTXT_def run_simps)

definition sampleProvider :: provider where
  "sampleProvider = \<lparr>providerCtx = sampleScope, dnsClient = sampleClient,
     getDelegationTarget = delegationTargetLookup idleEnv 7,
     recordIDs = [''tok'' \<mapsto> ''old''], targetNames = [''tok'' \<mapsto> ''t'']\<rparr>"

theorem stale_cleanup_harmless_witness:
  "cfCalls (snd (run_state (CleanUp idleEnv ''tok'' sampleProvider)
     (setDelegation ''t'' ''new'' (sampleWorld ''generating'' [] [(1, 1)])))) = []"
  using stale_cleanup_harmless [of sampleProvider "''tok''" "''old''" "''t''" idleEnv
      "setDelegation ''t'' ''new'' (sampleWorld ''generating'' [] [(1, 1)])"]
  by (simp add: sampleProvider_def run_simps delegationRecord_def setDelegation_def sampleWorld_def)

end
