(* ===== verification/Dns_Verify.thy ===== *)
theory Dns_Verify
  imports Store_Inv
begin

text \<open>
  services/dns_verify.go: the check that the _acme-challenge CNAME of a domain points at its
  delegation target, and the expiry of an issued certificate. The resolver and the x509 parser
  are parameters; a context that ends during the lookup is one of the resolver's errors.
\<close>

definition challengeHost :: "string \<Rightarrow> string" where
  "challengeHost domain = ''_acme-challenge.'' @ TrimSuffix domain ''.''"

definition canonHost :: "unicode \<Rightarrow> string \<Rightarrow> string" where
  "canonHost u s = TrimSuffix (ToLower u s) ''.''"

definition VerifyChallengeCNAME :: "env \<Rightarrow> string \<Rightarrow> string \<Rightarrow> (world, err + unit) state" where
  "VerifyChallengeCNAME e domain expectedTarget = do {
     let host = challengeHost domain;
     let expected = canonHost (uni (osenv e)) expectedTarget;
     r \<leftarrow> act e (\<lambda>w. (lookupCNAME e (tick w) host, w));
     State_Monad.return (case r of
         Inl err \<Rightarrow> Inl (Wrap (''CNAME lookup failed for '' @ host @ '': '') err)
       | Inr cname \<Rightarrow>
           (let actual = canonHost (uni (osenv e)) cname in
            if actual \<noteq> expected
            then Inl (Errorf (''CNAME mismatch for '' @ host @ '': got '' @ Quote (uni (osenv e)) actual
                              @ '', expected '' @ Quote (uni (osenv e)) expected))
            else Inr ()))
   }"

definition ParseCertExpiry :: "env \<Rightarrow> bytes \<Rightarrow> err + time" where
  "ParseCertExpiry e certPEM = notAfter e certPEM"

lemma run_Verify [run_simps]:
  "run_state (VerifyChallengeCNAME e domain target) w =
     (case lookupCNAME e (Suc (tick w)) (challengeHost domain) of
        Inl err \<Rightarrow> Inl (Wrap (''CNAME lookup failed for '' @ challengeHost domain @ '': '') err)
      | Inr cname \<Rightarrow>
          if canonHost (uni (osenv e)) cname \<noteq> canonHost (uni (osenv e)) target
          then Inl (Errorf (''CNAME mismatch for '' @ challengeHost domain @ '': got ''
                 @ Quote (uni (osenv e)) (canonHost (uni (osenv e)) cname) @ '', expected ''
                 @ Quote (uni (osenv e)) (canonHost (uni (osenv e)) target)))
          else Inr (),
      settle e w)"
  by (simp add: VerifyChallengeCNAME_def run_simps Let_def split: sum.split)

text \<open>The verdict: the resolver knows the challenge host under the expected target.\<close>

definition cnameOK :: "env \<Rightarrow> nat \<Rightarrow> string \<Rightarrow> string \<Rightarrow> bool" where
  "cnameOK e n domain target \<longleftrightarrow>
     (\<exists>cname. lookupCNAME e n (challengeHost domain) = Inr cname
        \<and> canonHost (uni (osenv e)) cname = canonHost (uni (osenv e)) target)"

lemma Verify_ok:
  "fst (run_state (VerifyChallengeCNAME e domain target) w) = Inr ()
     \<longleftrightarrow> cnameOK e (Suc (tick w)) domain target"
  by (auto simp: run_simps cnameOK_def split: sum.splits)

lemma Verify_state: "snd (run_state (VerifyChallengeCNAME e domain target) w) = settle e w"
  by (simp add: run_simps)

lemma keeps_Verify [keeps_intros]: "stable e I \<Longrightarrow> keeps I (VerifyChallengeCNAME e domain target)"
  by (simp add: keeps_def Verify_state stable_settle)

end
