(* ===== verification/Http.thy ===== *)
theory Http
  imports Store_Inv
begin

text \<open>
  utils/response.go and utils/session.go, and the request helpers of controllers/helpers.go. A
  request carries what the handlers read from gin.Context: the value the authentication
  middleware stored under \<open>userID\<close>, the path parameters, the query and the decoded body (the
  binding library is outside the program: a body is the error text of a failed binding or the
  input). A response is the HTTP status and the payload.
\<close>

section \<open>Responses\<close>

definition CodeSuccess :: int where "CodeSuccess = 0"
definition CodeNeedLogin :: int where "CodeNeedLogin = 403"

definition StatusOK :: nat where "StatusOK = 200"
definition StatusNoContent :: nat where "StatusNoContent = 204"
definition StatusBadRequest :: nat where "StatusBadRequest = 400"
definition StatusUnauthorized :: nat where "StatusUnauthorized = 401"
definition StatusForbidden :: nat where "StatusForbidden = 403"
definition StatusNotFound :: nat where "StatusNotFound = 404"
definition StatusConflict :: nat where "StatusConflict = 409"
definition StatusTooManyRequests :: nat where "StatusTooManyRequests = 429"
definition StatusInternalServerError :: nat where "StatusInternalServerError = 500"
definition StatusNotImplemented :: nat where "StatusNotImplemented = 501"

lemmas status_defs =
  StatusOK_def StatusNoContent_def StatusBadRequest_def StatusUnauthorized_def StatusForbidden_def
  StatusNotFound_def StatusConflict_def StatusTooManyRequests_def StatusInternalServerError_def
  StatusNotImplemented_def CodeSuccess_def CodeNeedLogin_def

record 'd APIResponse =
  Code :: int
  Message :: string
  Data :: "'d option"
  Source :: string

type_synonym 'd response = "nat \<times> 'd APIResponse"

definition RespondNeedLogin :: "'d response" where
  "RespondNeedLogin =
     (StatusOK, \<lparr>Code = CodeNeedLogin, Message = ''Unauthorized, please login'', Data = None, Source = []\<rparr>)"

definition RespondSuccess :: "'d option \<Rightarrow> 'd response" where
  "RespondSuccess d = (StatusOK, \<lparr>Code = CodeSuccess, Message = [], Data = d, Source = []\<rparr>)"

definition RespondError :: "nat \<Rightarrow> string \<Rightarrow> 'd response" where
  "RespondError httpStatus message =
     (httpStatus, \<lparr>Code = 1, Message = message, Data = None, Source = []\<rparr>)"

definition RespondMessage :: "'d \<Rightarrow> 'd response" where
  "RespondMessage payload = (StatusOK, \<lparr>Code = CodeSuccess, Message = [], Data = Some payload, Source = []\<rparr>)"

definition succeeded :: "'d response \<Rightarrow> bool" where
  "succeeded r \<longleftrightarrow> Code (snd r) = CodeSuccess"

lemma response_codes [simp]:
  "\<not> succeeded RespondNeedLogin" "succeeded (RespondSuccess d)" "\<not> succeeded (RespondError s m)"
  by (simp_all add: succeeded_def RespondNeedLogin_def RespondSuccess_def RespondError_def status_defs)

section \<open>Requests\<close>

text \<open>
  A value of the session: the three numeric types the type switch names, or another type. The
  conversion of a float64 to uint is the hardware's and the constructor carries its result.
\<close>

datatype sessionVal = UintVal nat | IntVal int | Float64Val nat | OtherVal

text \<open>What ShouldBindJSON reports: an empty body, or another error with its text.\<close>

datatype bindError = BindEOF | BindError string

fun bindText :: "bindError \<Rightarrow> string" where
  "bindText BindEOF = ''EOF''"
| "bindText (BindError msg) = msg"

record 'i request =
  ctxUserID :: "sessionVal option"
  pathID :: string
  pathTargetID :: string
  pathJobID :: string
  query :: "string \<Rightarrow> string option"
  body :: "bindError + 'i"

definition GetUserID :: "'i request \<Rightarrow> uint option" where
  "GetUserID c =
     (case ctxUserID c of
        None \<Rightarrow> None
      | Some (UintVal v) \<Rightarrow> Some v
      | Some (IntVal v) \<Rightarrow> Some (to_uint64 v)
      | Some (Float64Val v) \<Rightarrow> Some v
      | Some OtherVal \<Rightarrow> None)"

definition DefaultQuery :: "'i request \<Rightarrow> string \<Rightarrow> string \<Rightarrow> string" where
  "DefaultQuery c key dv = (case query c key of None \<Rightarrow> dv | Some v \<Rightarrow> v)"

definition parseDomainID :: "string \<Rightarrow> uint option" where
  "parseDomainID raw =
     (case ParseUint raw of Inl _ \<Rightarrow> None | Inr i \<Rightarrow> if i = 0 then None else Some i)"

text \<open>The two guards: either the response that was sent, or the value.\<close>

definition requireUserID :: "'i request \<Rightarrow> 'd response + uint" where
  "requireUserID c = (case GetUserID c of None \<Rightarrow> Inl RespondNeedLogin | Some u \<Rightarrow> Inr u)"

definition ownedBy :: "uint \<Rightarrow> uint \<Rightarrow> DomainRow \<Rightarrow> bool" where
  "ownedBy i u d \<longleftrightarrow> dID d = i \<and> dUserID d = u"

definition getDomainOwned ::
  "env \<Rightarrow> 'i request \<Rightarrow> string \<Rightarrow> (world, 'd response + DomainRow) state" where
  "getDomainOwned e c domainIDStr =
     (case requireUserID c of
        Inl r \<Rightarrow> State_Monad.return (Inl r)
      | Inr userID \<Rightarrow>
          (case parseDomainID domainIDStr of
             None \<Rightarrow> State_Monad.return (Inl (RespondError StatusBadRequest ''Invalid domain id''))
           | Some domainID \<Rightarrow> do {
               r \<leftarrow> FirstDomain e (ownedBy domainID userID);
               State_Monad.return (case r of
                   Inl _ \<Rightarrow> Inl (RespondError StatusNotFound ''Domain not found'')
                 | Inr domain \<Rightarrow> Inr domain)
             }))"

section \<open>Lemmas\<close>

lemma parseDomainID_FormatUint: "0 < i \<Longrightarrow> i \<le> maxUint64 \<Longrightarrow> parseDomainID (FormatUint i) = Some i"
  by (simp add: parseDomainID_def ParseUint_FormatUint)

lemma parseDomainID_bounds: "parseDomainID s = Some i \<Longrightarrow> 0 < i \<and> i \<le> maxUint64"
  by (auto simp: parseDomainID_def dest: ParseUint_bound split: sum.splits if_splits)

lemma run_FirstDomain_gen:
  "run_state (FirstDomain e p) w =
     (case dbfail e (Suc (tick w)) of
        Some x \<Rightarrow> (Inl (dbErr x), settle e w)
      | None \<Rightarrow> (case find (\<lambda>d. live d \<and> p d) (domains (settle e w)) of
                   None \<Rightarrow> Inl ErrRecordNotFound | Some d \<Rightarrow> Inr d, settle e w))"
  by (simp add: store_defs run_simps split: option.split)

text \<open>
  What a granted guard means: the caller is logged in, the id is the one of the path, and the
  row is live and the caller's. Reading it changes nothing.
\<close>

lemma getDomainOwned_sound:
  assumes "run_state (getDomainOwned e c s) w = (Inr d, w')"
  shows "w' = settle e w \<and> GetUserID c = Some (dUserID d) \<and> parseDomainID s = Some (dID d)
    \<and> live d \<and> d \<in> set (domains w')"
  using assms
  by (auto simp: getDomainOwned_def requireUserID_def run_FirstDomain_gen ownedBy_def
      split: option.splits sum.splits dest!: find_SomeD)

lemma getDomainOwned_refused:
  assumes "run_state (getDomainOwned e c s) w = (Inl r, w')"
  shows "w' \<in> {w, settle e w} \<and> \<not> succeeded r"
  using assms
  by (auto simp: getDomainOwned_def requireUserID_def run_FirstDomain_gen
      split: option.splits sum.splits)

lemma keeps_getDomainOwned [keeps_intros]: "stable e I \<Longrightarrow> keeps I (getDomainOwned e c s)"
  using keeps_queries(3) [of e I]
  by (auto simp: getDomainOwned_def intro!: keeps_intros split: sum.split option.split)

end
