(* ===== verification/Cert_Job.thy ===== *)
theory Cert_Job
  imports Acme_Props Dns_Verify Http
begin

text \<open>
  The life of a certificate job, from controllers/certificate.go: StartCertJob, the worker
  goroutine, runCertJob and WaitCertJobs, and the request-side beginCertOperation. A goroutine
  that is started is recorded in \<open>spawned\<close>; its body is the operation \<open>worker\<close>.
\<close>

section \<open>The job\<close>

definition newCertRecord :: "DomainRow \<Rightarrow> UserRow \<Rightarrow> Resource \<Rightarrow> bytes \<Rightarrow> time \<Rightarrow> CertRow" where
  "newCertRecord domain user res encryptedKey expiresAt =
     \<lparr>cID = 0, cDomainID = dID domain, cUserID = uID user, cDomain = dDomain domain,
      cCertPEM = rCertificate res, cKeyPEM = encryptedKey, cIssuer = rIssuerCertificate res,
      cCertURL = rCertURL res, cCertStableURL = rCertStableURL res, cExpiresAt = expiresAt,
      cCreatedAt = 0, cUpdatedAt = 0\<rparr>"

text \<open>From the last look at the context on: expiry, encryption, saving.\<close>

definition storeResult ::
  "env \<Rightarrow> ctx \<Rightarrow> DomainRow \<Rightarrow> UserRow \<Rightarrow> bool \<Rightarrow> token \<Rightarrow> Resource \<Rightarrow> (world, unit) state" where
  "storeResult e c domain user autoRenew tok res = do {
     err \<leftarrow> CtxErr e c;
     case err of
       Some _ \<Rightarrow> rollbackCancelledCertJob e (dID domain) tok autoRenew
     | None \<Rightarrow> do {
         active \<leftarrow> isCertJobActive e (dID domain) tok;
         if \<not> active then State_Monad.return ()
         else do {
           expiresAt \<leftarrow> (case ParseCertExpiry e (rCertificate res) of
                            Inl _ \<Rightarrow> do { now \<leftarrow> Now e; State_Monad.return (addDays e now 90) }
                          | Inr t \<Rightarrow> State_Monad.return t);
           k \<leftarrow> Encrypt e (rPrivateKey res);
           case k of
             Inl _ \<Rightarrow> failCertJobIfActive e (dID domain) tok ''failed to encrypt private key'' autoRenew
           | Inr encryptedKey \<Rightarrow> do {
               s \<leftarrow> saveCertificateRecord e (dID domain) (newCertRecord domain user res encryptedKey expiresAt);
               case s of
                 Inl _ \<Rightarrow> failCertJobIfActive e (dID domain) tok ''failed to save certificate'' autoRenew
               | Inr _ \<Rightarrow> State_Monad.return ()
             }
         }
       }
   }"

definition acmeFailed ::
  "env \<Rightarrow> ctx \<Rightarrow> DomainRow \<Rightarrow> bool \<Rightarrow> token \<Rightarrow> err \<Rightarrow> (world, unit) state" where
  "acmeFailed e c domain autoRenew tok err = do {
     done \<leftarrow> (if errorsIs err Canceled \<or> errorsIs err DeadlineExceeded then State_Monad.return True
              else do { x \<leftarrow> CtxErr e c; State_Monad.return (x \<noteq> None) });
     if done then rollbackCancelledCertJob e (dID domain) tok autoRenew
     else failCertJobIfActive e (dID domain) tok (errorText err) autoRenew
   }"

text \<open>Obtain or renew: a job for a domain that has a certificate renews it, whatever was asked.\<close>

datatype acquired = Early unit | Acme "err + Resource"

definition acquireCertificate ::
  "env \<Rightarrow> ctx \<Rightarrow> DomainRow \<Rightarrow> UserRow \<Rightarrow> bool \<Rightarrow> bool \<Rightarrow> token \<Rightarrow> (world, acquired outcome) state" where
  "acquireCertificate e c domain user renew autoRenew tok = do {
     let acmeCtx = WithCertJobScope c (dID domain) tok;
     r \<leftarrow> First e certs (certOfDomain (dID domain));
     case r of
       Inl _ \<Rightarrow>
         if renew then do {
           _ \<leftarrow> failCertJobIfActive e (dID domain) tok ''no existing certificate to renew'' autoRenew;
           State_Monad.return (Returns (Early ()))
         } else do {
           x \<leftarrow> ObtainCertificate e acmeCtx (uID user) (dDomain domain) (uEmail user);
           State_Monad.return (map_outcome Acme x)
         }
     | Inr existing \<Rightarrow> do {
         b \<leftarrow> BuildCertResource e existing;
         case b of
           Inl buildErr \<Rightarrow> do {
             _ \<leftarrow> failCertJobIfActive e (dID domain) tok (errorText buildErr) autoRenew;
             State_Monad.return (Returns (Early ()))
           }
         | Inr resource \<Rightarrow> do {
             x \<leftarrow> RenewExistingCertificate e acmeCtx (uID user) (uEmail user) resource;
             State_Monad.return (map_outcome Acme x)
           }
       }
   }"

text \<open>The body of runCertJob, without its deferred recover.\<close>

definition certJobBody ::
  "env \<Rightarrow> ctx \<Rightarrow> DomainRow \<Rightarrow> UserRow \<Rightarrow> bool \<Rightarrow> bool \<Rightarrow> token \<Rightarrow> (world, unit outcome) state" where
  "certJobBody e c domain user renew autoRenew tok = do {
     err \<leftarrow> CtxErr e c;
     case err of
       Some _ \<Rightarrow> returns (rollbackCancelledCertJob e (dID domain) tok autoRenew)
     | None \<Rightarrow>
         if dCNameTarget domain = []
         then returns (failCertJobIfActive e (dID domain) tok
                         ''CNAME target not configured for this domain'' autoRenew)
         else do {
           v \<leftarrow> VerifyChallengeCNAME e (dDomain domain) (dCNameTarget domain);
           case v of
             Inl verr \<Rightarrow> returns (failCertJobIfActive e (dID domain) tok (errorText verr) autoRenew)
           | Inr _ \<Rightarrow> do {
               a \<leftarrow> acquireCertificate e c domain user renew autoRenew tok;
               case a of
                 Panics \<Rightarrow> State_Monad.return Panics
               | Exits \<Rightarrow> State_Monad.return Exits
               | Returns (Early _) \<Rightarrow> State_Monad.return (Returns ())
               | Returns (Acme (Inl aerr)) \<Rightarrow> returns (acmeFailed e c domain autoRenew tok aerr)
               | Returns (Acme (Inr res)) \<Rightarrow> returns (storeResult e c domain user autoRenew tok res)
             }
         }
   }"

text \<open>A panic of the body is recovered and recorded as a failure; False: the process exits.\<close>

definition runCertJob ::
  "env \<Rightarrow> ctx \<Rightarrow> DomainRow \<Rightarrow> UserRow \<Rightarrow> bool \<Rightarrow> bool \<Rightarrow> token \<Rightarrow> (world, bool) state" where
  "runCertJob e c domain user renew autoRenew tok = do {
     r \<leftarrow> certJobBody e c domain user renew autoRenew tok;
     case r of
       Returns _ \<Rightarrow> State_Monad.return True
     | Panics \<Rightarrow> do {
         _ \<leftarrow> failCertJobIfActive e (dID domain) tok
               ''internal error during certificate operation'' autoRenew;
         State_Monad.return True
       }
     | Exits \<Rightarrow> State_Monad.return False
   }"

section \<open>Starting and ending a job\<close>

text \<open>None: beginCertJob blocks for ever and nothing is started.\<close>

definition StartCertJob ::
  "env \<Rightarrow> DomainRow \<Rightarrow> UserRow \<Rightarrow> bool \<Rightarrow> bool \<Rightarrow> (world, unit option) state" where
  "StartCertJob e domain user renew autoRenew = do {
     t \<leftarrow> beginCertJob e (dID domain);
     case t of
       None \<Rightarrow> State_Monad.return None
     | Some tok \<Rightarrow> do {
         _ \<leftarrow> act e (\<lambda>w. ((), w\<lparr>jobWG := Suc (jobWG w),
                spawned := spawned w @ [\<lparr>jobToken = tok, jobDomain = domain, jobUser = user,
                                         jobRenew = renew, jobAutoRenew = autoRenew\<rparr>]\<rparr>));
         State_Monad.return (Some ())
       }
   }"

definition doneJob :: "world \<Rightarrow> world" where
  "doneJob w = w\<lparr>jobWG := jobWG w - 1\<rparr>"

text \<open>
  The goroutine: the deferred calls run in the reverse order of their defer statements, the slot
  first, then the registry entry, the wait group and the worker counter. When the process exits
  none of them runs.
\<close>

definition worker :: "env \<Rightarrow> jobArgs \<Rightarrow> (world, bool) state" where
  "worker e j = do {
     _ \<leftarrow> beginDomainWorker e (dID (jobDomain j));
     ok \<leftarrow> runCertJob e (JobCtx (jobToken j)) (jobDomain j) (jobUser j) (jobRenew j) (jobAutoRenew j)
            (jobToken j);
     if \<not> ok then State_Monad.return False
     else do {
       _ \<leftarrow> releaseCertJobSlot e;
       _ \<leftarrow> releaseCertJob e (dID (jobDomain j)) (jobToken j);
       _ \<leftarrow> act e (\<lambda>w. ((), doneJob w));
       _ \<leftarrow> endDomainWorker e (dID (jobDomain j));
       State_Monad.return True
     }
   }"

text \<open>
  The goroutine behind the wait and the timer race: when all jobs are done and the timer has
  fired as well, the select may take either branch.
\<close>

definition WaitCertJobs :: "env \<Rightarrow> duration \<Rightarrow> (world, bool) state" where
  "WaitCertJobs e timeout = act e (\<lambda>w. (jobWG w = 0 \<and> \<not> timerFires e (tick w), w))"

section \<open>Beginning an operation from a request\<close>

text \<open>
  The response that was sent, or the user for whom the job is to be started; None when
  lockDomainForCertJob blocks. First the part from the lock on.
\<close>

definition lockAndAcquire ::
  "env \<Rightarrow> DomainRow \<Rightarrow> bool \<Rightarrow> (world, ('d response + UserRow) option) state" where
  "lockAndAcquire e domain renew = do {
     l \<leftarrow> lockDomainForCertJob e domain renew;
     case l of
       None \<Rightarrow> State_Monad.return None
     | Some (Inl err) \<Rightarrow> State_Monad.return (Some (Inl (
         if errorsIs err ErrRecordNotFound
         then RespondError StatusNotFound ''No certificate found for this domain''
         else if errorsIs err errCertOperationInProgress
         then RespondError StatusConflict ''Certificate operation already in progress for this domain''
         else RespondError StatusInternalServerError ''Failed to update domain status'')))
     | Some (Inr user) \<Rightarrow> do {
         slot \<leftarrow> tryAcquireCertJobSlot e;
         if \<not> slot then do {
           _ \<leftarrow> rollbackGeneratingDomain e (dID domain) [] True;
           State_Monad.return (Some (Inl (RespondError StatusTooManyRequests
             ''Too many certificate operations in progress; try again later'')))
         } else State_Monad.return (Some (Inr user))
       }
   }"

definition markIfFirst :: "env \<Rightarrow> DomainRow \<Rightarrow> bool \<Rightarrow> (world, err + unit) state" where
  "markIfFirst e domain renew =
     (if renew then State_Monad.return (Inr ())
      else do {
        cert \<leftarrow> loadCertificate e (dID domain);
        if cert = None \<and> dStatus domain \<noteq> ''verified''
        then markDomainCnameVerified e (dID domain)
        else State_Monad.return (Inr ())
      })"

definition beginCertOperation ::
  "env \<Rightarrow> DomainRow \<Rightarrow> bool \<Rightarrow> (world, ('d response + UserRow) option) state" where
  "beginCertOperation e domain renew =
     (if dCNameTarget domain = []
      then State_Monad.return (Some (Inl (RespondError StatusBadRequest
             ''CNAME target not configured for this domain'')))
      else do {
        v \<leftarrow> VerifyChallengeCNAME e (dDomain domain) (dCNameTarget domain);
        case v of
          Inl err \<Rightarrow> State_Monad.return (Some (Inl (RespondError StatusBadRequest (errorText err))))
        | Inr _ \<Rightarrow> do {
            m \<leftarrow> markIfFirst e domain renew;
            case m of
              Inl _ \<Rightarrow> State_Monad.return (Some (Inl (RespondError StatusInternalServerError
                        ''Failed to update domain status'')))
            | Inr _ \<Rightarrow> lockAndAcquire e domain renew
          }
      })"

end
