(* ===== verification/Cert_Job_Props.thy ===== *)
theory Cert_Job_Props
  imports Cert_Job
begin

text \<open>
  Properties of certificate jobs: what a job may write, that it ends with its domain out of the
  generating status, what it stores, and what its worker gives back.
\<close>

section \<open>Frames\<close>

text \<open>A predicate that does not look at the ACME accounts.\<close>

definition accountFree :: "(world \<Rightarrow> bool) \<Rightarrow> bool" where
  "accountFree I \<longleftrightarrow> (\<forall>w as n. I (w\<lparr>accounts := as\<rparr>) = I w \<and> I (w\<lparr>accountSeq := n\<rparr>) = I w)"

lemma accounts_update_eq: "accounts_update f w = w\<lparr>accounts := f (accounts w)\<rparr>"
  by (cases w) simp

lemma keeps_UpdatesAccount:
  assumes "stable e I" and "accountFree I"
  shows "keeps I (UpdatesAccount e p f)"
  unfolding UpdatesAccount_def Updates_def
  by (intro keeps_db assms(1))
    (use assms(2) in \<open>simp add: accountFree_def accounts_update_eq [of "map _"]\<close>)

lemma keeps_CreateAccount:
  assumes "stable e I" and "accountFree I"
  shows "keeps I (CreateAccount e a)"
  unfolding CreateAccount_def
  by (intro keeps_db assms(1)) (use assms(2) in \<open>simp add: accountFree_def Let_def\<close>)

lemma keeps_accounts:
  assumes "stable e I" and "accountFree I"
  shows "keeps I (loadAcmeAccount e u)" and "keeps I (loadAcmeRegistration e u)"
    and "keeps I (createAcmeAccount e u email)" and "keeps I (loadOrCreateAcmeAccount e u email)"
    and "keeps I (saveAcmeRegistration e u reg)"
proof -
  have inv: "keeps I (invalidateRegistrationIfCAChanged e a)" for a
    unfolding invalidateRegistrationIfCAChanged_def Let_def
    by (intro keeps_intros keeps_UpdatesAccount assms)
  show load: "keeps I (loadAcmeAccount e u)"
    unfolding loadAcmeAccount_def acmeUserFromAccount_def
    by (intro keeps_intros keeps_queries inv assms)
  show "keeps I (loadAcmeRegistration e u)"
    unfolding loadAcmeRegistration_def by (intro keeps_intros keeps_queries inv assms)
  show create: "keeps I (createAcmeAccount e u email)"
    unfolding createAcmeAccount_def
    by (intro keeps_intros keeps_read keeps_CreateAccount load assms)
  show "keeps I (loadOrCreateAcmeAccount e u email)"
    unfolding loadOrCreateAcmeAccount_def by (intro keeps_intros load create)
  show "keeps I (saveAcmeRegistration e u reg)"
    unfolding saveAcmeRegistration_def by (intro keeps_intros keeps_UpdatesAccount assms)
qed

lemma keeps_runACME:
  assumes "stable e I" and "keeps I run"
  shows "keeps I (runACMEWithContext e c run)"
  unfolding runACMEWithContext_def
  by (intro keeps_intros keeps_registry_reads assms)

lemma keeps_acme:
  assumes "stable e I" and "accountFree I"
  shows "keeps I (ObtainCertificate e c u d email)"
    and "keeps I (RenewExistingCertificate e c u email res)"
proof -
  have prep: "keeps I (prepareACME e c u email)"
    unfolding prepareACME_def newLegoClient_def ensureRegistered_def adoptRegistration_def
    by (intro keeps_intros keeps_read keeps_accounts assms)
  show obt: "keeps I (ObtainCertificate e c u d email)" for d
    unfolding ObtainCertificate_def obtainWithContext_def
    by (intro keeps_intros keeps_runACME keeps_read prep assms)
  show "keeps I (RenewExistingCertificate e c u email res)"
    unfolding RenewExistingCertificate_def renewWithContext_def
    by (intro keeps_intros keeps_runACME keeps_read prep obt assms)
qed

lemma keeps_Build: "stable e I \<Longrightarrow> keeps I (BuildCertResource e cert)"
  unfolding BuildCertResource_def by (intro keeps_intros)

text \<open>
  A job keeps every predicate that its status updates keep.
\<close>

lemma keeps_runCertJob:
  assumes "stable e I" and "accountFree I"
    and fail: "\<And>msg. keeps I (failCertJobIfActive e (dID domain) t msg ar)"
    and roll: "keeps I (rollbackCancelledCertJob e (dID domain) t ar)"
    and store: "\<And>res. keeps I (storeResult e c domain user ar t res)"
  shows "keeps I (runCertJob e c domain user renew ar t)"
proof -
  have acq: "keeps I (acquireCertificate e c domain user renew ar t)"
    unfolding acquireCertificate_def
    by (intro keeps_intros keeps_queries keeps_acme keeps_Build fail assms)
  have failed: "keeps I (acmeFailed e c domain ar t err)" for err
    unfolding acmeFailed_def by (intro keeps_intros keeps_registry_reads fail roll assms)
  show ?thesis
    unfolding runCertJob_def certJobBody_def
    by (intro keeps_intros keeps_registry_reads acq failed fail roll store assms)
      (auto split: acquired.splits sum.splits intro!: keeps_intros failed store)
qed

section \<open>Invariants\<close>

lemma accountFree_wf: "accountFree wf_store"
  by (simp add: accountFree_def wf_store_def)

lemma keeps_wf_storeResult:
  assumes "stable e wf_store"
  shows "keeps wf_store (storeResult e c domain user ar t res)"
  unfolding storeResult_def Let_def
  by (intro keeps_intros keeps_registry_reads keeps_queries keeps_wf_fail keeps_wf_save assms)

text \<open>
  A whole job keeps the store well formed, under every interference that does and
  every pattern of faults: unique ids and names, at most one certificate per domain, a status
  from the five of the model, and the time of generating wherever the status is generating.
\<close>

theorem runCertJob_keeps_store:
  assumes "stable e wf_store" and "wf_store w"
  shows "wf_store (snd (run_state (runCertJob e c domain user renew ar t) w))"
  by (rule keepsD [OF keeps_runCertJob [OF assms(1) accountFree_wf] assms(2)])
    (intro keeps_wf_fail keeps_wf_storeResult assms(1))+

theorem runCertJob_keeps_store_witness:
  "wf_store (snd (run_state (runCertJob idleEnv (JobCtx 1) (sampleDomain ''generating'') sampleUser
     True True 1) (sampleWorld ''generating'' [sampleCert] [(1, 1)])))"
  by (rule runCertJob_keeps_store) (simp_all add: stable_calm_env statuses_def)

section \<open>Superseded jobs\<close>

text \<open>
  The state of a job that was replaced or cancelled: its token is not active, some job is still
  registered for the domain, and the two tables satisfy \<open>P\<close>.
\<close>

definition superseded ::
  "uint \<Rightarrow> token \<Rightarrow> (DomainRow list \<Rightarrow> CertRow list \<Rightarrow> bool) \<Rightarrow> world \<Rightarrow> bool" where
  "superseded i t P w \<longleftrightarrow> \<not> activeJob w i t \<and> inflight w i \<and> P (domains w) (certs w)"

lemma accountFree_superseded: "accountFree (superseded i t P)"
  by (simp add: accountFree_def superseded_def inflight_def)

lemma superseded_silent:
  assumes "stable e (superseded i t P)" and "dID domain = i"
  shows "keeps (superseded i t P) (failCertJobIfActive e i t msg ar)"
    and "keeps (superseded i t P) (rollbackCancelledCertJob e i t ar)"
    and "keeps (superseded i t P) (storeResult e c domain user ar t res)"
proof -
  let ?I = "superseded i t P"
  have settles: "?I (settle e w)" if "?I w" for w
    using assms(1) that by (rule stable_settle)
  have off: "\<not> activeJob (settle e w) i t" "inflight (settle e w) i" if "?I w" for w
    using settles [OF that] by (simp_all add: superseded_def)
  show fail: "keeps ?I (failCertJobIfActive e i t msg ar)" for msg
    using settles off by (simp add: keeps_def failCertJobIfActive_def run_simps)
  show roll: "keeps ?I (rollbackCancelledCertJob e i t ar)"
    using settles off by (simp add: keeps_def rollbackCancelledCertJob_def run_simps)
  show "keeps ?I (storeResult e c domain user ar t res)"
    using settles off keepsD [OF roll] assms(2)
    by (simp add: keeps_def storeResult_def run_simps split: option.split)
qed

text \<open>
  Property C6. A job that has been superseded or cancelled writes neither to the domains nor to the
  certificates: while its token stays inactive and the domain keeps a registered job, every
  property \<open>P\<close> of the two tables that the other goroutines maintain still holds after the whole
  job, whatever the resolver, the CA and the database answer.
\<close>

theorem superseded_job_writes_nothing:
  assumes "stable e (superseded i t P)" and "dID domain = i" and "superseded i t P w"
  shows "superseded i t P (snd (run_state (runCertJob e c domain user renew ar t) w))"
  by (rule keepsD [OF keeps_runCertJob [OF assms(1) accountFree_superseded] assms(3)])
    (use superseded_silent [OF assms(1,2)] assms(2) in auto)

theorem superseded_job_writes_nothing_witness:
  "certs (snd (run_state (runCertJob idleEnv (JobCtx 9) (sampleDomain ''generating'') sampleUser
     True True 9) (sampleWorld ''generating'' [sampleCert] [(1, 1)]))) = [sampleCert]"
proof -
  let ?P = "\<lambda>ds cs. cs = [sampleCert]" and ?w = "sampleWorld ''generating'' [sampleCert] [(1, 1)]"
  have "stable idleEnv (superseded 1 9 ?P)"
    by (rule stable_calm_env) (simp_all add: superseded_def inflight_def)
  moreover have "superseded 1 9 ?P ?w" by (simp add: superseded_def activeJob_def inflight_def)
  ultimately show ?thesis
    using superseded_job_writes_nothing [of idleEnv 1 9 ?P "sampleDomain ''generating''" ?w]
    by (simp add: superseded_def)
qed

section \<open>What a job stores\<close>

lemma EncryptWith_ok:
  "length key = 32 \<Longrightarrow> \<exists>b. rnd = Some b \<Longrightarrow> \<exists>c. EncryptWith e key p rnd = Inr c"
  by (auto simp: EncryptWith_def NewCipher_def Let_def)

text \<open>Storing the result without interference or faults: up to four steps, then the save.\<close>

lemma run_storeResult:
  assumes "calm e" and "activeJob w i t" and "dID domain = i"
    and "x = (case notAfter e (rCertificate res) of Inl _ \<Rightarrow> addDays e (clock w) 90 | Inr x \<Rightarrow> x)"
  shows "\<exists>n. run_state (storeResult e (JobCtx t) domain user ar t res) w =
    (case EncryptWith e (encryptionKey w) (rPrivateKey res) (randBytes e (n + tick w)) of
       Inl _ \<Rightarrow> run_state (failCertJobIfActive e i t ''failed to encrypt private key'' ar) (later n w)
     | Inr k \<Rightarrow> (case run_state (saveCertificateRecord e i (newCertRecord domain user res k x)) (later n w) of
           (Inl _, v) \<Rightarrow> run_state (failCertJobIfActive e i t ''failed to save certificate'' ar) v
         | (Inr _, v) \<Rightarrow> ((), v)))"
proof (cases "notAfter e (rCertificate res)")
  case (Inl err)
  then show ?thesis
    using assms activeJob_ctx [OF assms(2)]
    by (intro exI [of _ "Suc (Suc (Suc (Suc 0)))"])
      (simp add: storeResult_def run_simps ParseCertExpiry_def split: sum.split prod.split)
next
  case (Inr y)
  then show ?thesis
    using assms activeJob_ctx [OF assms(2)]
    by (intro exI [of _ "Suc (Suc (Suc 0))"])
      (simp add: storeResult_def run_simps ParseCertExpiry_def split: sum.split prod.split)
qed

lemma stores_result:
  assumes "calm e" and "wf_store w" and "activeJob w i t" and "dID domain = i"
    and "aead_laws e" and "\<forall>n. \<exists>b. randBytes e n = Some b" and "length (encryptionKey w) = 32"
    and "snd (run_state (storeResult e (JobCtx t) domain user ar t res) w) = w'"
  shows "\<exists>c. certOf i w' = Some c \<and> cCertPEM c = rCertificate res \<and> cIssuer c = rIssuerCertificate res
    \<and> cExpiresAt c = (case notAfter e (rCertificate res) of Inl _ \<Rightarrow> addDays e (clock w) 90 | Inr x \<Rightarrow> x)
    \<and> fst (run_state (Decrypt e (cKeyPEM c)) w') = Inr (rPrivateKey res)
    \<and> rowOf i w' = map_option (stamp (clock w) savedCols) (rowOf i w)
    \<and> (\<forall>j. j \<noteq> i \<longrightarrow> certOf j w' = certOf j w \<and> rowOf j w' = rowOf j w)"
proof -
  define x where "x = (case notAfter e (rCertificate res) of Inl _ \<Rightarrow> addDays e (clock w) 90 | Inr x \<Rightarrow> x)"
  obtain n where run: "run_state (storeResult e (JobCtx t) domain user ar t res) w =
    (case EncryptWith e (encryptionKey w) (rPrivateKey res) (randBytes e (n + tick w)) of
       Inl _ \<Rightarrow> run_state (failCertJobIfActive e i t ''failed to encrypt private key'' ar) (later n w)
     | Inr k \<Rightarrow> (case run_state (saveCertificateRecord e i (newCertRecord domain user res k x)) (later n w) of
           (Inl _, v) \<Rightarrow> run_state (failCertJobIfActive e i t ''failed to save certificate'' ar) v
         | (Inr _, v) \<Rightarrow> ((), v)))"
    using run_storeResult [OF assms(1,3,4) x_def] by blast
  obtain k where k: "EncryptWith e (encryptionKey w) (rPrivateKey res) (randBytes e (n + tick w)) = Inr k"
    using EncryptWith_ok [OF assms(7)] assms(6) by blast
  define c where "c = newCertRecord domain user res k x"
  obtain q v where save: "run_state (saveCertificateRecord e i c) (later n w) = (q, v)" by fastforce
  have wf: "wf_store (later n w)" using assms(2) by (simp add: wf_store_def)
  have id: "cDomainID c = i" using assms(4) by (simp add: c_def newCertRecord_def)
  note S = save_activates [OF assms(1) wf id save]
  have v: "v = w'" using assms(8) run k save S by (simp add: c_def [symmetric])
  have "DecryptWith e (encryptionKey w) k = Inr (rPrivateKey res)"
    using decrypt_sealed [OF assms(5) k] .
  then show ?thesis
    using S id v assms(1)
    by (auto simp: storedCert_def c_def newCertRecord_def x_def run_simps split: option.split)
qed

text \<open>
  From the CA's answer to the store (no interference, no faults): an active job
  stores the certificate with its chain under the domain with the expiry read from it, or 90 days when it
  cannot be parsed; the stored private key decrypts to the one the CA returned; and the domain
  becomes active with its failure record cleared.
\<close>

theorem job_stores_result:
  assumes "calm e" and "wf_store w" and "activeJob w i t" and "dID domain = i"
    and "aead_laws e" and "\<forall>n. \<exists>b. randBytes e n = Some b" and "length (encryptionKey w) = 32"
    and "snd (run_state (storeResult e (JobCtx t) domain user ar t res) w) = w'"
  shows "\<exists>c. certOf i w' = Some c \<and> cCertPEM c = rCertificate res \<and> cIssuer c = rIssuerCertificate res
    \<and> cExpiresAt c = (case notAfter e (rCertificate res) of Inl _ \<Rightarrow> addDays e (clock w) 90 | Inr x \<Rightarrow> x)
    \<and> fst (run_state (Decrypt e (cKeyPEM c)) w') = Inr (rPrivateKey res)
    \<and> rowOf i w' = map_option (stamp (clock w) savedCols) (rowOf i w)
    \<and> (\<forall>j. j \<noteq> i \<longrightarrow> certOf j w' = certOf j w \<and> rowOf j w' = rowOf j w)"
  using stores_result [OF assms] .

lemma sample_active: "activeJob (sampleWorld st cs [(1, 1)]) 1 1"
  by (simp add: activeJob_def ctxErr_def sampleWorld_def Minute_def)

theorem job_stores_result_witness:
  "\<exists>c. certOf 1 (snd (run_state (storeResult idleEnv (JobCtx 1) (sampleDomain ''generating'') sampleUser
       True 1 sampleResource) (sampleWorld ''generating'' [sampleCert] [(1, 1)]))) = Some c
     \<and> cCertPEM c = ''CERT2'' \<and> cExpiresAt c = 100 * Day"
proof -
  let ?w = "sampleWorld ''generating'' [sampleCert] [(1, 1)]"
  have "wf_store ?w" by (simp add: statuses_def)
  moreover have "length (encryptionKey ?w) = 32" by (simp add: sampleWorld_def)
  ultimately show ?thesis
    using job_stores_result [OF calm_idleEnv _ sample_active _ aead_idle _ _ refl,
        of "''generating''" "[sampleCert]" "sampleDomain ''generating''" sampleUser True sampleResource]
    by (auto simp: sampleResource_def)
qed

section \<open>How a job ends\<close>

text \<open>The errors that runCertJob takes for a cancellation.\<close>

definition cancelLike :: "err \<Rightarrow> bool" where
  "cancelLike err \<longleftrightarrow> errorsIs err Canceled \<or> errorsIs err DeadlineExceeded"

text \<open>The tables, the registry and the contexts are those of \<open>w\<close>.\<close>

definition sameJob :: "world \<Rightarrow> world \<Rightarrow> bool" where
  "sameJob w v \<longleftrightarrow> domains v = domains w \<and> certs v = certs w \<and> jobs v = jobs w \<and> ctxs v = ctxs w
     \<and> clock v = clock w \<and> domainSeq v = domainSeq w \<and> certSeq v = certSeq w"

lemma sameJob_later [simp]: "sameJob w (later n w)" "sameJob w w"
  by (simp_all add: sameJob_def)

lemma sameJob_use:
  assumes "sameJob w v"
  shows "rowOf i v = rowOf i w" and "hasCertRow i v = hasCertRow i w" and "certOf i v = certOf i w"
    and "activeJob v i t = activeJob w i t" and "ctxErr v c = ctxErr w c" and "wf_store v = wf_store w"
    and "inflight v i = inflight w i"
  using assms rowOf_same [of v w i] hasCertRow_same [of v w i] certOf_same [of v w i]
    activeJob_same [of v w i t] ctxErr_same [of v w c]
  by (simp_all add: sameJob_def wf_store_def inflight_def)

lemma keeps_sameJob_acme:
  assumes "calm e"
  shows "keeps (sameJob w) (ObtainCertificate e c u d email)"
    and "keeps (sameJob w) (RenewExistingCertificate e c u email res)"
    and "keeps (sameJob w) (BuildCertResource e cert)"
proof -
  have "stable e (sameJob w)" using assms by (rule stable_calm_env) (simp add: sameJob_def)
  moreover have "accountFree (sameJob w)" by (simp add: accountFree_def sameJob_def)
  ultimately show "keeps (sameJob w) (ObtainCertificate e c u d email)"
    "keeps (sameJob w) (RenewExistingCertificate e c u email res)"
    "keeps (sameJob w) (BuildCertResource e cert)"
    by (auto intro: keeps_acme keeps_Build)
qed

text \<open>Out of the generating status.\<close>

definition settled :: "uint \<Rightarrow> world \<Rightarrow> bool" where
  "settled i w \<longleftrightarrow> (\<exists>d. rowOf i w = Some d \<and> dStatus d \<noteq> ''generating'')"

text \<open>
  The end of a job: active with a certificate in the store, or in error; no longer generating, and
  without the time since when it was.
\<close>

definition ended :: "uint \<Rightarrow> world \<Rightarrow> bool" where
  "ended i w \<longleftrightarrow> (\<exists>d. rowOf i w = Some d \<and> dGeneratingSince d = None
     \<and> (dStatus d = ''active'' \<and> hasCertRow i w \<or> dStatus d = ''error''))"

lemma fail_ends:
  assumes "calm e" and "activeJob w i t" and "rowOf i w = Some d"
  shows "ended i (snd (run_state (failCertJobIfActive e i t msg ar) w))"
proof -
  let ?w = "snd (run_state (failCertJob e i msg ar) (later 1 w))"
  have run: "run_state (failCertJobIfActive e i t msg ar) w = run_state (failCertJob e i msg ar) (later 1 w)"
    using assms(1,2) by (simp add: failCertJobIfActive_def run_simps)
  have "rowOf i (later 1 w) = Some d" using assms(3) by simp
  from failCertJob_effect [OF assms(1) this refl, of msg ar]
  obtain d' where d': "rowOf i ?w = Some d'" "dGeneratingSince d' = None"
      "dStatus d' = (if ar \<and> hasCertRow i (later 1 w) then ''active'' else ''error'')"
    and "certs ?w = certs (later 1 w)" by auto
  then have "hasCertRow i ?w = hasCertRow i (later 1 w)" by (intro hasCertRow_same)
  then show ?thesis unfolding run ended_def using d' by simp
qed

lemma store_ends:
  assumes "calm e" and "wf_store w" and "activeJob w i t" and "rowOf i w = Some d" and "dID domain = i"
  shows "ended i (snd (run_state (storeResult e (JobCtx t) domain user ar t res) w))"
proof -
  have wf: "wf_store (later n w)" for n using assms(2) by (simp add: wf_store_def)
  define x where "x = (case notAfter e (rCertificate res) of Inl _ \<Rightarrow> addDays e (clock w) 90 | Inr x \<Rightarrow> x)"
  obtain n where run: "run_state (storeResult e (JobCtx t) domain user ar t res) w =
    (case EncryptWith e (encryptionKey w) (rPrivateKey res) (randBytes e (n + tick w)) of
       Inl _ \<Rightarrow> run_state (failCertJobIfActive e i t ''failed to encrypt private key'' ar) (later n w)
     | Inr k \<Rightarrow> (case run_state (saveCertificateRecord e i (newCertRecord domain user res k x)) (later n w) of
           (Inl _, v) \<Rightarrow> run_state (failCertJobIfActive e i t ''failed to save certificate'' ar) v
         | (Inr _, v) \<Rightarrow> ((), v)))"
    using run_storeResult [OF assms(1,3,5) x_def] by blast
  show ?thesis
  proof (cases "EncryptWith e (encryptionKey w) (rPrivateKey res) (randBytes e (n + tick w))")
    case (Inl err)
    then show ?thesis using run fail_ends [OF assms(1), of "later n w" i t] assms(3,4) by simp
  next
    case (Inr k)
    let ?c = "newCertRecord domain user res k x"
    obtain q v where save: "run_state (saveCertificateRecord e i ?c) (later n w) = (q, v)" by fastforce
    have "cDomainID ?c = i" using assms(5) by (simp add: newCertRecord_def)
    note save_activates [OF assms(1) wf this save]
    then show ?thesis
      using run Inr save assms(4) by (auto simp: ended_def stamp_def savedCols_def hasCertRow_def)
  qed
qed

lemma map_Acme_not_early [simp]: "map_outcome Acme x \<noteq> Returns (Early ())"
  by (cases x) simp_all

lemma acquire_calm:
  assumes "calm e" and "activeJob w i t" and "rowOf i w = Some d" and "dID domain = i"
    and "run_state (acquireCertificate e (JobCtx t) domain user renew ar t) w = (a, v)"
  shows "if a = Returns (Early ()) then ended i v else sameJob w v"
proof -
  let ?c = "WithCertJobScope (JobCtx t) i t"
  have early: "ended i q"
    if "run_state (failCertJobIfActive e i t msg ar) u = (y, q)" "sameJob w u" for msg u y q
    using fail_ends [OF assms(1), of u i t d msg ar] assms(2,3) sameJob_use [OF that(2)] that(1) by simp
  have trans: "sameJob w v'" if "sameJob u v'" "sameJob w u" for u v'
    using that by (simp add: sameJob_def)
  have keep: "sameJob w v'" if "keeps (sameJob w) m" "sameJob w u" "run_state m u = (x, v')"
    for m :: "(world, 'x) state" and u x v'
    using keepsD [OF that(1,2)] that(3) by simp
  note acme = keeps_sameJob_acme [OF assms(1)]
  show ?thesis
  proof (cases "find (certOfDomain i) (certs w)")
    case None
    obtain x u where o: "run_state (ObtainCertificate e ?c (uID user) (dDomain domain) (uEmail user))
        (later (Suc 0) w) = (x, u)" by fastforce
    have "sameJob w u" using acme(1) _ o by (rule keep) simp
    with None show ?thesis
      using assms(1,4,5) early [OF _ sameJob_later(1)] o
      by (auto simp: acquireCertificate_def First_def run_simps Let_def split: if_splits prod.splits)
  next
    case (Some c)
    obtain b u where b: "run_state (BuildCertResource e c) (later (Suc 0) w) = (b, u)" by fastforce
    have u: "sameJob w u" using acme(3) _ b by (rule keep) simp
    obtain x q where o: "run_state (RenewExistingCertificate e ?c (uID user) (uEmail user) (projr b)) u = (x, q)"
      by fastforce
    have "sameJob w q" using acme(2) u o by (rule keep)
    with Some show ?thesis
      using assms(1,4,5) early [OF _ u] o b
      by (auto simp: acquireCertificate_def First_def run_simps Let_def split: sum.splits prod.splits)
  qed
qed

text \<open>
  Property C9. A job does not leave its domain in the generating status (no interference, no
  faults): whatever the resolver and the CA answer, once an active job has run, panics of the
  worker's own goroutine included, the domain is active with a certificate in the store, or in
  error, the time since when it was generating is cleared, and the worker goes on to release what
  it holds. The exceptions are an error that counts as a cancellation and a panic inside the
  library's own goroutine.
\<close>

theorem job_leaves_generating:
  assumes "calm e" and "wf_store w" and "activeJob w i t" and "rowOf i w = Some d" and "dID domain = i"
    and "run_state (acquireCertificate e (JobCtx t) domain user renew ar t) (later 2 w) = (a, v)"
    and "\<forall>err. a = Returns (Acme (Inl err)) \<longrightarrow> \<not> cancelLike err" and "a \<noteq> Exits"
    and "run_state (runCertJob e (JobCtx t) domain user renew ar t) w = (ok, w')"
  shows "(\<exists>d'. rowOf i w' = Some d' \<and> dGeneratingSince d' = None
      \<and> (dStatus d' = ''active'' \<and> hasCertRow i w' \<or> dStatus d' = ''error'')) \<and> ok"
proof -
  have wf: "wf_store (later n w)" for n using assms(2) by (simp add: wf_store_def)
  have acq: "if a = Returns (Early ()) then ended i v else sameJob (later 2 w) v"
    using acquire_calm [OF assms(1) _ _ assms(5,6)] assms(3,4) by simp
  have fail: "ended i (snd (run_state (failCertJobIfActive e i t msg ar) u))" if "sameJob w u" for msg u
    using fail_ends [OF assms(1), of u i t d] sameJob_use [OF that] assms(3,4) by simp
  have v: "sameJob w v" if "a \<noteq> Returns (Early ())" using acq that by (simp add: sameJob_def)
  have store: "ended i (snd (run_state (storeResult e (JobCtx t) domain user ar t res) v))"
    if "a \<noteq> Returns (Early ())" for res
    using store_ends [OF assms(1) _ _ _ assms(5), of v t d] sameJob_use [OF v [OF that]] assms(2-4) by simp
  have ctx: "ctxErr w (JobCtx t) = None" "ctxErr v (JobCtx t) = None" if "a \<noteq> Returns (Early ())"
    using activeJob_ctx [OF assms(3)] sameJob_use(5) [OF v [OF that]] by simp_all
  have w1: "ctxErr w (JobCtx t) = None" using activeJob_ctx [OF assms(3)] .
  have acq2: "run_state (acquireCertificate e (JobCtx t) domain user renew ar t) (later (Suc (Suc 0)) w) = (a, v)"
    using assms(6) by (simp add: numeral_2_eq_2)
  have "ended i w' \<and> ok"
  proof (cases "dCNameTarget domain = [] \<or> \<not> cnameOK e (Suc (Suc (tick w))) (dDomain domain) (dCNameTarget domain)")
    case True
    then show ?thesis
      using assms(1,5,9) w1 fail
      by (auto simp: runCertJob_def certJobBody_def run_simps cnameOK_def
          split: prod.splits sum.splits if_splits) (metis sameJob_later snd_conv)+
  next
    case False
    then have run: "run_state (runCertJob e (JobCtx t) domain user renew ar t) w =
      (case a of
         Returns (Early _) \<Rightarrow> (True, v)
       | Returns (Acme (Inl err)) \<Rightarrow> (True, snd (run_state (acmeFailed e (JobCtx t) domain ar t err) v))
       | Returns (Acme (Inr res)) \<Rightarrow> (True, snd (run_state (storeResult e (JobCtx t) domain user ar t res) v))
       | Panics \<Rightarrow> (True, snd (run_state (failCertJobIfActive e i t ''internal error during certificate operation'' ar) v))
       | Exits \<Rightarrow> (False, v))"
      using assms(1,5) w1 acq2
      by (auto simp: runCertJob_def certJobBody_def run_simps cnameOK_def
          split: prod.splits sum.splits outcome.splits acquired.splits)
    have still: "ended i (snd (run_state (acmeFailed e (JobCtx t) domain ar t err) v))"
      if "a = Returns (Acme (Inl err))" for err
    proof -
      have "a \<noteq> Returns (Early ())" using that by simp
      note same = v [OF this]
      have "sameJob w (later (Suc 0) v)" using same by (simp add: sameJob_def)
      moreover have "ctxErr v (JobCtx t) = None" using w1 sameJob_use(5) [OF same] by simp
      ultimately show ?thesis
        using that assms(1,5,7) fail by (simp add: acmeFailed_def run_simps cancelLike_def)
    qed
    have cases: "ended i (snd (run_state (failCertJobIfActive e i t msg ar) v))" if "a = Panics" for msg
      using fail v that by simp
    show ?thesis
      using run assms(8,9) acq store cases still
      by (auto split: outcome.splits acquired.splits sum.splits)
  qed
  then show ?thesis by (simp add: ended_def)
qed

theorem job_leaves_generating_witness:
  "\<exists>d. rowOf 1 (snd (run_state (runCertJob idleEnv (JobCtx 1) (sampleDomain ''generating'') sampleUser
       True False 1) (sampleWorld ''generating'' [] [(1, 1)]))) = Some d
     \<and> dStatus d \<in> {''active'', ''error''}"
proof -
  let ?w = "sampleWorld ''generating'' [] [(1, 1)]" and ?d = "sampleDomain ''generating''"
  obtain a v where acq: "run_state (acquireCertificate idleEnv (JobCtx 1) ?d sampleUser True False 1)
      (later 2 ?w) = (a, v)" by fastforce
  then have a: "a = Returns (Early ())"
    by (simp add: acquireCertificate_def First_def run_simps Let_def split: prod.splits)
  obtain ok w' where run: "run_state (runCertJob idleEnv (JobCtx 1) ?d sampleUser True False 1) ?w = (ok, w')"
    by fastforce
  have "wf_store ?w" by (simp add: statuses_def)
  then show ?thesis
    using job_leaves_generating [OF calm_idleEnv _ sample_active _ _ acq _ _ run, of ?d] run a by auto
qed

text \<open>
  Property C40. A timeout of the CA counts as a cancellation: when the ACME client fails with an
  error that wraps context.DeadlineExceeded or context.Canceled although the job itself is
  active (an HTTP client timeout is such an error), nothing is written: the domain stays
  generating without a message until the stuck-generating cleanup resets it.
\<close>

theorem acme_timeout_stays_generating:
  assumes "calm e" and "activeJob w i t" and "dID domain = i" and "dCNameTarget domain \<noteq> []"
    and "cnameOK e (tick w + 2) (dDomain domain) (dCNameTarget domain)"
    and "run_state (acquireCertificate e (JobCtx t) domain user renew ar t) (later 2 w)
         = (Returns (Acme (Inl err)), v)"
    and "cancelLike err"
    and "run_state (runCertJob e (JobCtx t) domain user renew ar t) w = (ok, w')"
    and "rowOf i w = Some d"
  shows "domains w' = domains w \<and> certs w' = certs w \<and> ok"
proof -
  have "sameJob (later 2 w) v"
    using acquire_calm [OF assms(1) _ _ assms(3,6), of d] assms(2,9) by simp
  then have v: "sameJob w v" by (simp add: sameJob_def)
  have act: "activeJob v i t" using sameJob_use(4) [OF v] assms(2) by simp
  have fin: "run_state (acmeFailed e (JobCtx t) domain ar t err) v = ((), later 1 v)"
    using assms(1,3,7) act
    by (simp add: acmeFailed_def cancelLike_def rollbackCancelledCertJob_def run_simps)
  obtain c where c: "lookupCNAME e (Suc (Suc (tick w))) (challengeHost (dDomain domain)) = Inr c"
    "canonHost (uni (osenv e)) c = canonHost (uni (osenv e)) (dCNameTarget domain)"
    using assms(5) by (auto simp: cnameOK_def)
  have acq: "run_state (acquireCertificate e (JobCtx t) domain user renew ar t) (later (Suc (Suc 0)) w)
      = (Returns (Acme (Inl err)), v)"
    using assms(6) by (simp add: numeral_2_eq_2)
  have "run_state (runCertJob e (JobCtx t) domain user renew ar t) w = (True, later 1 v)"
    using assms(1,4) activeJob_ctx [OF assms(2)] c acq fin
    by (simp add: runCertJob_def certJobBody_def run_simps)
  then show ?thesis using assms(8) v by (auto simp: sameJob_def)
qed

text \<open>A CA whose directory cannot be fetched in time.\<close>

definition timeoutEnv :: env where
  "timeoutEnv = idleEnv\<lparr>legoClient := (\<lambda>_ _. Inl (Wrap ''Get: '' DeadlineExceeded))\<rparr>"

lemma timeoutEnv_calm: "calm timeoutEnv"
  using calm_idleEnv by (simp add: timeoutEnv_def calm_def quiet_def faultless_def)

lemma timeoutEnv_fields [simp]:
  "legoClient timeoutEnv n u = Inl (Wrap ''Get: '' DeadlineExceeded)" "cfg timeoutEnv = prodCfg"
  "osenv timeoutEnv = prodOs" "genKey timeoutEnv n = Inr ''ECKEY''" "marshalEC timeoutEnv b = Inr b" "pemEncode timeoutEnv t b = b"
  "randBytes timeoutEnv n = Some ''012345678901''" "lookupCNAME timeoutEnv = sampleLookup"
  by (simp_all add: timeoutEnv_def)

lemma sample_host: "challengeHost ''example.com'' = ''_acme-challenge.example.com''"
  by code_simp

lemma sample_canon:
  "canonHost asciiOnly ''1.cname.yourservice.com.'' = canonHost asciiOnly ''1.cname.yourservice.com''"
  by code_simp

lemma sample_cname:
  "lookupCNAME e = sampleLookup \<Longrightarrow> osenv e = prodOs \<Longrightarrow>
     cnameOK e n ''example.com'' ''1.cname.yourservice.com''"
  using sample_canon by (simp add: cnameOK_def sample_host sampleLookup_def prodOs_def)

theorem acme_timeout_stays_generating_witness:
  "domains (snd (run_state (runCertJob timeoutEnv (JobCtx 1) (sampleDomain ''generating'') sampleUser
     False False 1) (sampleWorld ''generating'' [] [(1, 1)]))) = [sampleDomain ''generating'']"
proof -
  let ?w = "sampleWorld ''generating'' [] [(1, 1)]" and ?d = "sampleDomain ''generating''"
  obtain a v where acq: "run_state (acquireCertificate timeoutEnv (JobCtx 1) ?d sampleUser False False 1)
      (later 2 ?w) = (a, v)" by fastforce
  have active: "activeJob (later n ?w) 1 1" for n using sample_active by simp
  have key: "length (encryptionKey ?w) = 32" "encryptionKey ?w \<noteq> []" by (simp_all add: sampleWorld_def)
  have a: "a = Returns (Acme (Inl (Wrap ''Get: '' DeadlineExceeded)))"
    using acq key run_runACME_calm [OF timeoutEnv_calm active]
    by (simp add: acquireCertificate_def ObtainCertificate_def prepareACME_def loadOrCreateAcmeAccount_def
        loadAcmeAccount_def createAcmeAccount_def newLegoClient_def encodeECPrivateKey_def CreateAccount_def First_def
        EncryptWith_def NewCipher_def run_simps timeoutEnv_calm Let_def)
  obtain ok w' where run: "run_state (runCertJob timeoutEnv (JobCtx 1) ?d sampleUser False False 1) ?w = (ok, w')"
    by fastforce
  have "cnameOK timeoutEnv (tick ?w + 2) (dDomain ?d) (dCNameTarget ?d)"
    by (simp add: sample_cname)
  then show ?thesis
    using acme_timeout_stays_generating [OF timeoutEnv_calm sample_active _ _ _ acq [unfolded a] _ run, of ?d] run
    by (simp add: cancelLike_def)
qed

end
