(* ===== verification/Cert_Worker_Props.thy ===== *)
theory Cert_Worker_Props
  imports Cert_Job_Props
begin

text \<open>
  What a worker gives back when it ends, and what a request that starts an operation takes and
  leaves behind.
\<close>

section \<open>Frames\<close>

text \<open>A predicate that does not look at the tables.\<close>

definition tableFree :: "(world \<Rightarrow> bool) \<Rightarrow> bool" where
  "tableFree I \<longleftrightarrow> (\<forall>w ds cs n. I (w\<lparr>domains := ds\<rparr>) = I w \<and> I (w\<lparr>certs := cs\<rparr>) = I w
     \<and> I (w\<lparr>certSeq := n\<rparr>) = I w) \<and> (\<forall>w v. I v \<longrightarrow> I w \<longrightarrow> I (restoreTables v w))"

lemma keeps_frame_updates:
  assumes "stable e I" and "tableFree I"
  shows "keeps I (UpdatesDomain e p f)" and "keeps I (CreateCert e c)" and "keeps I (SaveCert e c)"
proof -
  show "keeps I (UpdatesDomain e p f)"
    unfolding UpdatesDomain_def Updates_def
    by (intro keeps_db assms(1)) (use assms(2) in \<open>simp add: tableFree_def table_update\<close>)
  show "keeps I (CreateCert e c)"
    unfolding CreateCert_def
    by (intro keeps_db assms(1)) (use assms(2) in \<open>simp add: tableFree_def Let_def\<close>)
  show "keeps I (SaveCert e c)"
    unfolding SaveCert_def
    by (intro keeps_db assms(1)) (use assms(2) in \<open>simp add: tableFree_def Let_def\<close>)
qed

lemma keeps_frame_status:
  assumes "stable e I" and "tableFree I"
  shows "keeps I (setDomainError e i st msg)" and "keeps I (markDomainCnameVerified e i)"
    and "keeps I (rollbackGeneratingDomain e i msg rv)"
    and "keeps I (failCertJobIfActive e i t msg ar)" and "keeps I (rollbackCancelledCertJob e i t ar)"
    and "keeps I (saveCertificateRecord e i c)"
proof -
  note upd = keeps_frame_updates [OF assms] and reads = keeps_queries [OF assms(1)] keeps_wf_reads [OF assms(1)]
  show err: "keeps I (setDomainError e i st msg)" for st msg
    unfolding setDomainError_def by (intro keeps_intros upd)
  show "keeps I (markDomainCnameVerified e i)"
    unfolding markDomainCnameVerified_def by (intro keeps_intros upd reads)
  show roll: "keeps I (rollbackGeneratingDomain e i msg rv)" for msg rv
    unfolding rollbackGeneratingDomain_def by (intro keeps_intros upd reads)
  show "keeps I (failCertJobIfActive e i t msg ar)"
    unfolding failCertJobIfActive_def failCertJob_def setDomainAutoRenewFailure_def
      scheduleAutoRenewBackoff_def
    by (intro keeps_intros keeps_registry_reads upd reads err assms)
  show "keeps I (rollbackCancelledCertJob e i t ar)"
    unfolding rollbackCancelledCertJob_def by (intro keeps_intros keeps_registry_reads roll assms)
  show "keeps I (saveCertificateRecord e i c)"
    unfolding saveCertificateRecord_def
  proof (rule keeps_Transaction [OF assms(1)])
    fix tx w0 r w1
    assume tx: "stable tx I" and w0: "I w0" and run: "run_state (do {
       r \<leftarrow> upsertCert tx c;
       case r of
         Inl err \<Rightarrow> State_Monad.return (Inl err)
       | Inr _ \<Rightarrow> do {
           u \<leftarrow> UpdatesDomain tx (byID i) savedCols;
           State_Monad.return (map_sum (\<lambda>x. x) (\<lambda>_. ()) u)
         }}) w0 = (r, w1)" (is "run_state ?m w0 = _")
    have "keeps I ?m"
      unfolding upsertCert_def replaceCert_def
      by (intro keeps_intros keeps_queries keeps_frame_updates tx assms(2))
    then have "I w1" using w0 run by (metis keepsD snd_conv)
    then show "I w1 \<and> I (restoreTables w0 w1)" using w0 assms(2) by (simp add: tableFree_def)
  qed
qed

lemma keeps_frame_store:
  assumes "stable e I" and "tableFree I"
  shows "keeps I (storeResult e c domain user ar t res)"
  unfolding storeResult_def Let_def
  by (intro keeps_intros keeps_registry_reads keeps_queries keeps_frame_status assms)

lemma keeps_frame_job:
  assumes "stable e I" and "tableFree I" and "accountFree I"
  shows "keeps I (runCertJob e c domain user renew ar t)"
  by (intro keeps_runCertJob keeps_frame_store keeps_frame_status assms)

section \<open>The worker\<close>

text \<open>The bookkeeping a job must leave alone.\<close>

definition sameBooks :: "world \<Rightarrow> world \<Rightarrow> bool" where
  "sameBooks w v \<longleftrightarrow> slots v = slots w \<and> jobs v = jobs w \<and> workers v = workers w \<and> jobWG v = jobWG w
     \<and> tokenSeq v = tokenSeq w \<and> spawned v = spawned w"

lemma sameBooks_free: "tableFree (sameBooks w)" "accountFree (sameBooks w)"
  by (simp_all add: tableFree_def accountFree_def sameBooks_def restoreTables_def)

lemma stable_sameBooks: "calm e \<Longrightarrow> stable e (sameBooks w)"
  by (rule stable_calm_env) (simp_all add: sameBooks_def)

lemma job_books: "calm e \<Longrightarrow> sameBooks w (snd (run_state (runCertJob e c domain user renew ar t) w))"
  by (rule keepsD [OF keeps_frame_job [OF stable_sameBooks]])
    (simp_all add: sameBooks_free sameBooks_def)

text \<open>
  A worker gives back what its job holds, however the job ended, recovered panics
  included (no interference, no faults): one slot, its own registry entry and no successor's, its
  place in the wait group of the shutdown, and its count in the domain's tracker, which is then
  what it was before the worker started.
\<close>

theorem worker_gives_back:
  assumes "calm e" and "dID (jobDomain j) = i" and "run_state (worker e j) w = (True, w')"
  shows "slots w' = slots w - 1
    \<and> entry w' = (if entry w i = Some (jobToken j) then (entry w)(i := None) else entry w)
    \<and> jobWG w' = jobWG w - 1
    \<and> workers w' = (workers w)(i \<mapsto> (case workers w i of None \<Rightarrow> 0 | Some n \<Rightarrow> n))"
proof -
  let ?u = "workerAdd i (domainWorkerTrackerFor i (later 1 w))"
  obtain ok v where job: "run_state (runCertJob e (JobCtx (jobToken j)) (jobDomain j) (jobUser j)
      (jobRenew j) (jobAutoRenew j) (jobToken j)) ?u = (ok, v)" by fastforce
  have books: "sameBooks ?u v" using job_books [OF assms(1)] job by (metis snd_conv)
  have ok: "ok" using assms job by (auto simp: worker_def run_simps split: if_splits)
  have u: "slots ?u = slots w" "jobs ?u = jobs w" "jobWG ?u = jobWG w"
    "workers ?u = (workers w)(i \<mapsto> Suc (case workers w i of None \<Rightarrow> 0 | Some n \<Rightarrow> n))"
    by (auto simp: workerAdd_def domainWorkerTrackerFor_def split: option.split)
  have w': "w' = workerDone i (later 1 (doneJob (later 1 (endJob i (jobToken j) (later 1 (recvSlot (later 1 v)))))))"
    using assms job ok by (simp add: worker_def run_simps)
  have "slots w' = slots v - 1" "jobWG w' = jobWG v - 1"
    "workers w' = (workers v)(i := map_option (\<lambda>n. n - 1) (workers v i))"
    by (auto simp: w' workerDone_def doneJob_def recvSlot_def endJob_def split: option.split)
  moreover have "entry w' = entry (endJob i (jobToken j) (later 1 (recvSlot (later 1 v))))"
    by (simp add: w' workerDone_def doneJob_def)
  ultimately show ?thesis
    using books u by (auto simp: sameBooks_def registry.reg_finish recvSlot_def fun_eq_iff)
qed

text \<open>A job for a domain without a delegation target, which fails at once.\<close>

definition sampleJob :: jobArgs where
  "sampleJob = \<lparr>jobToken = 1, jobDomain = (sampleDomain ''generating'')\<lparr>dCNameTarget := []\<rparr>, jobUser = sampleUser,
                jobRenew = True, jobAutoRenew = False\<rparr>"

theorem worker_gives_back_witness:
  "\<exists>w'. run_state (worker idleEnv sampleJob) ((sampleWorld ''generating'' [] [(1, 1)])\<lparr>slots := 1, jobWG := 1\<rparr>)
       = (True, w') \<and> slots w' = 0 \<and> jobWG w' = 0 \<and> entry w' 1 = None"
proof -
  let ?w = "(sampleWorld ''generating'' [] [(1, 1)])\<lparr>slots := 1, jobWG := 1\<rparr>"
  obtain ok w' where run: "run_state (worker idleEnv sampleJob) ?w = (ok, w')" by fastforce
  have "ok"
    using run
    by (auto simp: worker_def runCertJob_def certJobBody_def sampleJob_def run_simps
        split: prod.splits option.splits)
  then show ?thesis
    using worker_gives_back [OF calm_idleEnv, of sampleJob 1 ?w w'] run
    by (simp add: sampleJob_def)
qed

section \<open>Beginning an operation\<close>

lemma keeps_lock:
  assumes "stable e I" and "tableFree I" and "\<And>w. I w \<Longrightarrow> I (cancelEntry (dID row) w)"
    and "\<And>i w. I w \<Longrightarrow> I (cancelEntry i w)"
  shows "keeps I (lockDomainForCertJob e row req)"
  unfolding lockDomainForCertJob_def takeLock_def Let_def
  by (intro keeps_intros keeps_queries keeps_frame_status keeps_frame_updates keeps_clearStaleJob assms)

text \<open>What a request takes: slots and started workers.\<close>

definition sameAlloc :: "world \<Rightarrow> world \<Rightarrow> bool" where
  "sameAlloc w v \<longleftrightarrow> slots v = slots w \<and> spawned v = spawned w"

lemma sameAlloc_refl [simp]: "sameAlloc w w" "sameAlloc w (later n w)"
  by (simp_all add: sameAlloc_def)

lemma sameAlloc_frame:
  "tableFree (sameAlloc w)" "sameAlloc w v \<Longrightarrow> sameAlloc w (cancelEntry d v)"
  "sameAlloc w v \<Longrightarrow> sameAlloc w (registerJob d dl v)"
  by (simp_all add: sameAlloc_def tableFree_def restoreTables_def cancelEntry_def cancelCtx_def
      split: option.split)

lemma stable_sameAlloc: "calm e \<Longrightarrow> stable e (sameAlloc w)"
  by (rule stable_calm_env) (simp_all add: sameAlloc_def)

lemma lock_alloc:
  assumes "calm e" and "run_state (lockDomainForCertJob e row req) w = (r, v)"
  shows "sameAlloc w v"
proof -
  have "keeps (sameAlloc w) (lockDomainForCertJob e row req)"
    by (rule keeps_lock [OF stable_sameAlloc [OF assms(1)]]) (auto intro: sameAlloc_frame)
  then show ?thesis using keepsD [of "sameAlloc w" _ w] assms(2) by fastforce
qed

lemma lock_slots:
  "calm e \<Longrightarrow> slots (snd (run_state (lockDomainForCertJob e row req) w)) = slots w"
  using lock_alloc [of e row req w] by (cases "run_state (lockDomainForCertJob e row req) w") (simp add: sameAlloc_def)

text \<open>What the code before the lock may have done to the row of domain \<open>i\<close>.\<close>

definition readied :: "uint \<Rightarrow> DomainRow \<Rightarrow> world \<Rightarrow> world \<Rightarrow> bool" where
  "readied i d w u \<longleftrightarrow> wf_store u \<and> slots u = slots w \<and> users u = users w \<and> clock u = clock w
     \<and> inflight u i = inflight w i \<and> (\<forall>k. hasCertRow k u = hasCertRow k w)
     \<and> (\<exists>d1. rowOf i u = Some d1 \<and> dUserID d1 = dUserID d
          \<and> (d1 = d \<or> dStatus d1 = ''verified''))"

lemma mark_readies:
  assumes "calm e" and "wf_store w" and "rowOf i w = Some d" and "dID domain = i"
    and "run_state (markIfFirst e domain renew) w = (r, u)"
  shows "r = Inr () \<and> readied i d w u"
proof -
  have "stable e wf_store" by (rule stable_calm_env [OF assms(1)]) simp
  then have wf: "wf_store (snd (run_state (markDomainCnameVerified e i) (later 1 w)))"
    using assms(2) by (intro keepsD [OF keeps_wf_updates(3)]) (simp_all add: wf_store_def)
  show ?thesis
    using assms wf
    by (auto simp: markIfFirst_def run_simps readied_def verifiedUpd.rowOf_written stamp_def
        verifiedCols_def inflight_def wf_store_def split: if_splits)
qed

lemma rolledBack_settles:
  "rowOf i w = Some d \<Longrightarrow> settled i (rolledBack i msg rv w) \<and> slots (rolledBack i msg rv w) = slots w"
  by (auto simp: rolledBack_def settled_def rollbackUpd.rowOf_written stamp_def row_simps)

lemma settled_same: "domains v = domains w \<Longrightarrow> settled i v = settled i w"
  by (simp add: settled_def rowOf_def)

lemma settled_later [simp]: "settled i (later n w) = settled i w"
  by (simp add: settled_def)

text \<open>The lock, as the result of the call and the state it leaves.\<close>

lemma lock_cases:
  assumes "calm e" and "wf_store w" and "rowOf i w = Some d" and "dID domain = i"
    and "\<not> inflight w i" and "run_state (lockDomainForCertJob e domain renew) w = (l, v)"
  shows "(\<exists>u d'. l = Some (Inr u) \<and> find (userByID (dUserID d)) (users w) = Some u \<and> rowOf i v = Some d'
            \<and> dStatus d' = ''generating'' \<and> dGeneratingSince d' = Some (clock w))
       \<or> (\<exists>err. l = Some (Inl err) \<and> (settled i w \<longrightarrow> settled i v))"
  using lock_calm [OF assms(1-4,6) refl] assms(3,5) rowOf_same [of v w i]
  by (auto simp: lockResult_def stamp_def lockCols_def settled_def
      split: option.splits if_splits)

lemma lockAndAcquire_calm:
  assumes "calm e" and "wf_store w" and "rowOf i w = Some d" and "dID domain = i"
    and "\<not> inflight w i" and "run_state (lockAndAcquire e domain renew) w = (Some r, w')"
  shows "case r of
      Inr u \<Rightarrow> slots w < certJobSlotsCap e \<and> slots w' = Suc (slots w) \<and> uID u = dUserID d
        \<and> (\<exists>d'. rowOf i w' = Some d' \<and> dStatus d' = ''generating'' \<and> dGeneratingSince d' = Some (clock w))
    | Inl resp \<Rightarrow> slots w' = slots w \<and> \<not> succeeded resp \<and> (settled i w \<longrightarrow> settled i w')"
proof -
  obtain l v where lock: "run_state (lockDomainForCertJob e domain renew) w = (l, v)" by fastforce
  have slots: "slots v = slots w" using lock_slots [OF assms(1)] lock by (metis snd_conv)
  from lock_cases [OF assms(1-5) lock] show ?thesis
  proof (elim disjE exE conjE)
    fix u d'
    assume l: "l = Some (Inr u)" and u: "find (userByID (dUserID d)) (users w) = Some u"
      and d': "rowOf i v = Some d'" "dStatus d' = ''generating''" "dGeneratingSince d' = Some (clock w)"
    have "uID u = dUserID d" using find_SomeD [OF u] by (simp add: userByID_def)
    moreover have "rowOf i (v\<lparr>tick := n, slots := k\<rparr>) = Some d'" for n k
      using d'(1) by (simp add: rowOf_def)
    ultimately show ?thesis
      using assms(1,4,6) lock l slots d' rolledBack_settles [of i "later 1 v"]
      by (auto simp: lockAndAcquire_def run_simps sendSlot_def later_def split: if_splits)
  next
    fix err
    assume "l = Some (Inl err)" and "settled i w \<longrightarrow> settled i v"
    then show ?thesis using assms(6) lock slots by (auto simp: lockAndAcquire_def)
  qed
qed

text \<open>
  What a request that begins an operation leaves behind, for a domain without a job
  in flight (no interference, no faults). When it may start a job, one slot is taken, there was a
  free one, the domain is generating from now on, and the user is the domain's owner. When it is
  refused, no slot is taken, the response is an error, and a domain that was not generating is
  not left generating.
\<close>

theorem begin_operation_effect:
  assumes "calm e" and "wf_store w" and "rowOf i w = Some d" and "dID domain = i"
    and "\<not> inflight w i" and "run_state (beginCertOperation e domain renew) w = (Some r, w')"
  shows "(\<forall>u. r = Inr u \<longrightarrow> slots w < certJobSlotsCap e \<and> slots w' = Suc (slots w) \<and> uID u = dUserID d
        \<and> (\<exists>d'. rowOf i w' = Some d' \<and> dStatus d' = ''generating'' \<and> dGeneratingSince d' = Some (clock w)))
    \<and> (\<forall>resp. r = Inl resp \<longrightarrow> slots w' = slots w \<and> \<not> succeeded resp
        \<and> (settled i w \<longrightarrow> settled i w'))"
proof -
  let ?w1 = "later 1 w"
  have wf: "wf_store ?w1" using assms(2) by (simp add: wf_store_def)
  obtain m u where mark: "run_state (markIfFirst e domain renew) ?w1 = (m, u)" by fastforce
  have m: "m = Inr ()" and u: "readied i d ?w1 u"
    using mark_readies [OF assms(1) wf _ assms(4) mark, of d] assms(3) by simp_all
  then obtain d1 where d1: "rowOf i u = Some d1" "dUserID d1 = dUserID d" "d1 = d \<or> dStatus d1 = ''verified''"
    by (auto simp: readied_def)
  have eqs: "wf_store u" "\<not> inflight u i" "slots u = slots w" "clock u = clock w"
    using u assms(5) by (simp_all add: readied_def)
  have keep: "settled i w \<longrightarrow> settled i u" using d1 assms(3) by (auto simp: settled_def)
  consider (early) "(case r of Inl resp \<Rightarrow> \<not> succeeded resp | Inr _ \<Rightarrow> False)" "slots w' = slots w"
      "domains w' = domains w"
    | (late) "run_state (lockAndAcquire e domain renew) u = (Some r, w')"
    using assms(1,6) mark m
    by (auto simp: beginCertOperation_def run_simps split: if_splits sum.splits)
  then show ?thesis
  proof cases
    case early
    then show ?thesis using settled_same [of w' w i] by (auto split: sum.splits)
  next
    case late
    from lockAndAcquire_calm [OF assms(1) eqs(1) d1(1) assms(4) eqs(2) late] eqs d1(2) keep
    show ?thesis by (auto split: sum.splits)
  qed
qed

lemma user7: "uID sampleUser = 7"
  by (simp add: sampleUser_def)

theorem begin_operation_effect_witness:
  "\<exists>u w'. run_state (beginCertOperation idleEnv (sampleDomain ''verified'') False)
       (sampleWorld ''verified'' [] []) = (Some (Inr u :: unit response + UserRow), w')
     \<and> slots w' = 1 \<and> uID u = 7"
proof -
  let ?w = "sampleWorld ''verified'' [] []" and ?d = "sampleDomain ''verified''"
  have verify: "run_state (VerifyChallengeCNAME idleEnv ''example.com'' ''1.cname.yourservice.com'') ?w
      = (Inr (), later 1 ?w)"
    unfolding prod_eq_iff fst_conv snd_conv Verify_ok Verify_state by (simp add: sample_cname run_simps)
  have "fst (run_state (beginCertOperation idleEnv ?d False) ?w) = Some (Inr sampleUser :: unit response + UserRow)"
    by (simp add: beginCertOperation_def verify markIfFirst_def lockAndAcquire_def lockDomainForCertJob_def
        run_simps run_clearStaleJob_calm takeLock_def lockUpd.run_updates First_def Let_def
        inflight_def live_def byID_def lockable_def userByID_def
        sendSlot_def user7 certJobSlotsCap_pos del: run_Verify)
  then obtain w' where run: "run_state (beginCertOperation idleEnv ?d False) ?w
      = (Some (Inr sampleUser :: unit response + UserRow), w')" by (metis prod.collapse)
  have "wf_store ?w" by (simp add: statuses_def)
  then show ?thesis
    using begin_operation_effect [OF calm_idleEnv _ _ _ _ run, of 1 ?d] run
    by (auto simp: inflight_def)
qed

text \<open>
  Property C29. A manual request overwrites the generating status it should respect (no
  interference, no faults). For a domain that is generating, however recently, and has no
  certificate yet, the request first sets the status to verified. If the first operation has not
  registered its job yet, the lock is then granted a second time; if it has, the request is
  refused as a conflict, and the domain is left verified while the job runs.
\<close>

theorem issue_overwrites_generating:
  assumes "calm e" and "wf_store w" and "rowOf i w = Some d" and "dStatus d = ''generating''"
    and "\<not> hasCertRow i w" and "dCNameTarget d \<noteq> []"
    and "cnameOK e (Suc (tick w)) (dDomain d) (dCNameTarget d)"
    and "find (\<lambda>u. uID u = dUserID d) (users w) = Some user" and "slots w < certJobSlotsCap e"
    and "run_state (beginCertOperation e d False) w = (r, w')"
  shows "(\<not> inflight w i \<longrightarrow> r = Some (Inr user))
    \<and> (inflight w i \<longrightarrow>
         r = Some (Inl (RespondError StatusConflict
               ''Certificate operation already in progress for this domain''))
         \<and> (\<exists>d'. rowOf i w' = Some d' \<and> dStatus d' = ''verified''))"
proof -
  have id: "dID d = i" using assms(3) by (auto dest: rowOf_id)
  let ?u = "written (verifiedCols (clock w)) i (later 4 w)" and ?d = "stamp (clock w) (verifiedCols (clock w)) d"
  have mark: "run_state (markIfFirst e d False) (later 1 w) = (Inr (), ?u)"
    using assms(1,4,5) id
    by (simp add: markIfFirst_def run_simps hasCertRow_def eval_nat_numeral)
  have "run_state (VerifyChallengeCNAME e (dDomain d) (dCNameTarget d)) w = (Inr (), later 1 w)"
    unfolding prod_eq_iff fst_conv snd_conv Verify_ok Verify_state by (simp add: assms(1,7) run_simps)
  then have run: "run_state (lockAndAcquire e d False) ?u = (r, w')"
    using assms(6,10) mark by (simp add: beginCertOperation_def)
  have wf: "wf_store (later 1 w)" using assms(2) by (simp add: wf_store_def)
  have wfu: "wf_store ?u" and infl: "inflight ?u i = inflight w i"
    using mark_readies [OF assms(1) wf _ id mark, of d] assms(3) by (simp_all add: readied_def)
  have row: "rowOf i ?u = Some ?d" using assms(3) by (simp add: verifiedUpd.rowOf_written)
  have st: "dStatus ?d = ''verified''" "dUserID ?d = dUserID d"
    by (simp_all add: stamp_def verifiedCols_def)
  obtain l v where lock: "run_state (lockDomainForCertJob e d False) ?u = (l, v)" by fastforce
  have slots: "slots v = slots w" using lock_slots [OF assms(1), of d False ?u] lock by simp
  have user: "find (userByID (dUserID d)) (users w) = Some user"
    using assms(8) by (simp add: userByID_def [abs_def])
  note L = lock_calm [OF assms(1) wfu row id lock refl]
  show ?thesis
  proof (cases "inflight w i")
    case True
    then have "l = Some (Inl errCertOperationInProgress)" "domains v = domains ?u"
      using L infl st by (simp_all add: staleGenerating_def)
    then show ?thesis
      using True run lock row st rowOf_same [of v ?u i] by (auto simp: lockAndAcquire_def)
  next
    case False
    then have "l = Some (Inr user)"
      using L infl st user by (auto simp: lockResult_def lockable_def)
    then show ?thesis
      using False run lock assms(1,9) slots by (auto simp: lockAndAcquire_def run_simps sendSlot_def)
  qed
qed

theorem issue_overwrites_generating_witness:
  "\<exists>d'. rowOf 1 (snd (run_state
       (beginCertOperation idleEnv (sampleDomain ''generating'') False
          :: (world, (unit response + UserRow) option) state)
       (sampleWorld ''generating'' [] [(1, 1)]))) = Some d' \<and> dStatus d' = ''verified''"
proof -
  let ?w = "sampleWorld ''generating'' [] [(1, 1)]" and ?d = "sampleDomain ''generating''"
  obtain r w' where run: "run_state (beginCertOperation idleEnv ?d False) ?w
      = (r :: (unit response + UserRow) option, w')" by fastforce
  have "wf_store ?w" by (simp add: statuses_def)
  then show ?thesis
    using issue_overwrites_generating [OF calm_idleEnv _ _ _ _ _ _ _ _ run, of 1 sampleUser] run
    by (simp add: inflight_def sample_cname user7 certJobSlotsCap_pos)
qed

end
