(* ===== verification/Scheduler.thy ===== *)
theory Scheduler
  imports Cert_Job
begin

text \<open>
  controllers/renewal_scheduler.go: the cleanup of domains stuck in generating, the scan for
  certificates to renew, the rollback at shutdown, and the scheduler's loop. None as a result
  means that a wait inside blocks for ever.
\<close>

section \<open>Loops over rows whose body may block\<close>

fun forEachO :: "'r list \<Rightarrow> ('r \<Rightarrow> ('s, unit option) state) \<Rightarrow> ('s, unit option) state" where
  "forEachO [] f = State_Monad.return (Some ())"
| "forEachO (x # xs) f = do {
     r \<leftarrow> f x;
     case r of None \<Rightarrow> State_Monad.return None | Some _ \<Rightarrow> forEachO xs f
   }"

lemma keeps_forEachO [keeps_intros]: "(\<And>x. keeps I (f x)) \<Longrightarrow> keeps I (forEachO xs f)"
  by (induction xs) (auto intro!: keeps_return keeps_bind split: option.split)

section \<open>Stuck domains\<close>

definition stuckGeneratingMessage :: string where
  "stuckGeneratingMessage =
     ''certificate operation timed out (server may have restarted); please retry''"

definition rollbackStuckGenerating :: "env \<Rightarrow> DomainRow \<Rightarrow> bool \<Rightarrow> (world, unit) state" where
  "rollbackStuckGenerating e domain force = do {
     running \<leftarrow> (if force then State_Monad.return False else certJobInflight e (dID domain));
     if running then State_Monad.return ()
     else do {
       hasCert \<leftarrow> domainHasCertificate e (dID domain);
       rollbackGeneratingDomain e (dID domain) (if hasCert then [] else stuckGeneratingMessage) True
     }
   }"

definition runStuckGeneratingCleanup :: "env \<Rightarrow> duration \<Rightarrow> (world, unit option) state" where
  "runStuckGeneratingCleanup e timeout = do {
     now \<leftarrow> Now e;
     let cutoff = now - timeout;
     r \<leftarrow> Find e domains (\<lambda>d. live d \<and> staleGenerating cutoff d);
     case r of
       Inl _ \<Rightarrow> State_Monad.return (Some ())
     | Inr stuck \<Rightarrow> forEachO stuck (\<lambda>domain. do {
         running \<leftarrow> certJobInflight e (dID domain);
         waited \<leftarrow> (if running then do {
                      _ \<leftarrow> cancelCertJob e (dID domain);
                      waitDomainWorker e (dID domain) (generatingTimeout e)
                    } else State_Monad.return (Some True));
         case waited of
           None \<Rightarrow> State_Monad.return None
         | Some _ \<Rightarrow> do {
             _ \<leftarrow> rollbackStuckGenerating e domain False;
             State_Monad.return (Some ())
           }
       })
   }"

definition RollbackAllGeneratingDomains :: "env \<Rightarrow> (world, unit) state" where
  "RollbackAllGeneratingDomains e = do {
     r \<leftarrow> Find e domains (\<lambda>d. live d \<and> dStatus d = ''generating'');
     case r of
       Inl _ \<Rightarrow> State_Monad.return ()
     | Inr ds \<Rightarrow> forEach ds (\<lambda>domain. rollbackStuckGenerating e domain True)
   }"

section \<open>Automatic renewal\<close>

definition inBackoff :: "env \<Rightarrow> DomainRow \<Rightarrow> (world, bool) state" where
  "inBackoff e domain =
     (case dAutoRenewBackoffUntil domain of
        None \<Rightarrow> State_Monad.return False
      | Some until \<Rightarrow> do { now \<leftarrow> Now e; State_Monad.return (Before now until) })"

definition lockAndStartRenewal :: "env \<Rightarrow> DomainRow \<Rightarrow> (world, unit option) state" where
  "lockAndStartRenewal e domain = do {
     l \<leftarrow> lockDomainForCertJob e domain True;
     case l of
       None \<Rightarrow> State_Monad.return None
     | Some (Inl _) \<Rightarrow> State_Monad.return (Some ())
     | Some (Inr user) \<Rightarrow> do {
         slot \<leftarrow> tryAcquireCertJobSlot e;
         if \<not> slot then do {
           _ \<leftarrow> rollbackGeneratingDomain e (dID domain) [] True;
           State_Monad.return (Some ())
         } else StartCertJob e domain user True True
       }
   }"

definition tryAutoRenewDomain :: "env \<Rightarrow> DomainRow \<Rightarrow> (world, unit option) state" where
  "tryAutoRenewDomain e domain =
     (if dStatus domain \<in> {''generating'', ''pending''} then State_Monad.return (Some ())
      else if \<not> dAutoRenew domain then State_Monad.return (Some ())
      else do {
        backoff \<leftarrow> inBackoff e domain;
        if backoff then State_Monad.return (Some ())
        else if dCNameTarget domain = [] then State_Monad.return (Some ())
        else do {
          v \<leftarrow> VerifyChallengeCNAME e (dDomain domain) (dCNameTarget domain);
          case v of
            Inl _ \<Rightarrow> State_Monad.return (Some ())
          | Inr _ \<Rightarrow> lockAndStartRenewal e domain
        }
      })"

definition runRenewalScan :: "env \<Rightarrow> (world, unit option) state" where
  "runRenewalScan e = do {
     let renewBeforeDays = (if RenewBeforeDays (Renewal (cfg e)) \<le> 0 then 30
                            else RenewBeforeDays (Renewal (cfg e)));
     now \<leftarrow> Now e;
     let threshold = addDays e now renewBeforeDays;
     r \<leftarrow> Find e certs (\<lambda>c. cExpiresAt c \<le> threshold);
     case r of
       Inl _ \<Rightarrow> State_Monad.return (Some ())
     | Inr cs \<Rightarrow> forEachO cs (\<lambda>cert. do {
         d \<leftarrow> FirstDomain e (byID (cDomainID cert));
         case d of
           Inl _ \<Rightarrow> State_Monad.return (Some ())
         | Inr domain \<Rightarrow> tryAutoRenewDomain e domain
       })
   }"

section \<open>The loop\<close>

text \<open>
  What the select receives: the end of the context or a tick. The renewal channel is nil when
  auto renewal is off, so its ticks are not received then. Panics: time.NewTicker refuses an
  interval that is not positive, in a goroutine without a recover.
\<close>

datatype schedEvent = CtxDone | CleanupTick | RenewalTick

fun schedulerLoop :: "env \<Rightarrow> duration \<Rightarrow> bool \<Rightarrow> schedEvent list \<Rightarrow> (world, unit option) state" where
  "schedulerLoop e timeout renewal [] = State_Monad.return (Some ())"
| "schedulerLoop e timeout renewal (CtxDone # es) = State_Monad.return (Some ())"
| "schedulerLoop e timeout renewal (CleanupTick # es) = do {
     r \<leftarrow> runStuckGeneratingCleanup e timeout;
     case r of None \<Rightarrow> State_Monad.return None | Some _ \<Rightarrow> schedulerLoop e timeout renewal es
   }"
| "schedulerLoop e timeout renewal (RenewalTick # es) =
     (if renewal then do {
        r \<leftarrow> runRenewalScan e;
        case r of None \<Rightarrow> State_Monad.return None | Some _ \<Rightarrow> schedulerLoop e timeout renewal es
      } else schedulerLoop e timeout renewal es)"

definition renewalInterval :: "env \<Rightarrow> duration" where
  "renewalInterval e =
     (case ParseDuration (CheckInterval (Renewal (cfg e))) of None \<Rightarrow> Hour | Some d \<Rightarrow> d)"

definition StartRenewalScheduler :: "env \<Rightarrow> schedEvent list \<Rightarrow> (world, unit outcome option) state" where
  "StartRenewalScheduler e events = do {
     r \<leftarrow> runStuckGeneratingCleanup e (generatingTimeout e);
     case r of
       None \<Rightarrow> State_Monad.return None
     | Some _ \<Rightarrow>
         (case NewTicker (GeneratingCheckIntervalDuration (Renewal (cfg e))) of
            None \<Rightarrow> State_Monad.return (Some Panics)
          | Some _ \<Rightarrow>
              if \<not> RenewalIsEnabled (Renewal (cfg e)) then do {
                x \<leftarrow> schedulerLoop e (generatingTimeout e) False events;
                State_Monad.return (map_option Returns x)
              }
              else (case NewTicker (renewalInterval e) of
                 None \<Rightarrow> State_Monad.return (Some Panics)
               | Some _ \<Rightarrow> do {
                   s \<leftarrow> runRenewalScan e;
                   case s of
                     None \<Rightarrow> State_Monad.return None
                   | Some _ \<Rightarrow> do {
                       x \<leftarrow> schedulerLoop e (generatingTimeout e) True events;
                       State_Monad.return (map_option Returns x)
                     }
                 }))
   }"

end
