(* ===== verification/Scheduler_Props.thy ===== *)
theory Scheduler_Props
  imports Scheduler Cert_Worker_Props
begin

text \<open>
  Properties of the scheduler: the store invariant over all its operations, the domains it
  leaves alone, the effect of the cleanups, and the interval that stops it.
\<close>

section \<open>The store invariant\<close>

lemma keeps_begin:
  assumes "stable e I" and "\<And>w. I w \<Longrightarrow> I (cancelEntry d w)"
    and "\<And>dl w. I w \<Longrightarrow> I (registerJob d dl w)"
  shows "keeps I (beginCertJob e d)"
  unfolding beginCertJob_def Let_def
  by (intro keeps_intros keeps_act keeps_wait) (use assms in auto)

lemma keeps_wf_start:
  assumes "stable e wf_store"
  shows "keeps wf_store (StartCertJob e domain user renew ar)"
  unfolding StartCertJob_def
  by (intro keeps_intros keeps_begin keeps_act wf_store_cancel assms)
    (simp_all add: wf_store_def registerJob_def Let_def)

lemma keeps_wf_slots:
  assumes "stable e wf_store"
  shows "keeps wf_store (tryAcquireCertJobSlot e)"
  unfolding tryAcquireCertJobSlot_def
  by (intro keeps_act assms) (simp add: wf_store_def sendSlot_def)

lemma keeps_wf_scheduler:
  assumes "stable e wf_store"
  shows "keeps wf_store (rollbackStuckGenerating e d force)"
    and "keeps wf_store (runStuckGeneratingCleanup e timeout)"
    and "keeps wf_store (RollbackAllGeneratingDomains e)"
    and "keeps wf_store (tryAutoRenewDomain e d)" and "keeps wf_store (runRenewalScan e)"
proof -
  show roll: "keeps wf_store (rollbackStuckGenerating e d force)" for d force
    unfolding rollbackStuckGenerating_def
    by (intro keeps_intros keeps_registry_reads keeps_wf_reads keeps_wf_updates assms)
  show "keeps wf_store (runStuckGeneratingCleanup e timeout)"
    unfolding runStuckGeneratingCleanup_def Let_def
    by (intro keeps_intros keeps_registry_reads keeps_queries keeps_cancel keeps_wait roll
        wf_store_cancel assms)
  show "keeps wf_store (RollbackAllGeneratingDomains e)"
    unfolding RollbackAllGeneratingDomains_def by (intro keeps_intros keeps_queries roll assms)
  show renew: "keeps wf_store (tryAutoRenewDomain e d)" for d
    unfolding tryAutoRenewDomain_def lockAndStartRenewal_def inBackoff_def
    by (intro keeps_intros keeps_queries keeps_wf_lock keeps_wf_slots keeps_wf_updates
        keeps_wf_start assms)
  show "keeps wf_store (runRenewalScan e)"
    unfolding runRenewalScan_def Let_def by (intro keeps_intros keeps_queries renew assms)
qed

lemma keeps_wf_loop:
  assumes "stable e wf_store"
  shows "keeps wf_store (schedulerLoop e timeout renewal es)"
proof (induction es)
  case (Cons x es)
  then show ?case by (cases x; cases renewal; simp; intro keeps_intros keeps_wf_scheduler assms)
qed (simp add: keeps_return)

text \<open>
  The scheduler keeps the store well formed through any sequence of ticks, under
  every interference that does and every pattern of faults.
\<close>

theorem scheduler_keeps_store:
  assumes "stable e wf_store" and "wf_store w"
  shows "wf_store (snd (run_state (StartRenewalScheduler e events) w))"
proof (rule keepsD [where I = wf_store, OF _ assms(2)])
  show "keeps wf_store (StartRenewalScheduler e events)"
    unfolding StartRenewalScheduler_def
    by (intro keeps_intros keeps_wf_scheduler keeps_wf_loop assms(1))
qed

theorem scheduler_keeps_store_witness:
  "wf_store (snd (run_state (StartRenewalScheduler idleEnv [CleanupTick, RenewalTick, CtxDone])
     (sampleWorld ''generating'' [sampleCert] [(1, 1)])))"
  by (rule scheduler_keeps_store) (simp_all add: stable_calm_env statuses_def)

section \<open>What automatic renewal leaves alone\<close>

lemma skip_renewal:
  assumes "dStatus d \<in> {''generating'', ''pending''} \<or> \<not> dAutoRenew d
    \<or> (\<exists>until. dAutoRenewBackoffUntil d = Some until \<and> clock (settle e w) < until)"
  shows "\<exists>v \<in> {w, settle e w}. run_state (tryAutoRenewDomain e d) w = (Some (), v)"
  using assms
  by (auto simp: tryAutoRenewDomain_def inBackoff_def Now_def run_simps Before_def split: option.split)

section \<open>Rollback at shutdown\<close>

text \<open>What one round of a rollback loop does to the rows.\<close>

definition calmed :: "uint set \<Rightarrow> world \<Rightarrow> world \<Rightarrow> bool" where
  "calmed is w w' \<longleftrightarrow> (\<forall>i. (rowOf i w' = None) = (rowOf i w = None))
     \<and> (\<forall>i. i \<notin> is \<longrightarrow> rowOf i w' = rowOf i w)
     \<and> (\<forall>i. settled i w \<longrightarrow> rowOf i w' = rowOf i w)
     \<and> (\<forall>i \<in> is. rowOf i w \<noteq> None \<longrightarrow> settled i w')"

lemma rolledBack_calmed: "calmed {i} w (rolledBack i msg rv w)"
proof (cases "rowOf i w")
  case None
  then show ?thesis by (auto simp: calmed_def rolledBack_def)
next
  case (Some d)
  then show ?thesis
    using rolledBack_settles [OF Some, of msg rv]
    by (auto simp: calmed_def rolledBack_def rollbackUpd.rowOf_written settled_def)
qed

lemma calmed_trans: "calmed A u v \<Longrightarrow> calmed B v w \<Longrightarrow> calmed (A \<union> B) u w"
  by (auto simp: calmed_def settled_def)

lemma run_rollbackStuck_force:
  "calm e \<Longrightarrow> \<exists>w'. run_state (rollbackStuckGenerating e d True) w = ((), w') \<and> calmed {dID d} w w'"
  using rolledBack_calmed [of "dID d" "later 1 w" "if hasCertRow (dID d) w then [] else stuckGeneratingMessage" True]
  by (cases "hasCertRow (dID d) w")
    (simp_all add: rollbackStuckGenerating_def run_simps calmed_def)

lemma rollback_loop:
  "calm e \<Longrightarrow> calmed (dID ` set ds) w
     (snd (run_state (forEach ds (\<lambda>d. rollbackStuckGenerating e d True)) w))"
proof (induction ds arbitrary: w)
  case (Cons d ds)
  obtain v where v: "run_state (rollbackStuckGenerating e d True) w = ((), v)" "calmed {dID d} w v"
    using run_rollbackStuck_force [OF Cons.prems] by blast
  show ?case
    using calmed_trans [OF v(2) Cons.IH [OF Cons.prems, of v]] by (simp add: v(1))
qed (simp add: calmed_def)

text \<open>
  Shutdown leaves no domain generating (no interference, no faults): after
  RollbackAllGeneratingDomains every live domain has another status, and the domains that were
  not generating are unchanged.
\<close>

theorem shutdown_clears_generating:
  assumes "calm e" and "w' = snd (run_state (RollbackAllGeneratingDomains e) w)"
  shows "\<forall>i. (rowOf i w' = None) = (rowOf i w = None)
    \<and> (\<forall>d. rowOf i w' = Some d \<longrightarrow> dStatus d \<noteq> ''generating'')
    \<and> (settled i w \<longrightarrow> rowOf i w' = rowOf i w)"
proof -
  let ?ds = "filter (\<lambda>d. live d \<and> dStatus d = ''generating'') (domains w)"
  have w': "w' = snd (run_state (forEach ?ds (\<lambda>d. rollbackStuckGenerating e d True)) (later 1 w))"
    using assms by (simp add: RollbackAllGeneratingDomains_def Find_def run_simps)
  have c: "calmed (dID ` set ?ds) (later 1 w) w'"
    unfolding w' by (rule rollback_loop [OF assms(1)])
  have "dStatus d \<noteq> ''generating''" if d: "rowOf i w' = Some d" for i d
  proof (cases "settled i w")
    case True
    then show ?thesis using c d by (auto simp: calmed_def settled_def)
  next
    case False
    have "(rowOf i w' = None) = (rowOf i w = None)" using c unfolding calmed_def by simp
    then have "rowOf i w \<noteq> None" using d by simp
    then obtain d0 where d0: "rowOf i w = Some d0" by blast
    with False have "dStatus d0 = ''generating''" by (simp add: settled_def)
    then have "i \<in> dID ` set ?ds" using rowOf_id [OF d0] by force
    then show ?thesis using c d d0 by (auto simp: calmed_def settled_def)
  qed
  then show ?thesis using c unfolding calmed_def settled_later later_fields by blast
qed

theorem shutdown_clears_generating_witness:
  "\<exists>d. rowOf 1 (snd (run_state (RollbackAllGeneratingDomains idleEnv)
     (sampleWorld ''generating'' [] [(1, 1)]))) = Some d \<and> dStatus d \<noteq> ''generating''"
  using shutdown_clears_generating [OF calm_idleEnv refl, of "sampleWorld ''generating'' [] [(1, 1)]"]
  by (metis (no_types, lifting) not_None_eq sampleWorld_row)

section \<open>When a renewal starts\<close>

lemma start_effect:
  assumes "calm e" and "run_state (StartCertJob e d u renew ar) v = (x, v')"
  shows "slots v' = slots v \<and> (spawned v' = spawned v \<or> (\<exists>t. spawned v' = spawned v @
        [\<lparr>jobToken = t, jobDomain = d, jobUser = u, jobRenew = renew, jobAutoRenew = ar\<rparr>]))"
proof -
  obtain t q where b: "run_state (beginCertJob e (dID d)) v = (t, q)" by fastforce
  have "keeps (sameAlloc v) (beginCertJob e (dID d))"
    by (rule keeps_begin [OF stable_sameAlloc [OF assms(1)]]) (auto intro: sameAlloc_frame)
  then have "sameAlloc v q" using keepsD [of "sameAlloc v" _ v] b by fastforce
  then show ?thesis
    using assms b by (auto simp: StartCertJob_def run_simps sameAlloc_def split: option.splits)
qed

lemma rolledBack_spawned: "spawned (rolledBack i msg rv w) = spawned w"
  by (simp add: rolledBack_def split: option.split)

lemma lockAndStart_effect:
  assumes "calm e" and "wf_store w" and "rowOf (dID d) w = Some d" and "\<not> inflight w (dID d)"
    and "run_state (lockAndStartRenewal e d) w = (r, w')" and "spawned w' \<noteq> spawned w"
  shows "hasCertRow (dID d) w \<and> slots w < certJobSlotsCap e \<and> slots w' = Suc (slots w)
    \<and> (\<exists>j. spawned w' = spawned w @ [j] \<and> jobDomain j = d \<and> uID (jobUser j) = dUserID d
         \<and> jobRenew j \<and> jobAutoRenew j)"
proof -
  obtain l v where lock: "run_state (lockDomainForCertJob e d True) w = (l, v)" by fastforce
  have alloc: "sameAlloc w v" using lock_alloc [OF assms(1) lock] .
  have cert: "hasCertRow (dID d) w" if "l = Some (Inr u)" for u
    using lock_calm [OF assms(1-3) refl lock refl] that by (auto split: if_splits)
  from lock_cases [OF assms(1-3) refl assms(4) lock] show ?thesis
  proof (elim disjE exE conjE)
    fix u d'
    assume l: "l = Some (Inr u)" and u: "find (userByID (dUserID d)) (users w) = Some u"
    have "uID u = dUserID d" using find_SomeD [OF u] by (simp add: userByID_def)
    then show ?thesis
      using assms(1,5,6) lock l alloc cert start_effect [OF assms(1), of d u True True]
      by (force simp: lockAndStartRenewal_def run_simps sendSlot_def sameAlloc_def rolledBack_spawned
          split: if_splits)
  next
    fix err
    assume "l = Some (Inl err)"
    then show ?thesis using assms(5,6) lock alloc by (auto simp: lockAndStartRenewal_def sameAlloc_def)
  qed
qed

text \<open>
  Automatic renewal starts a job only for a domain it may renew (no interference, no
  faults): when tryAutoRenewDomain adds a worker, it adds one, a renewal of that domain for its
  owner; the domain was neither generating nor pending, had automatic renewal on and no running
  backoff, pointed its CNAME at the target, owned a certificate, and a slot was free and is now
  taken.
\<close>

theorem auto_renew_starts:
  assumes "calm e" and "wf_store w" and "rowOf (dID d) w = Some d" and "\<not> inflight w (dID d)"
    and "run_state (tryAutoRenewDomain e d) w = (r, w')" and "spawned w' \<noteq> spawned w"
  shows "dStatus d \<notin> {''generating'', ''pending''} \<and> dAutoRenew d
    \<and> (\<forall>until. dAutoRenewBackoffUntil d = Some until \<longrightarrow> until \<le> clock w)
    \<and> dCNameTarget d \<noteq> [] \<and> hasCertRow (dID d) w
    \<and> slots w < certJobSlotsCap e \<and> slots w' = Suc (slots w)
    \<and> (\<exists>j. spawned w' = spawned w @ [j] \<and> jobDomain j = d \<and> uID (jobUser j) = dUserID d
         \<and> jobRenew j \<and> jobAutoRenew j)"
proof -
  have quietly: "spawned v = spawned w" if "v = w \<or> v = later n w" for v n using that by auto
  obtain k where skip: "dStatus d \<notin> {''generating'', ''pending''} \<and> dAutoRenew d
      \<and> (\<forall>until. dAutoRenewBackoffUntil d = Some until \<longrightarrow> until \<le> clock w) \<and> dCNameTarget d \<noteq> []"
    and run: "run_state (lockAndStartRenewal e d) (later k w) = (r, w')"
    using assms(1,5,6)
    by (auto simp: tryAutoRenewDomain_def inBackoff_def run_simps Before_def
        split: if_splits option.splits sum.splits)
  have wf: "wf_store (later k w)" using assms(2) by (simp add: wf_store_def)
  show ?thesis
    using lockAndStart_effect [OF assms(1) wf _ _ run] skip assms(3,4,6) by simp
qed

theorem auto_renew_starts_witness:
  "\<exists>j. spawned (snd (run_state (tryAutoRenewDomain idleEnv (sampleDomain ''active''))
     (sampleWorld ''active'' [sampleCert] []))) = [j] \<and> uID (jobUser j) = 7"
proof -
  let ?w = "sampleWorld ''active'' [sampleCert] []" and ?d = "sampleDomain ''active''"
  obtain r w' where run: "run_state (tryAutoRenewDomain idleEnv ?d) ?w = (r, w')" by fastforce
  have "run_state (VerifyChallengeCNAME idleEnv ''example.com'' ''1.cname.yourservice.com'') ?w
      = (Inr (), later 1 ?w)"
    unfolding prod_eq_iff fst_conv snd_conv Verify_ok Verify_state by (simp add: sample_cname run_simps)
  then have "spawned w' \<noteq> []"
    using run
    by (auto simp: tryAutoRenewDomain_def inBackoff_def lockAndStartRenewal_def lockDomainForCertJob_def
        StartCertJob_def run_beginCertJob waitDomainWorker_def
        run_simps run_clearStaleJob_calm takeLock_def lockUpd.run_updates First_def Let_def inflight_def
        live_def byID_def lockable_def userByID_def sendSlot_def user7 certJobSlotsCap_pos
        certOfDomain_def
        simp del: run_Verify split: prod.splits if_splits)
  moreover have "wf_store ?w" by (simp add: statuses_def)
  ultimately show ?thesis
    using auto_renew_starts [OF calm_idleEnv _ _ _ run] run by (auto simp: inflight_def)
qed

text \<open>
  A failed renewal is not repeated before its backoff: after an automatic renewal of
  a domain failed, the scheduler that reads the row again leaves it alone until the backoff of
  the new failure count has passed.
\<close>

theorem backoff_respected:
  assumes "calm e" and "rowOf i w = Some d"
    and "rowOf i (snd (run_state (failCertJob e i msg True) w)) = Some d'"
    and "clock (settle e v) < clock w + AutoRenewBackoffDuration (Renewal (cfg e))
           (wrap64 (dAutoRenewFailures d + 1))"
  shows "\<exists>v' \<in> {v, settle e v}. run_state (tryAutoRenewDomain e d') v = (Some (), v')"
proof -
  have "dAutoRenewBackoffUntil d' = Some (clock w + AutoRenewBackoffDuration (Renewal (cfg e))
      (wrap64 (dAutoRenewFailures d + 1)))"
    using failCertJob_effect [OF assms(1,2) refl, of msg True] assms(3) by auto
  then show ?thesis using assms(4) by (intro skip_renewal) auto
qed

theorem backoff_respected_witness:
  "fst (run_state (tryAutoRenewDomain idleEnv
     (the (rowOf 1 (snd (run_state (failCertJob idleEnv 1 ''boom'' True)
       (sampleWorld ''generating'' [sampleCert] []))))))
     (sampleWorld ''active'' [sampleCert] [])) = Some ()"
proof -
  let ?w = "sampleWorld ''generating'' [sampleCert] []" and ?v = "sampleWorld ''active'' [sampleCert] []"
  obtain d' where d': "rowOf 1 (snd (run_state (failCertJob idleEnv 1 ''boom'' True) ?w)) = Some d'"
    using failCertJob_effect [OF calm_idleEnv _ refl, of 1 ?w "sampleDomain ''generating''" "''boom''" True]
    by auto
  have "AutoRenewBackoffDuration (Renewal prodCfg) (wrap64 1) = 6 * Hour"
    by (simp add: prodCfg_fields AutoRenewBackoffDuration_def wrap64_def parseDurationDefault_def
        setDefaults_def go_simps)
  then have "clock (settle idleEnv ?v) < clock ?w + AutoRenewBackoffDuration (Renewal (cfg idleEnv))
      (wrap64 (dAutoRenewFailures (sampleDomain ''generating'') + 1))"
    by (simp add: run_simps sampleDomain_def Hour_def)
  from backoff_respected [OF calm_idleEnv _ d' this] show ?thesis unfolding d' by auto
qed

section \<open>The loop\<close>

text \<open>Computations that do not block, and how they compose.\<close>

definition answers :: "(world, 'r option) state \<Rightarrow> bool" where
  "answers m \<longleftrightarrow> (\<forall>w. fst (run_state m w) \<noteq> None)"

lemma answers_step:
  assumes "answers m" and "\<And>x. answers (f (Some x))"
  shows "answers (State_Monad.bind m f)"
  unfolding answers_def
proof
  fix s
  obtain y t where "run_state m s = (Some y, t)"
    using assms(1) unfolding answers_def by (metis not_None_eq prod.collapse)
  then have "fst (run_state (State_Monad.bind m f) s) = fst (run_state (f (Some y)) t)"
    by simp
  then show "fst (run_state (State_Monad.bind m f) s) \<noteq> None"
    using assms(2) unfolding answers_def by metis
qed

lemma answers_bind: "(\<And>x. answers (f x)) \<Longrightarrow> answers (State_Monad.bind m f)"
  unfolding answers_def by (simp split: prod.split)

lemma answers_return [simp]: "answers (State_Monad.return r) \<longleftrightarrow> r \<noteq> None"
  by (simp add: answers_def)

lemma answers_if: "answers m \<Longrightarrow> answers n \<Longrightarrow> answers (if b then m else n)"
  by simp

lemma answers_case_sum:
  "(\<And>x. answers (f x)) \<Longrightarrow> (\<And>y. answers (g y)) \<Longrightarrow>
     answers (case s of Inl x \<Rightarrow> f x | Inr y \<Rightarrow> g y)"
  by (simp split: sum.split)

lemma answers_case_option:
  "answers m \<Longrightarrow> (\<And>y. answers (g y)) \<Longrightarrow> answers (case s of None \<Rightarrow> m | Some y \<Rightarrow> g y)"
  by (simp split: option.split)

lemma answers_forEachO: "(\<And>x. answers (f x)) \<Longrightarrow> answers (forEachO xs f)"
  by (induction xs) (auto intro!: answers_step)

lemma answers_wait: "0 < generatingTimeout e \<Longrightarrow> answers (waitDomainWorker e d (generatingTimeout e))"
  using wait_returns [of "generatingTimeout e" e d] by (force simp: answers_def)

lemma answers_cleanup:
  assumes "0 < generatingTimeout e"
  shows "answers (runStuckGeneratingCleanup e timeout)"
proof -
  have wait: "answers (if running then State_Monad.bind (cancelCertJob e i)
      (\<lambda>_. waitDomainWorker e i (generatingTimeout e)) else State_Monad.return (Some True))" for running i
    by (intro answers_if answers_bind answers_wait assms) simp
  have one: "answers (do {
         running \<leftarrow> certJobInflight e i;
         waited \<leftarrow> (if running then do {
                      _ \<leftarrow> cancelCertJob e i;
                      waitDomainWorker e i (generatingTimeout e)
                    } else State_Monad.return (Some True));
         case waited of
           None \<Rightarrow> State_Monad.return None
         | Some _ \<Rightarrow> do { _ \<leftarrow> rollbackStuckGenerating e d False; State_Monad.return (Some ()) }})" for i d
    by (rule answers_bind, rule answers_step [OF wait]) (simp add: answers_bind)
  show ?thesis
    unfolding runStuckGeneratingCleanup_def Let_def
    by (intro answers_bind answers_case_sum answers_forEachO one) simp_all
qed

lemma answers_clear:
  assumes "0 < generatingTimeout e"
  shows "answers (clearStaleJob e i b)"
proof -
  have waited: "answers (State_Monad.bind (waitDomainWorker e i (generatingTimeout e)) (\<lambda>waited.
      State_Monad.return (case waited of None \<Rightarrow> None
        | Some finished \<Rightarrow> Some (if finished then None else Some errCertOperationInProgress))))"
    by (rule answers_step [OF answers_wait [OF assms]]) simp
  show ?thesis
    unfolding clearStaleJob_def
    by (rule answers_bind, rule answers_if, simp, rule answers_if, simp, rule answers_bind, rule waited)
qed

lemma answers_lock:
  assumes "0 < generatingTimeout e"
  shows "answers (lockDomainForCertJob e row req)"
proof -
  have cleared: "answers (do {
       cleared \<leftarrow> clearStaleJob e i b;
       case cleared of
         None \<Rightarrow> State_Monad.return None
       | Some (Some err) \<Rightarrow> State_Monad.return (Some (Inl err))
       | Some None \<Rightarrow> do { u \<leftarrow> m; State_Monad.return (Some u) }})"
    for i b and m :: "(world, err + UserRow) state"
    by (rule answers_step [OF answers_clear [OF assms]]) (simp add: answers_bind split: option.split)
  show ?thesis
    unfolding lockDomainForCertJob_def Let_def
    by (rule answers_bind, rule answers_case_sum, simp, rule answers_bind, rule answers_case_sum, simp,
        rule answers_bind, rule cleared)
qed

lemma answers_start:
  assumes "0 < generatingTimeout e"
  shows "answers (StartCertJob e d u renew ar)"
proof -
  have "fst (run_state (StartCertJob e d u renew ar) w) \<noteq> None" for w
    using wait_returns [OF assms, of e "dID d" "cancelEntry (dID d) (settle e w)"]
    by (auto simp: StartCertJob_def run_beginCertJob run_simps Let_def split: prod.split)
  then show ?thesis by (simp add: answers_def)
qed

lemma answers_renew:
  assumes "0 < generatingTimeout e"
  shows "answers (tryAutoRenewDomain e d)"
proof -
  have "answers (lockAndStartRenewal e d)"
    unfolding lockAndStartRenewal_def
    apply (rule answers_step [OF answers_lock [OF assms]])
    apply (simp add: answers_bind answers_start [OF assms] split: sum.split)
    done
  then show ?thesis
    unfolding tryAutoRenewDomain_def
    by (intro answers_if answers_bind answers_case_sum) simp_all
qed

lemma answers_scan: "0 < generatingTimeout e \<Longrightarrow> answers (runRenewalScan e)"
  unfolding runRenewalScan_def Let_def
  by (intro answers_bind answers_case_sum answers_forEachO answers_renew) simp_all

lemma answers_loop:
  assumes "0 < generatingTimeout e"
  shows "answers (schedulerLoop e timeout renewal es)"
proof (induction es)
  case (Cons x es)
  note step = answers_step [OF answers_cleanup [OF assms]] answers_step [OF answers_scan [OF assms]]
  show ?case using Cons by (cases x) (auto intro: step)
qed simp

text \<open>One thing the scheduler does on a tick, as a map of the world; without auto renewal there is no scan.\<close>

definition schedulerTick :: "env \<Rightarrow> schedEvent \<Rightarrow> world \<Rightarrow> world" where
  "schedulerTick e x w =
     (case x of
        CtxDone \<Rightarrow> w
      | CleanupTick \<Rightarrow> snd (run_state (runStuckGeneratingCleanup e (generatingTimeout e)) w)
      | RenewalTick \<Rightarrow>
          if RenewalIsEnabled (Renewal (cfg e)) then snd (run_state (runRenewalScan e) w) else w)"

lemma run_answered:
  assumes "answers m"
  shows "(case run_state m w of (r, v) \<Rightarrow> run_state (case r of None \<Rightarrow> State_Monad.return None | Some _ \<Rightarrow> k) v)
    = run_state k (snd (run_state m w))"
proof -
  have "fst (run_state m w) \<noteq> None" using assms by (simp add: answers_def)
  then show ?thesis by (auto simp: case_prod_unfold)
qed

lemma schedulerTick_simps:
  "schedulerTick e CleanupTick w = snd (run_state (runStuckGeneratingCleanup e (generatingTimeout e)) w)"
  "RenewalIsEnabled (Renewal (cfg e)) \<Longrightarrow> schedulerTick e RenewalTick w = snd (run_state (runRenewalScan e) w)"
  "\<not> RenewalIsEnabled (Renewal (cfg e)) \<Longrightarrow> schedulerTick e RenewalTick w = w"
  by (simp_all add: schedulerTick_def)

lemma loop_ticks:
  assumes "0 < generatingTimeout e"
  shows "run_state (schedulerLoop e (generatingTimeout e) (RenewalIsEnabled (Renewal (cfg e))) es) w
    = (Some (), fold (schedulerTick e) (takeWhile (\<lambda>x. x \<noteq> CtxDone) es) w)"
proof (induction es arbitrary: w)
  case (Cons x es)
  note returns = run_answered [OF answers_cleanup [OF assms]] run_answered [OF answers_scan [OF assms]]
  show ?case
    by (cases x; cases "RenewalIsEnabled (Renewal (cfg e))")
      (use Cons in \<open>simp_all add: returns schedulerTick_simps\<close>)
qed simp

text \<open>
  Property C30. The scheduler never hangs, and stops only for a bad interval. With a positive generating
  timeout, for every sequence of ticks, schedule and fault: when an interval it needs is not positive the
  run panics right after the first cleanup, with no scan and no tick served; otherwise it returns, having
  done one cleanup, one scan and then one cleanup or scan for each tick until the context ends, in this
  order (no scan at all when auto renewal is off). Validate does not look at the intervals: it accepts
  the same configurations whatever their renewal section is.
\<close>

theorem scheduler_outcome:
  assumes "0 < generatingTimeout e"
  shows "run_state (StartRenewalScheduler e events) w =
      (if GeneratingCheckIntervalDuration (Renewal (cfg e)) \<le> 0
          \<or> RenewalIsEnabled (Renewal (cfg e)) \<and> renewalInterval e \<le> 0
       then (Some Panics, schedulerTick e CleanupTick w)
       else (Some (Returns ()),
         fold (schedulerTick e) ([CleanupTick, RenewalTick] @ takeWhile (\<lambda>x. x \<noteq> CtxDone) events) w))
    \<and> (\<forall>os cf r. Validate os (cf\<lparr>Renewal := r\<rparr>) = Validate os cf)"
proof -
  note returns = run_answered [OF answers_cleanup [OF assms]] run_answered [OF answers_scan [OF assms]]
  have "Validate os (cf\<lparr>Renewal := r\<rparr>) = Validate os cf" for os cf r
    by (simp add: Validate_def validateSessionAndCORS_def Let_def cong: option.case_cong sum.case_cong if_cong)
  moreover note loop_ticks [OF assms, of events]
  ultimately show ?thesis
    by (cases "RenewalIsEnabled (Renewal (cfg e))")
      (simp_all add: StartRenewalScheduler_def NewTicker_def schedulerTick_simps returns)
qed

definition tickerEnv :: env where
  "tickerEnv = idleEnv\<lparr>cfg := prodCfg\<lparr>Renewal := (Renewal prodCfg)\<lparr>GeneratingCheckInterval := ''0s''\<rparr>\<rparr>\<rparr>"

lemma tickerEnv_fields:
  "Renewal (cfg tickerEnv) = (Renewal prodCfg)\<lparr>GeneratingCheckInterval := ''0s''\<rparr>"
  "osenv tickerEnv = prodOs"
  by (simp_all add: tickerEnv_def)

lemma tickerEnv_interval:
  "GeneratingCheckIntervalDuration (Renewal (cfg tickerEnv)) = 0" "0 < generatingTimeout tickerEnv"
proof -
  show "GeneratingCheckIntervalDuration (Renewal (cfg tickerEnv)) = 0"
    by (simp add: tickerEnv_fields GeneratingCheckIntervalDuration_def parseDurationDefault_def
        ParseDuration_examples)
  have "generatingTimeout tickerEnv = generatingTimeout idleEnv"
    by (simp add: tickerEnv_fields GeneratingTimeoutDuration_def)
  then show "0 < generatingTimeout tickerEnv" by (simp add: Minute_def)
qed

lemma tickerEnv_valid: "Validate (osenv tickerEnv) (cfg tickerEnv) = Inr ()"
  using prodCfg_valid by (auto simp: tickerEnv_def Validate_ok validateSessionAndCORS_def split: if_splits)

theorem scheduler_outcome_witness:
  "Validate (osenv tickerEnv) (cfg tickerEnv) = Inr ()
   \<and> run_state (StartRenewalScheduler tickerEnv []) (sampleWorld ''active'' [sampleCert] [])
       = (Some Panics, schedulerTick tickerEnv CleanupTick (sampleWorld ''active'' [sampleCert] []))"
  using scheduler_outcome [OF tickerEnv_interval(2)] tickerEnv_interval(1) tickerEnv_valid by simp

end
