(* ===== verification/Dto.thy ===== *)
theory Dto
  imports Http
begin

text \<open>
  controllers/dto.go: what the API shows of a row. A pointer field is an option; the one clock
  reading of mapCertStatus makes the conversions of a certificate stateful.
\<close>

section \<open>The transfer records\<close>

record DomainDTO =
  ddID :: string
  ddName :: string
  ddStatus :: string
  ddCertStatus :: string
  ddCertExpiresAt :: "string option"
  ddAutoRenew :: bool
  ddRenewError :: "string option"
  ddCreatedAt :: string

record CnameRecordDTO =
  crType :: string
  crName :: string
  crValue :: string
  crVerified :: bool

record CnameConfigDTO =
  ccDomainID :: string
  ccRecords :: "CnameRecordDTO list"
  ccInstructions :: string
  ccNote :: string
  ccVerified :: bool
  ccVerifiedAt :: "string option"
  ccLiveChecked :: bool

record CertificateInfoDTO =
  ciDomainID :: string
  ciStatus :: string
  ciExpiresAt :: "string option"
  ciIssuer :: string
  ciSerialNumber :: string

record CertificateDownloadDTO =
  cdCertificate :: string
  cdPrivateKey :: string
  cdChain :: string
  cdFullchain :: string

record DeployTargetDTO =
  dtID :: string
  dtName :: string
  dtType :: string
  dtHost :: string
  dtPort :: "int option"
  dtEnabled :: bool
  dtLastDeployAt :: "string option"
  dtLastStatus :: string

record DeployJobDTO =
  djID :: string
  djStatus :: string
  djTargets :: "DeployJobTargetDTO list"
  djCreatedAt :: string
  djFinishedAt :: "string option"

text \<open>
  The payloads of the API, a gin.H as a constructor of its own, and the three kinds of reply: JSON,
  a file, and a bare status.
\<close>

datatype payload =
    PDomain DomainDTO
  | PDomains "DomainDTO list"
  | PCname CnameConfigDTO
  | PVerify bool "string option" string
  | PStarted string string
  | PCertInfo CertificateInfoDTO
  | PCertInfos "CertificateInfoDTO list"
  | PDownload CertificateDownloadDTO
  | PTarget DeployTargetDTO
  | PTargets "DeployTargetDTO list"
  | PDeployJob DeployJobDTO
  | PUser uint string
  | PMessage string

datatype reply =
    Json "payload response"
  | Attachment string "string \<Rightarrow> bytes option"
  | JsonField nat string string
  | BareStatus nat

section \<open>Times and statuses\<close>

definition formatTime :: "env \<Rightarrow> time \<Rightarrow> string" where
  "formatTime e t = formatRFC3339 e t"

definition formatTimePtr :: "env \<Rightarrow> time option \<Rightarrow> string option" where
  "formatTimePtr e t = map_option (formatTime e) t"

text \<open>\<open>time.Time.IsZero\<close>: January 1 of year 1, in nanoseconds from the Unix epoch.\<close>

definition isZeroTime :: "time \<Rightarrow> bool" where
  "isZeroTime t \<longleftrightarrow> t = - 62135596800 * Second"

definition mapDomainStatus :: "string \<Rightarrow> string" where
  "mapDomainStatus status =
     (if status = ''active'' then ''active''
      else if status = ''error'' then ''failed''
      else if status = ''generating'' then ''generating''
      else if status = ''verified'' then ''verified''
      else ''pending'')"

definition mapCertStatus :: "env \<Rightarrow> DomainRow \<Rightarrow> CertRow option \<Rightarrow> (world, string) state" where
  "mapCertStatus e domain cert =
     (if dStatus domain = ''error'' then State_Monad.return ''failed''
      else if dStatus domain = ''generating'' then State_Monad.return ''generating''
      else case cert of
        None \<Rightarrow> State_Monad.return ''none''
      | Some c \<Rightarrow> do {
          now \<leftarrow> Now e;
          State_Monad.return
            (if After now (cExpiresAt c) then ''expired''
             else if dStatus domain = ''active'' then ''valid'' else ''pending'')
        })"

definition expiryString :: "env \<Rightarrow> CertRow option \<Rightarrow> string option" where
  "expiryString e cert =
     (case cert of
        None \<Rightarrow> None
      | Some c \<Rightarrow> if isZeroTime (cExpiresAt c) then None else Some (formatTime e (cExpiresAt c)))"

section \<open>Conversions\<close>

definition toDomainDTO :: "env \<Rightarrow> DomainRow \<Rightarrow> CertRow option \<Rightarrow> (world, DomainDTO) state" where
  "toDomainDTO e domain cert = do {
     certStatus \<leftarrow> mapCertStatus e domain cert;
     State_Monad.return
       \<lparr>ddID = FormatUint (dID domain),
        ddName = dDomain domain,
        ddStatus = mapDomainStatus (dStatus domain),
        ddCertStatus = certStatus,
        ddCertExpiresAt = expiryString e cert,
        ddAutoRenew = dAutoRenew domain,
        ddRenewError = (if dErrorMessage domain \<noteq> [] \<and> dStatus domain = ''active''
                        then Some (dErrorMessage domain) else None),
        ddCreatedAt = formatTime e (dCreatedAt domain)\<rparr>
   }"

definition isCnameVerifiedStatus :: "string \<Rightarrow> bool" where
  "isCnameVerifiedStatus status \<longleftrightarrow> status \<in> {''verified'', ''active'', ''generating''}"

text \<open>The arrow of the instructions is U+2192 in UTF-8.\<close>

definition cnameInstructions :: "string \<Rightarrow> string \<Rightarrow> string" where
  "cnameInstructions host target =
     ''Add a CNAME record at your DNS host: '' @ host @ '' ''
     @ [CHR 0xE2, CHR 0x86, CHR 0x92] @ '' '' @ target"

definition cnameNote :: string where
  "cnameNote = ''CNAME delegation: add the record above at any DNS provider. ACME challenge TXT records are published automatically on the delegation target; no DNS API credentials are required from you.''"

definition toCnameConfigDTO :: "env \<Rightarrow> DomainRow \<Rightarrow> bool option \<Rightarrow> CnameConfigDTO" where
  "toCnameConfigDTO e domain liveVerified =
     (let cnameHost = ''_acme-challenge.'' @ dDomain domain;
          verified = (case liveVerified of
                        Some v \<Rightarrow> v
                      | None \<Rightarrow> dCNameTarget domain \<noteq> [] \<and> isCnameVerifiedStatus (dStatus domain))
      in \<lparr>ccDomainID = FormatUint (dID domain),
          ccRecords = [\<lparr>crType = ''CNAME'', crName = cnameHost, crValue = dCNameTarget domain,
                        crVerified = verified\<rparr>],
          ccInstructions = cnameInstructions cnameHost (dCNameTarget domain),
          ccNote = cnameNote,
          ccVerified = verified,
          ccVerifiedAt = formatTimePtr e (dCnameVerifiedAt domain),
          ccLiveChecked = (liveVerified \<noteq> None)\<rparr>)"

text \<open>\<open>%X\<close> of a big.Int: the sign and the digits in upper case.\<close>

definition upperHexDigit :: "nat \<Rightarrow> char" where
  "upperHexDigit n = (char_of (if n < 10 then 48 + n else 55 + n))"

fun upperHex :: "nat \<Rightarrow> string" where
  "upperHex n = (if n < 16 then [upperHexDigit n] else upperHex (n div 16) @ [upperHexDigit (n mod 16)])"

declare upperHex.simps [simp del]

definition formatSerial :: "int option \<Rightarrow> string" where
  "formatSerial n =
     (case n of
        None \<Rightarrow> []
      | Some i \<Rightarrow> (if i < 0 then ''-'' else []) @ upperHex (nat \<bar>i\<bar>))"

definition parseCertMeta :: "env \<Rightarrow> bytes \<Rightarrow> string \<times> string" where
  "parseCertMeta e certPEM =
     (case certMeta e certPEM of
        None \<Rightarrow> ([], [])
      | Some (commonName, organization, serialNumber) \<Rightarrow>
          (if commonName = [] \<and> organization \<noteq> [] then hd organization else commonName,
           formatSerial serialNumber))"

definition toCertificateInfoDTO ::
  "env \<Rightarrow> DomainRow \<Rightarrow> CertRow option \<Rightarrow> (world, CertificateInfoDTO) state" where
  "toCertificateInfoDTO e domain cert = do {
     status \<leftarrow> mapCertStatus e domain cert;
     let (issuer, serial) = (case cert of None \<Rightarrow> ([], []) | Some c \<Rightarrow> parseCertMeta e (cCertPEM c));
     State_Monad.return
       \<lparr>ciDomainID = FormatUint (dID domain), ciStatus = status, ciExpiresAt = expiryString e cert,
        ciIssuer = issuer, ciSerialNumber = serial\<rparr>
   }"

definition toCertificateDownloadDTO :: "CertRow \<Rightarrow> bytes \<Rightarrow> CertificateDownloadDTO" where
  "toCertificateDownloadDTO cert keyPEM =
     \<lparr>cdCertificate = cCertPEM cert, cdPrivateKey = keyPEM, cdChain = cIssuer cert,
      cdFullchain = cCertPEM cert @ [CHR 0x0A] @ cIssuer cert\<rparr>"

definition toDeployTargetDTO :: "env \<Rightarrow> TargetRow \<Rightarrow> DeployTargetDTO" where
  "toDeployTargetDTO e t =
     \<lparr>dtID = FormatUint (tID t), dtName = tName t, dtType = tType t, dtHost = tHost t,
      dtPort = (if tPort t > 0 then Some (tPort t) else None), dtEnabled = tEnabled t,
      dtLastDeployAt = formatTimePtr e (tLastDeployAt t), dtLastStatus = tLastStatus t\<rparr>"

definition toDeployJobDTO :: "env \<Rightarrow> DeployJobRow \<Rightarrow> DeployJobDTO" where
  "toDeployJobDTO e job =
     \<lparr>djID = FormatUint (jID job), djStatus = jStatus job,
      djTargets = (if jTargetsJSON job = [] then []
                   else case jsonTargets e (jTargetsJSON job) of None \<Rightarrow> [] | Some ts \<Rightarrow> ts),
      djCreatedAt = formatTime e (jCreatedAt job),
      djFinishedAt = formatTimePtr e (jFinishedAt job)\<rparr>"

section \<open>Lemmas\<close>

lemma keeps_mapCertStatus [keeps_intros]: "stable e I \<Longrightarrow> keeps I (mapCertStatus e d c)"
  unfolding mapCertStatus_def by (intro keeps_intros keeps_queries)

lemma keeps_toDTO [keeps_intros]:
  "stable e I \<Longrightarrow> keeps I (toDomainDTO e d c)" "stable e I \<Longrightarrow> keeps I (toCertificateInfoDTO e d c)"
  unfolding toDomainDTO_def toCertificateInfoDTO_def Let_def
  by (intro keeps_intros | simp)+

text \<open>The status words of the API, for the five statuses of a row and for any other string.\<close>

lemma mapDomainStatus_values:
  "mapDomainStatus s \<in> {''active'', ''failed'', ''generating'', ''verified'', ''pending''}"
  by (simp add: mapDomainStatus_def)

end
