(* ===== verification/Domain_Api.thy ===== *)
theory Domain_Api
  imports Dto Domain_Name Dns_Verify Cert_Status
begin

text \<open>
  controllers/domain.go: registering, claiming, listing, changing and deleting domains. A handler
  takes the request and returns the response it sends.
\<close>

record DomainInput =
  inName :: string
  inDomain :: string

record UpdateDomainInput =
  inAutoRenew :: "bool option"

section \<open>Names and rows\<close>

definition namesOf :: "env \<Rightarrow> names" where
  "namesOf e = \<lparr>toASCII = idna e, parseIPv6 = ipv6 e, tables = uni (osenv e)\<rparr>"

definition domainNameFromInput :: "env \<Rightarrow> DomainInput \<Rightarrow> nameError + string" where
  "domainNameFromInput e input =
     ValidateDomainName (namesOf e) (if inName input = [] then inDomain input else inName input)"

definition byName :: "string \<Rightarrow> DomainRow \<Rightarrow> bool" where
  "byName n d \<longleftrightarrow> dDomain d = n"

definition loadDomainDTO :: "env \<Rightarrow> DomainRow \<Rightarrow> (world, DomainDTO) state" where
  "loadDomainDTO e domain = do {
     cert \<leftarrow> loadCertificate e (dID domain);
     toDomainDTO e domain cert
   }"

definition respondDomain :: "env \<Rightarrow> DomainRow \<Rightarrow> (world, payload response) state" where
  "respondDomain e domain = do {
     dto \<leftarrow> loadDomainDTO e domain;
     State_Monad.return (RespondSuccess (Some (PDomain dto)))
   }"

section \<open>Claiming\<close>

definition targetCols :: "string \<Rightarrow> DomainRow \<Rightarrow> DomainRow" where
  "targetCols target d = d\<lparr>dCNameTarget := target\<rparr>"

definition claimCols :: "uint \<Rightarrow> time \<Rightarrow> DomainRow \<Rightarrow> DomainRow" where
  "claimCols userID now d =
     d\<lparr>dUserID := userID, dStatus := ''verified'', dErrorMessage := [], dGeneratingSince := None,
       dAutoRenew := True, dCnameVerifiedAt := Some now, dAutoRenewFailures := 0,
       dAutoRenewBackoffUntil := None\<rparr>"

definition restoreCols :: "DomainRow \<Rightarrow> DomainRow" where
  "restoreCols d =
     d\<lparr>dDeletedAt := None, dStatus := ''pending'', dErrorMessage := [], dGeneratingSince := None,
       dAutoRenew := True, dCnameVerifiedAt := None, dAutoRenewFailures := 0,
       dAutoRenewBackoffUntil := None\<rparr>"

definition autoRenewCols :: "bool \<Rightarrow> DomainRow \<Rightarrow> DomainRow" where
  "autoRenewCols on d =
     (if on then d\<lparr>dAutoRenew := True, dAutoRenewFailures := 0, dAutoRenewBackoffUntil := None,
                   dErrorMessage := []\<rparr>
      else d\<lparr>dAutoRenew := False\<rparr>)"

interpretation targetUpd: domain_update "targetCols target" for target
  by unfold_locales (auto simp: targetCols_def status_ok_def)

interpretation claimUpd: domain_update "claimCols userID now" for userID now
  by unfold_locales (auto simp: claimCols_def status_ok_def statuses_def)

interpretation restoreUpd: row_update restoreCols
  by unfold_locales (auto simp: restoreCols_def status_ok_def statuses_def)

interpretation autoRenewUpd: domain_update "autoRenewCols on" for on
  by unfold_locales (auto simp: autoRenewCols_def status_ok_def)

definition isUnclaimedDomain :: "env \<Rightarrow> DomainRow \<Rightarrow> (world, bool) state" where
  "isUnclaimedDomain e domain = do {
     hasCert \<leftarrow> domainHasCertificate e (dID domain);
     if hasCert then State_Monad.return False
     else if dStatus domain = ''pending'' then State_Monad.return True
     else if dStatus domain = ''error'' then
       (if dCnameVerifiedAt domain = None then State_Monad.return True
        else do {
          now \<leftarrow> Now e;
          State_Monad.return
            (now - dUpdatedAt domain \<ge> UnclaimedErrorReleaseDuration (DomainCfg (cfg e)))
        })
     else State_Monad.return False
   }"

text \<open>The where clause of the transfer: a pending or error row with the id.\<close>

definition claimable :: "uint \<Rightarrow> DomainRow \<Rightarrow> bool" where
  "claimable i d \<longleftrightarrow> dID d = i \<and> dStatus d \<in> {''pending'', ''error''}"

definition assignUnclaimedDomainToUser :: "env \<Rightarrow> uint \<Rightarrow> uint \<Rightarrow> (world, err + DomainRow) state" where
  "assignUnclaimedDomainToUser e domainID userID = do {
     hasCert \<leftarrow> domainHasCertificate e domainID;
     if hasCert then State_Monad.return (Inl errDomainClaimLost)
     else do {
       now \<leftarrow> Now e;
       checked (UpdatesDomain e (claimable domainID) (claimCols userID now)) (\<lambda>rowsAffected.
       if rowsAffected = 0 then State_Monad.return (Inl errDomainClaimLost)
       else FirstDomain e (byID domainID))
     }
   }"

definition claimUnclaimedDomain :: "env \<Rightarrow> DomainRow \<Rightarrow> uint \<Rightarrow> (world, err + DomainRow) state" where
  "claimUnclaimedDomain e existing userID =
     checked (if dCNameTarget existing = [] then do {
                let target = DelegationTarget (cfg e) (dID existing);
                r \<leftarrow> UpdatesDomain e (byID (dID existing)) (targetCols target);
                State_Monad.return (map_sum (\<lambda>x. x) (\<lambda>_. target) r)
              } else State_Monad.return (Inr (dCNameTarget existing))) (\<lambda>target. do {
       v \<leftarrow> VerifyChallengeCNAME e (dDomain existing) target;
       case v of
         Inl err \<Rightarrow> State_Monad.return (Inl (Extend errDomainClaimCNAME
           ('': point _acme-challenge.'' @ dDomain existing @ '' CNAME to ''
            @ Quote (uni (osenv e)) target @ '' ('' @ errorText err @ '')'')))
       | Inr _ \<Rightarrow> assignUnclaimedDomainToUser e (dID existing) userID
     })"

section \<open>Creating, restoring and removing rows\<close>

text \<open>
  \<open>Create\<close> on the domains table: the unique index on the name covers soft-deleted rows too.
\<close>

definition CreateDomain :: "env \<Rightarrow> DomainRow \<Rightarrow> (world, err + DomainRow) state" where
  "CreateDomain e d =
     db e (\<lambda>w. if list_ex (byName (dDomain d)) (domains w)
               then (Inl (dbErr UniqueViolation), w)
               else let row = d\<lparr>dID := Suc (domainSeq w), dCreatedAt := clock w, dUpdatedAt := clock w\<rparr>
                    in (Inr row, w\<lparr>domainSeq := Suc (domainSeq w), domains := domains w @ [row]\<rparr>))"

text \<open>\<open>Delete\<close> on a row with a deletion mark: soft.\<close>

definition SoftDeleteDomain :: "env \<Rightarrow> uint \<Rightarrow> (world, err + unit) state" where
  "SoftDeleteDomain e i =
     db e (\<lambda>w. (Inr (), w\<lparr>domains :=
       map (\<lambda>d. if live d \<and> byID i d then d\<lparr>dDeletedAt := Some (clock w)\<rparr> else d) (domains w)\<rparr>))"

definition newDomainRow :: "uint \<Rightarrow> string \<Rightarrow> DomainRow" where
  "newDomainRow userID domainName =
     \<lparr>dID = 0, dUserID = userID, dDomain = domainName, dStatus = ''pending'', dGeneratingSince = None,
      dCNameTarget = [], dAutoRenew = True, dCnameVerifiedAt = None, dAutoRenewFailures = 0,
      dAutoRenewBackoffUntil = None, dErrorMessage = [], dCreatedAt = 0, dUpdatedAt = 0,
      dDeletedAt = None\<rparr>"

text \<open>
  The result of the compensating Delete is dropped. (The update also refreshes UpdatedAt of the
  struct in memory, which nothing reads afterwards.)
\<close>

definition createDomainRecord :: "env \<Rightarrow> uint \<Rightarrow> string \<Rightarrow> (world, err + DomainRow) state" where
  "createDomainRecord e userID domainName =
     checked (CreateDomain e (newDomainRow userID domainName)) (\<lambda>domain. do {
       let delegationTarget = DelegationTarget (cfg e) (dID domain);
       r \<leftarrow> UpdatesDomain e (byID (dID domain)) (targetCols delegationTarget);
       case r of
         Inl err \<Rightarrow> do {
           _ \<leftarrow> SoftDeleteDomain e (dID domain);
           State_Monad.return (Inl err)
         }
       | Inr _ \<Rightarrow> State_Monad.return (Inr (domain\<lparr>dCNameTarget := delegationTarget\<rparr>))
     })"

definition restoreDeletedDomain :: "env \<Rightarrow> DomainRow \<Rightarrow> (world, err + nat) state" where
  "restoreDeletedDomain e domain =
     Updates e domains domains_update (byID (dID domain)) (\<lambda>t d. (restoreCols d)\<lparr>dUpdatedAt := t\<rparr>)"

definition targetOfDomain :: "uint \<Rightarrow> TargetRow \<Rightarrow> bool" where
  "targetOfDomain i t \<longleftrightarrow> tDomainID t = i"

definition deployJobOfDomain :: "uint \<Rightarrow> DeployJobRow \<Rightarrow> bool" where
  "deployJobOfDomain i j \<longleftrightarrow> jDomainID j = i"

text \<open>The three deletions whose errors are not looked at.\<close>

definition deleteDependents :: "env \<Rightarrow> uint \<Rightarrow> (world, unit) state" where
  "deleteDependents e domainID = do {
     _ \<leftarrow> DeleteRows e certs certs_update (certOfDomain domainID);
     _ \<leftarrow> DeleteRows e targets targets_update (targetOfDomain domainID);
     _ \<leftarrow> DeleteRows e deployJobs deployJobs_update (deployJobOfDomain domainID);
     State_Monad.return ()
   }"

definition permanentlyRemoveDomain :: "env \<Rightarrow> uint \<Rightarrow> (world, err + nat) state" where
  "permanentlyRemoveDomain e domainID = do {
     _ \<leftarrow> deleteDependents e domainID;
     DeleteRows e domains domains_update (byID domainID)
   }"

section \<open>Handlers\<close>

definition claimResponse :: "err \<Rightarrow> payload response" where
  "claimResponse err =
     (if errorsIs err errDomainClaimLost then RespondError StatusConflict ''Domain already registered''
      else if errorsIs err errDomainClaimCNAME
      then RespondError StatusBadRequest
             (''To claim this domain, configure the CNAME record first: '' @ errorText err)
      else RespondError StatusInternalServerError ''Failed to claim domain'')"

text \<open>The name is registered: the row is live.\<close>

definition addLive :: "env \<Rightarrow> DomainRow \<Rightarrow> uint \<Rightarrow> (world, payload response) state" where
  "addLive e existing userID =
     (if dUserID existing = userID
      then State_Monad.return (RespondError StatusConflict ''Domain already registered'')
      else do {
        unclaimed \<leftarrow> isUnclaimedDomain e existing;
        if unclaimed then do {
          r \<leftarrow> claimUnclaimedDomain e existing userID;
          case r of
            Inl err \<Rightarrow> State_Monad.return (claimResponse err)
          | Inr domain \<Rightarrow> respondDomain e domain
        } else State_Monad.return (RespondError StatusConflict ''Domain already registered'')
      })"

text \<open>The caller deleted the domain before: the row is restored and read again.\<close>

definition addRestored :: "env \<Rightarrow> DomainRow \<Rightarrow> (world, payload response) state" where
  "addRestored e existing = do {
     r \<leftarrow> restoreDeletedDomain e existing;
     case r of
       Inl _ \<Rightarrow> State_Monad.return (RespondError StatusInternalServerError ''Failed to restore domain'')
     | Inr _ \<Rightarrow> do {
         d \<leftarrow> First e domains (byID (dID existing));
         case d of
           Inl _ \<Rightarrow> State_Monad.return
             (RespondError StatusInternalServerError ''Failed to load restored domain'')
         | Inr domain \<Rightarrow> respondDomain e domain
       }
   }"

definition addNew :: "env \<Rightarrow> uint \<Rightarrow> string \<Rightarrow> (world, payload response) state" where
  "addNew e userID domainName = do {
     r \<leftarrow> createDomainRecord e userID domainName;
     case r of
       Inl err \<Rightarrow> State_Monad.return
         (if errorsIs err ErrDuplicatedKey
          then RespondError StatusConflict ''Domain already registered''
          else RespondError StatusInternalServerError ''Failed to create domain'')
     | Inr domain \<Rightarrow> respondDomain e domain
   }"

text \<open>The switch over what is stored under the name.\<close>

definition addNamed :: "env \<Rightarrow> uint \<Rightarrow> string \<Rightarrow> (world, payload response) state" where
  "addNamed e userID domainName = do {
     r \<leftarrow> First e domains (byName domainName);
     case r of
       Inr existing \<Rightarrow>
         if live existing then addLive e existing userID
         else if dUserID existing = userID then addRestored e existing
         else do {
           p \<leftarrow> permanentlyRemoveDomain e (dID existing);
           case p of
             Inl _ \<Rightarrow> State_Monad.return
               (RespondError StatusInternalServerError ''Failed to create domain'')
           | Inr _ \<Rightarrow> addNew e userID domainName
         }
     | Inl err \<Rightarrow>
         if \<not> errorsIs err ErrRecordNotFound
         then State_Monad.return (RespondError StatusInternalServerError ''Failed to check domain'')
         else addNew e userID domainName
   }"

definition AddDomain :: "env \<Rightarrow> DomainInput request \<Rightarrow> (world, payload response) state" where
  "AddDomain e c =
     (case body c of
        Inl err \<Rightarrow> State_Monad.return (RespondError StatusBadRequest (bindText err))
      | Inr input \<Rightarrow>
          (case requireUserID c of
             Inl resp \<Rightarrow> State_Monad.return resp
           | Inr userID \<Rightarrow>
               (case domainNameFromInput e input of
                  Inl err \<Rightarrow> State_Monad.return (RespondError StatusBadRequest (nameErrorText err))
                | Inr domainName \<Rightarrow> addNamed e userID domainName)))"

text \<open>
  ORDER BY created_at DESC; rows created at the same instant come in the order of the table.
\<close>

fun loadDomainDTOs :: "env \<Rightarrow> DomainRow list \<Rightarrow> (world, DomainDTO list) state" where
  "loadDomainDTOs e [] = State_Monad.return []"
| "loadDomainDTOs e (d # ds) = do {
     dto \<leftarrow> loadDomainDTO e d;
     rest \<leftarrow> loadDomainDTOs e ds;
     State_Monad.return (dto # rest)
   }"

definition ListDomains :: "env \<Rightarrow> 'i request \<Rightarrow> (world, payload response) state" where
  "ListDomains e c =
     (case requireUserID c of
        Inl resp \<Rightarrow> State_Monad.return resp
      | Inr userID \<Rightarrow> do {
          r \<leftarrow> Find e domains (\<lambda>d. live d \<and> dUserID d = userID);
          case r of
            Inl _ \<Rightarrow> State_Monad.return (RespondError StatusInternalServerError ''Failed to fetch domains'')
          | Inr ds \<Rightarrow> do {
              dtos \<leftarrow> loadDomainDTOs e (sort_key (\<lambda>d. - dCreatedAt d) ds);
              State_Monad.return (RespondSuccess (Some (PDomains dtos)))
            }
        })"

definition GetDomain :: "env \<Rightarrow> 'i request \<Rightarrow> (world, payload response) state" where
  "GetDomain e c = do {
     g \<leftarrow> getDomainOwned e c (pathID c);
     case g of
       Inl resp \<Rightarrow> State_Monad.return resp
     | Inr domain \<Rightarrow> respondDomain e domain
   }"

definition UpdateDomain :: "env \<Rightarrow> UpdateDomainInput request \<Rightarrow> (world, payload response) state" where
  "UpdateDomain e c = do {
     g \<leftarrow> getDomainOwned e c (pathID c);
     case g of
       Inl resp \<Rightarrow> State_Monad.return resp
     | Inr domain \<Rightarrow>
         (case body c of
            Inl err \<Rightarrow> State_Monad.return (RespondError StatusBadRequest (bindText err))
          | Inr input \<Rightarrow>
              (case inAutoRenew input of
                 None \<Rightarrow> State_Monad.return (RespondError StatusBadRequest ''autoRenew is required'')
               | Some on \<Rightarrow> do {
                   u \<leftarrow> UpdatesDomain e (byID (dID domain)) (autoRenewCols on);
                   case u of
                     Inl _ \<Rightarrow> State_Monad.return
                       (RespondError StatusInternalServerError ''Failed to update domain'')
                   | Inr _ \<Rightarrow> do {
                       d \<leftarrow> FirstDomain e (byID (dID domain));
                       case d of
                         Inl _ \<Rightarrow> State_Monad.return
                           (RespondError StatusInternalServerError ''Failed to load updated domain'')
                       | Inr domain' \<Rightarrow> respondDomain e domain'
                     }
                 }))
   }"

definition DeleteDomain :: "env \<Rightarrow> 'i request \<Rightarrow> (world, payload response) state" where
  "DeleteDomain e c = do {
     g \<leftarrow> getDomainOwned e c (pathID c);
     case g of
       Inl resp \<Rightarrow> State_Monad.return resp
     | Inr domain \<Rightarrow>
         if dStatus domain = ''generating''
         then State_Monad.return (RespondError StatusConflict
                ''Cannot delete domain while certificate generation is in progress'')
         else do {
           _ \<leftarrow> deleteDependents e (dID domain);
           d \<leftarrow> SoftDeleteDomain e (dID domain);
           case d of
             Inl _ \<Rightarrow> State_Monad.return
               (RespondError StatusInternalServerError ''Failed to delete domain'')
           | Inr _ \<Rightarrow> State_Monad.return (RespondSuccess None)
         }
   }"

end
