(* ===== verification/Cname_Api.thy ===== *)
theory Cname_Api
  imports Domain_Api
begin

text \<open>
  controllers/cname.go: showing the delegation record of a domain, with a live check on request,
  and recording a successful verification.
\<close>

definition cnameLiveCheckEnabled :: "env \<Rightarrow> 'i request \<Rightarrow> bool" where
  "cnameLiveCheckEnabled e c \<longleftrightarrow>
     ToLower (uni (osenv e)) (TrimSpace (uni (osenv e)) (DefaultQuery c ''live'' ''true''))
       \<notin> {''0'', ''false'', ''no'', ''off''}"

definition GetCname :: "env \<Rightarrow> 'i request \<Rightarrow> (world, payload response) state" where
  "GetCname e c = do {
     g \<leftarrow> getDomainOwned e c (pathID c);
     case g of
       Inl resp \<Rightarrow> State_Monad.return resp
     | Inr domain \<Rightarrow> do {
         liveVerified \<leftarrow> (if cnameLiveCheckEnabled e c \<and> dCNameTarget domain \<noteq> [] then do {
              v \<leftarrow> VerifyChallengeCNAME e (dDomain domain) (dCNameTarget domain);
              State_Monad.return (Some (v = Inr ()))
            } else State_Monad.return None);
         State_Monad.return (RespondSuccess (Some (PCname (toCnameConfigDTO e domain liveVerified))))
       }
   }"

definition VerifyCname :: "env \<Rightarrow> 'i request \<Rightarrow> (world, payload response) state" where
  "VerifyCname e c = do {
     g \<leftarrow> getDomainOwned e c (pathID c);
     case g of
       Inl resp \<Rightarrow> State_Monad.return resp
     | Inr domain \<Rightarrow>
         if dCNameTarget domain = []
         then State_Monad.return (RespondSuccess (Some (PVerify False None
                ''CNAME target not configured for this domain'')))
         else do {
           v \<leftarrow> VerifyChallengeCNAME e (dDomain domain) (dCNameTarget domain);
           case v of
             Inl err \<Rightarrow> State_Monad.return (RespondSuccess (Some (PVerify False None (errorText err))))
           | Inr _ \<Rightarrow> do {
               verifiedAt \<leftarrow> Now e;
               m \<leftarrow> markDomainCnameVerified e (dID domain);
               State_Monad.return (case m of
                   Inl _ \<Rightarrow> RespondError StatusInternalServerError ''Failed to update domain status''
                 | Inr _ \<Rightarrow> RespondSuccess (Some (PVerify True (Some (formatTime e verifiedAt))
                     ''CNAME delegation verified; you may request a certificate'')))
             }
         }
   }"

end
