(* ===== verification/Cert_Api.thy ===== *)
theory Cert_Api
  imports Domain_Api Cert_Job
begin

text \<open>
  controllers/certificate_api.go, and writeCertificateZip of controllers/certificate.go: issuing,
  renewing, showing and downloading certificates. None as a result means that the wait inside
  the lock or the start of the job blocks for ever and no response is sent.
\<close>

record IssueCertInput =
  inForceRenew :: bool

record CertDomainInput =
  inDomainID :: uint

section \<open>Starting a job\<close>

definition issueCertificateInternal ::
  "env \<Rightarrow> 'i request \<Rightarrow> uint \<Rightarrow> bool \<Rightarrow> (world, payload response option) state" where
  "issueCertificateInternal e c domainID forceRenew =
     (case requireUserID c of
        Inl resp \<Rightarrow> State_Monad.return (Some resp)
      | Inr userID \<Rightarrow> do {
          r \<leftarrow> FirstDomain e (ownedBy domainID userID);
          case r of
            Inl _ \<Rightarrow> State_Monad.return (Some (RespondError StatusNotFound ''Domain not found''))
          | Inr domain \<Rightarrow> do {
              exists \<leftarrow> (if forceRenew then State_Monad.return False
                        else do { cert \<leftarrow> loadCertificate e (dID domain);
                                  State_Monad.return (cert \<noteq> None) });
              if exists then State_Monad.return (Some (RespondError StatusConflict
                ''Certificate already exists; set forceRenew to true or use the renew endpoint''))
              else do {
                b \<leftarrow> beginCertOperation e domain forceRenew;
                case b of
                  None \<Rightarrow> State_Monad.return None
                | Some (Inl resp) \<Rightarrow> State_Monad.return (Some resp)
                | Some (Inr user) \<Rightarrow> do {
                    s \<leftarrow> StartCertJob e domain user forceRenew False;
                    State_Monad.return (case s of
                        None \<Rightarrow> None
                      | Some _ \<Rightarrow> Some (RespondSuccess (Some (PStarted ''generating''
                          ''Certificate issuance started. Refresh the domain to check status.''))))
                  }
              }
            }
        })"

definition IssueCertificate :: "env \<Rightarrow> IssueCertInput request \<Rightarrow> (world, payload response option) state" where
  "IssueCertificate e c = do {
     g \<leftarrow> getDomainOwned e c (pathID c);
     case g of
       Inl resp \<Rightarrow> State_Monad.return (Some resp)
     | Inr domain \<Rightarrow>
         (case body c of
            Inl (BindError msg) \<Rightarrow> State_Monad.return (Some (RespondError StatusBadRequest msg))
          | Inl BindEOF \<Rightarrow> issueCertificateInternal e c (dID domain) False
          | Inr input \<Rightarrow> issueCertificateInternal e c (dID domain) (inForceRenew input))
   }"

text \<open>
  The two legacy routes. \<open>binding:"required"\<close> makes the binding fail on a missing or zero id, so
  the decoded id is positive; the model does not use this.
\<close>

definition startByBody ::
  "env \<Rightarrow> CertDomainInput request \<Rightarrow> bool \<Rightarrow> (world, payload response option) state" where
  "startByBody e c renew =
     (case body c of
        Inl err \<Rightarrow> State_Monad.return (Some (RespondError StatusBadRequest (bindText err)))
      | Inr input \<Rightarrow> issueCertificateInternal e c (inDomainID input) renew)"

definition GenerateCertificate ::
  "env \<Rightarrow> CertDomainInput request \<Rightarrow> (world, payload response option) state" where
  "GenerateCertificate e c = startByBody e c False"

definition RenewCertificate ::
  "env \<Rightarrow> CertDomainInput request \<Rightarrow> (world, payload response option) state" where
  "RenewCertificate e c = startByBody e c True"

section \<open>Reading certificates\<close>

definition GetCertificateInfo :: "env \<Rightarrow> 'i request \<Rightarrow> (world, payload response) state" where
  "GetCertificateInfo e c = do {
     g \<leftarrow> getDomainOwned e c (pathID c);
     case g of
       Inl resp \<Rightarrow> State_Monad.return resp
     | Inr domain \<Rightarrow> do {
         cert \<leftarrow> loadCertificate e (dID domain);
         dto \<leftarrow> toCertificateInfoDTO e domain cert;
         State_Monad.return (RespondSuccess (Some (PCertInfo dto)))
       }
   }"

text \<open>
  The archive is a finite map from names to contents: the source writes the entries in the
  iteration order of a Go map.
\<close>

definition zipFiles :: "CertRow \<Rightarrow> bytes \<Rightarrow> string \<Rightarrow> bytes option" where
  "zipFiles cert keyPEM =
     [''cert.pem'' \<mapsto> cCertPEM cert,
      ''privkey.pem'' \<mapsto> keyPEM,
      ''chain.pem'' \<mapsto> cIssuer cert,
      ''fullchain.pem'' \<mapsto> cCertPEM cert @ [CHR 0x0A] @ cIssuer cert]"

definition writeCertificateZip ::
  "env \<Rightarrow> string \<Rightarrow> CertRow \<Rightarrow> bytes \<Rightarrow> (world, reply) state" where
  "writeCertificateZip e domainName cert keyPEM = act e (\<lambda>w.
     (case zipFails e (tick w) of
        Some ZipCreate \<Rightarrow> Json (RespondError StatusInternalServerError ''Failed to create zip'')
      | Some ZipWrite \<Rightarrow> Json (RespondError StatusInternalServerError ''Failed to write zip'')
      | Some ZipClose \<Rightarrow> Json (RespondError StatusInternalServerError ''Failed to finalize zip'')
      | None \<Rightarrow> Attachment (domainName @ ''-certificate.zip'') (zipFiles cert keyPEM), w))"

definition DownloadDomainCertificate :: "env \<Rightarrow> 'i request \<Rightarrow> (world, reply) state" where
  "DownloadDomainCertificate e c = do {
     g \<leftarrow> getDomainOwned e c (pathID c);
     case g of
       Inl resp \<Rightarrow> State_Monad.return (Json resp)
     | Inr domain \<Rightarrow> do {
         cert \<leftarrow> loadCertificate e (dID domain);
         case cert of
           None \<Rightarrow> State_Monad.return (Json (RespondError StatusNotFound ''Certificate not found''))
         | Some cert \<Rightarrow> do {
             k \<leftarrow> Decrypt e (cKeyPEM cert);
             case k of
               Inl _ \<Rightarrow> State_Monad.return
                 (Json (RespondError StatusInternalServerError ''Failed to decrypt private key''))
             | Inr keyPEM \<Rightarrow>
                 if DefaultQuery c ''format'' ''pem'' = ''zip''
                 then writeCertificateZip e (dDomain domain) cert keyPEM
                 else State_Monad.return
                   (Json (RespondSuccess (Some (PDownload (toCertificateDownloadDTO cert keyPEM)))))
           }
       }
   }"

fun certInfoDTOs :: "env \<Rightarrow> DomainRow list \<Rightarrow> (world, CertificateInfoDTO list) state" where
  "certInfoDTOs e [] = State_Monad.return []"
| "certInfoDTOs e (d # ds) = do {
     cert \<leftarrow> loadCertificate e (dID d);
     first \<leftarrow> (case cert of
                 None \<Rightarrow> State_Monad.return []
               | Some _ \<Rightarrow> do { dto \<leftarrow> toCertificateInfoDTO e d cert; State_Monad.return [dto] });
     rest \<leftarrow> certInfoDTOs e ds;
     State_Monad.return (first @ rest)
   }"

definition ListCertificates :: "env \<Rightarrow> 'i request \<Rightarrow> (world, payload response) state" where
  "ListCertificates e c =
     (case requireUserID c of
        Inl resp \<Rightarrow> State_Monad.return resp
      | Inr userID \<Rightarrow> do {
          r \<leftarrow> Find e domains (\<lambda>d. live d \<and> dUserID d = userID);
          case r of
            Inl _ \<Rightarrow> State_Monad.return
              (RespondError StatusInternalServerError ''Failed to fetch certificates'')
          | Inr ds \<Rightarrow> do {
              dtos \<leftarrow> certInfoDTOs e ds;
              State_Monad.return (RespondSuccess (Some (PCertInfos dtos)))
            }
        })"

text \<open>The id of the path goes into the query as a string; PostgreSQL converts it.\<close>

definition certOwnedBy :: "int \<Rightarrow> uint \<Rightarrow> CertRow \<Rightarrow> bool" where
  "certOwnedBy i u c \<longleftrightarrow> int (cID c) = i \<and> cUserID c = u"

definition DownloadCertificate :: "env \<Rightarrow> 'i request \<Rightarrow> (world, reply) state" where
  "DownloadCertificate e c =
     (case requireUserID c of
        Inl resp \<Rightarrow> State_Monad.return (Json resp)
      | Inr userID \<Rightarrow> do {
          r \<leftarrow> (case sqlInt e (pathID c) of
                  None \<Rightarrow> act e (\<lambda>w. (Inl ErrDB, w))
                | Some i \<Rightarrow> First e certs (certOwnedBy i userID));
          case r of
            Inl _ \<Rightarrow> State_Monad.return (Json (RespondError StatusNotFound ''Certificate not found''))
          | Inr cert \<Rightarrow> DownloadDomainCertificate e (c\<lparr>pathID := FormatUint (cDomainID cert)\<rparr>)
        })"

end
