(* ===== verification/User_Api.thy ===== *)
theory User_Api
  imports Dto
begin

text \<open>
  controllers/user.go and utils/hash.go: registration, login, logout and the profile. The
  session is the signed cookie of a library: a handler returns, beside its response, what it
  did to the session. bcrypt is a parameter.
\<close>

record Credentials =
  inEmail :: string
  inPassword :: string

datatype sessionEffect = SessionKept | SessionUser uint | SessionCleared

definition HashPassword :: "env \<Rightarrow> string \<Rightarrow> (world, err + string) state" where
  "HashPassword e password = act e (\<lambda>w. (bcryptHash e (tick w) password, w))"

definition CheckPasswordHash :: "env \<Rightarrow> string \<Rightarrow> string \<Rightarrow> bool" where
  "CheckPasswordHash e password hash \<longleftrightarrow> bcryptMatch e password hash"

definition byEmail :: "string \<Rightarrow> UserRow \<Rightarrow> bool" where
  "byEmail m u \<longleftrightarrow> uEmail u = m"

text \<open>\<open>Create\<close> on the users table, with its unique index on the address.\<close>

definition CreateUser :: "env \<Rightarrow> string \<Rightarrow> string \<Rightarrow> (world, err + UserRow) state" where
  "CreateUser e email hashed =
     db e (\<lambda>w. if list_ex (byEmail email) (users w)
               then (Inl (dbErr UniqueViolation), w)
               else let row = \<lparr>uID = Suc (userSeq w), uEmail = email, uPassword = hashed,
                               uCreatedAt = clock w, uUpdatedAt = clock w\<rparr>
                    in (Inr row, w\<lparr>userSeq := Suc (userSeq w), users := users w @ [row]\<rparr>))"

text \<open>Storing the user in the session: nothing is stored when Save fails.\<close>

definition openSession :: "env \<Rightarrow> UserRow \<Rightarrow> (world, payload response \<times> sessionEffect) state" where
  "openSession e user = act e (\<lambda>w.
     (if sessionSaves e (tick w)
      then (RespondSuccess (Some (PUser (uID user) (uEmail user))), SessionUser (uID user))
      else (RespondError StatusInternalServerError ''Failed to save session'', SessionKept), w))"

definition Register :: "env \<Rightarrow> Credentials request \<Rightarrow> (world, payload response \<times> sessionEffect) state" where
  "Register e c =
     (if \<not> IsRegistrationEnabled (Auth (cfg e))
      then State_Monad.return (RespondError StatusForbidden ''User registration is disabled'', SessionKept)
      else case body c of
        Inl err \<Rightarrow> State_Monad.return (RespondError StatusBadRequest (bindText err), SessionKept)
      | Inr input \<Rightarrow> do {
          existing \<leftarrow> First e users (byEmail (inEmail input));
          case existing of
            Inr _ \<Rightarrow> State_Monad.return (RespondError StatusConflict ''User already exists'', SessionKept)
          | Inl _ \<Rightarrow> do {
              h \<leftarrow> HashPassword e (inPassword input);
              case h of
                Inl _ \<Rightarrow> State_Monad.return
                  (RespondError StatusInternalServerError ''Failed to hash password'', SessionKept)
              | Inr hashedPassword \<Rightarrow> do {
                  u \<leftarrow> CreateUser e (inEmail input) hashedPassword;
                  case u of
                    Inl _ \<Rightarrow> State_Monad.return
                      (RespondError StatusInternalServerError ''Failed to create user'', SessionKept)
                  | Inr user \<Rightarrow> openSession e user
                }
            }
        })"

definition Login :: "env \<Rightarrow> Credentials request \<Rightarrow> (world, payload response \<times> sessionEffect) state" where
  "Login e c =
     (case body c of
        Inl err \<Rightarrow> State_Monad.return (RespondError StatusBadRequest (bindText err), SessionKept)
      | Inr input \<Rightarrow> do {
          r \<leftarrow> First e users (byEmail (inEmail input));
          case r of
            Inl _ \<Rightarrow> State_Monad.return
              (RespondError StatusUnauthorized ''Invalid email or password'', SessionKept)
          | Inr user \<Rightarrow>
              if \<not> CheckPasswordHash e (inPassword input) (uPassword user)
              then State_Monad.return
                (RespondError StatusUnauthorized ''Invalid email or password'', SessionKept)
              else openSession e user
        })"

text \<open>The error of Save is dropped: then the session stays.\<close>

definition Logout :: "env \<Rightarrow> 'i request \<Rightarrow> (world, payload response \<times> sessionEffect) state" where
  "Logout e c = act e (\<lambda>w.
     ((RespondSuccess (Some (PMessage ''Logged out successfully'')),
       if sessionSaves e (tick w) then SessionCleared else SessionKept), w))"

definition GetProfile :: "env \<Rightarrow> 'i request \<Rightarrow> (world, payload response) state" where
  "GetProfile e c =
     (case requireUserID c of
        Inl resp \<Rightarrow> State_Monad.return resp
      | Inr userID \<Rightarrow> do {
          r \<leftarrow> First e users (\<lambda>u. uID u = userID);
          State_Monad.return (case r of
              Inl _ \<Rightarrow> RespondError StatusNotFound ''User not found''
            | Inr user \<Rightarrow> RespondSuccess (Some (PUser (uID user) (uEmail user))))
        })"

end
