(* ===== verification/Deploy_Api.thy ===== *)
theory Deploy_Api
  imports Domain_Api Crypto
begin

text \<open>
  controllers/deploy.go and controllers/deploy_gate.go: the deploy targets of a domain, behind
  the gate of the deploy API. Running a deployment is not implemented by the program.
\<close>

record DeployTargetInput =
  inTName :: string
  inTType :: string
  inTHost :: string
  inTPort :: int
  inTEnabled :: "bool option"
  inTAuthType :: string
  inTUser :: string
  inTPrivateKey :: string
  inTPassword :: string
  inTCertPath :: string
  inTReloadCommand :: string

section \<open>The gate\<close>

definition deployUnavailableMsg :: string where
  "deployUnavailableMsg = ''Deploy API is not available yet''"

definition requireDeployAPI :: "env \<Rightarrow> payload response + unit" where
  "requireDeployAPI e =
     (if DeployIsEnabled (Deploy (cfg e)) then Inr ()
      else Inl (RespondError StatusNotImplemented deployUnavailableMsg))"

definition requireDeployExecution :: "env \<Rightarrow> payload response" where
  "requireDeployExecution e =
     (case requireDeployAPI e of
        Inl resp \<Rightarrow> resp
      | Inr _ \<Rightarrow> RespondError StatusNotImplemented ''Certificate deploy execution is not implemented yet'')"

text \<open>The two guards every handler below starts with.\<close>

definition gateOwned :: "env \<Rightarrow> 'i request \<Rightarrow> (world, payload response + DomainRow) state" where
  "gateOwned e c =
     (case requireDeployAPI e of
        Inl resp \<Rightarrow> State_Monad.return (Inl resp)
      | Inr _ \<Rightarrow> getDomainOwned e c (pathID c))"

section \<open>Targets\<close>

text \<open>
  \<open>Create\<close> on the deploy_targets table. The column enabled is declared with default:true, so the
  library leaves a false value out of the statement, the database fills in true, and the struct
  is read back.
\<close>

definition CreateTarget :: "env \<Rightarrow> TargetRow \<Rightarrow> (world, err + TargetRow) state" where
  "CreateTarget e t =
     db e (\<lambda>w. let row = t\<lparr>tID := Suc (targetSeq w), tEnabled := True, tCreatedAt := clock w,
                           tUpdatedAt := clock w\<rparr>
               in (Inr row, w\<lparr>targetSeq := Suc (targetSeq w), targets := targets w @ [row]\<rparr>))"

definition targetOf :: "uint \<Rightarrow> uint \<Rightarrow> TargetRow \<Rightarrow> bool" where
  "targetOf i domainID t \<longleftrightarrow> tID t = i \<and> tDomainID t = domainID"

definition ListDeployTargets :: "env \<Rightarrow> 'i request \<Rightarrow> (world, payload response) state" where
  "ListDeployTargets e c = do {
     g \<leftarrow> gateOwned e c;
     case g of
       Inl resp \<Rightarrow> State_Monad.return resp
     | Inr domain \<Rightarrow> do {
         r \<leftarrow> Find e targets (targetOfDomain (dID domain));
         State_Monad.return (case r of
             Inl _ \<Rightarrow> RespondError StatusInternalServerError ''Failed to list deploy targets''
           | Inr ts \<Rightarrow> RespondSuccess (Some (PTargets (map (toDeployTargetDTO e) (sort_key tCreatedAt ts)))))
       }
   }"

text \<open>An empty secret is not encrypted: None.\<close>

definition encryptSecret :: "env \<Rightarrow> string \<Rightarrow> (world, err + bytes option) state" where
  "encryptSecret e secret =
     (if secret = [] then State_Monad.return (Inr None)
      else do { r \<leftarrow> Encrypt e secret; State_Monad.return (map_sum (\<lambda>x. x) Some r) })"

definition encryptSecrets ::
  "env \<Rightarrow> DeployTargetInput \<Rightarrow> (world, payload response + bytes option \<times> bytes option) state" where
  "encryptSecrets e input = do {
     k \<leftarrow> encryptSecret e (inTPrivateKey input);
     case k of
       Inl _ \<Rightarrow> State_Monad.return
         (Inl (RespondError StatusInternalServerError ''Failed to encrypt private key''))
     | Inr key \<Rightarrow> do {
         p \<leftarrow> encryptSecret e (inTPassword input);
         State_Monad.return (case p of
             Inl _ \<Rightarrow> Inl (RespondError StatusInternalServerError ''Failed to encrypt password'')
           | Inr password \<Rightarrow> Inr (key, password))
       }
   }"

definition newTarget ::
  "DomainRow \<Rightarrow> uint \<Rightarrow> DeployTargetInput \<Rightarrow> bytes option \<times> bytes option \<Rightarrow> TargetRow" where
  "newTarget domain userID input secrets =
     \<lparr>tID = 0, tDomainID = dID domain, tUserID = userID, tName = inTName input, tType = inTType input,
      tHost = inTHost input, tPort = inTPort input,
      tEnabled = (case inTEnabled input of None \<Rightarrow> True | Some b \<Rightarrow> b),
      tAuthType = inTAuthType input, tSSHUser = inTUser input,
      tPrivateKeyPEM = (case fst secrets of None \<Rightarrow> [] | Some k \<Rightarrow> k),
      tPasswordEnc = (case snd secrets of None \<Rightarrow> [] | Some p \<Rightarrow> p),
      tCertPath = inTCertPath input, tReloadCommand = inTReloadCommand input,
      tLastDeployAt = None, tLastStatus = [], tCreatedAt = 0, tUpdatedAt = 0\<rparr>"

definition AddDeployTarget :: "env \<Rightarrow> DeployTargetInput request \<Rightarrow> (world, payload response) state" where
  "AddDeployTarget e c = do {
     g \<leftarrow> gateOwned e c;
     case g of
       Inl resp \<Rightarrow> State_Monad.return resp
     | Inr domain \<Rightarrow>
         (case requireUserID c of
            Inl resp \<Rightarrow> State_Monad.return resp
          | Inr userID \<Rightarrow>
              (case body c of
                 Inl err \<Rightarrow> State_Monad.return (RespondError StatusBadRequest (bindText err))
               | Inr input \<Rightarrow> do {
                   s \<leftarrow> encryptSecrets e input;
                   case s of
                     Inl resp \<Rightarrow> State_Monad.return resp
                   | Inr secrets \<Rightarrow> do {
                       r \<leftarrow> CreateTarget e (newTarget domain userID input secrets);
                       State_Monad.return (case r of
                           Inl _ \<Rightarrow> RespondError StatusInternalServerError ''Failed to create deploy target''
                         | Inr target \<Rightarrow> RespondSuccess (Some (PTarget (toDeployTargetDTO e target))))
                     }
                 }))
   }"

definition targetUpdates ::
  "DeployTargetInput \<Rightarrow> bytes option \<times> bytes option \<Rightarrow> TargetRow \<Rightarrow> TargetRow" where
  "targetUpdates input secrets t =
     t\<lparr>tName := inTName input, tType := inTType input, tHost := inTHost input, tPort := inTPort input,
       tAuthType := inTAuthType input, tSSHUser := inTUser input, tCertPath := inTCertPath input,
       tReloadCommand := inTReloadCommand input,
       tEnabled := (case inTEnabled input of None \<Rightarrow> tEnabled t | Some b \<Rightarrow> b),
       tPrivateKeyPEM := (case fst secrets of None \<Rightarrow> tPrivateKeyPEM t | Some k \<Rightarrow> k),
       tPasswordEnc := (case snd secrets of None \<Rightarrow> tPasswordEnc t | Some p \<Rightarrow> p)\<rparr>"

text \<open>
  The errors of the update and of the reading back are dropped: the struct in memory carries the
  new values then, and is what the response shows.
\<close>

definition UpdateDeployTarget ::
  "env \<Rightarrow> DeployTargetInput request \<Rightarrow> (world, payload response) state" where
  "UpdateDeployTarget e c = do {
     g \<leftarrow> gateOwned e c;
     case g of
       Inl resp \<Rightarrow> State_Monad.return resp
     | Inr domain \<Rightarrow>
         (case parseDomainID (pathTargetID c) of
            None \<Rightarrow> State_Monad.return (RespondError StatusBadRequest ''Invalid target id'')
          | Some targetID \<Rightarrow> do {
              r \<leftarrow> First e targets (targetOf targetID (dID domain));
              case r of
                Inl _ \<Rightarrow> State_Monad.return (RespondError StatusNotFound ''Deploy target not found'')
              | Inr target \<Rightarrow>
                  (case body c of
                     Inl err \<Rightarrow> State_Monad.return (RespondError StatusBadRequest (bindText err))
                   | Inr input \<Rightarrow> do {
                       s \<leftarrow> encryptSecrets e input;
                       case s of
                         Inl resp \<Rightarrow> State_Monad.return resp
                       | Inr secrets \<Rightarrow> do {
                           _ \<leftarrow> Updates e targets targets_update (\<lambda>t. tID t = tID target)
                                 (\<lambda>now t. (targetUpdates input secrets t)\<lparr>tUpdatedAt := now\<rparr>);
                           f \<leftarrow> First e targets (\<lambda>t. tID t = tID target);
                           let shown = (case f of Inl _ \<Rightarrow> targetUpdates input secrets target
                                                | Inr t \<Rightarrow> t);
                           State_Monad.return (RespondSuccess (Some (PTarget (toDeployTargetDTO e shown))))
                         }
                     })
            })
   }"

definition DeleteDeployTarget :: "env \<Rightarrow> 'i request \<Rightarrow> (world, payload response) state" where
  "DeleteDeployTarget e c = do {
     g \<leftarrow> gateOwned e c;
     case g of
       Inl resp \<Rightarrow> State_Monad.return resp
     | Inr domain \<Rightarrow>
         (case parseDomainID (pathTargetID c) of
            None \<Rightarrow> State_Monad.return (RespondError StatusBadRequest ''Invalid target id'')
          | Some targetID \<Rightarrow> do {
              r \<leftarrow> DeleteRows e targets targets_update (targetOf targetID (dID domain));
              State_Monad.return (case r of
                  Inl _ \<Rightarrow> RespondError StatusInternalServerError ''Failed to delete deploy target''
                | Inr rowsAffected \<Rightarrow>
                    if rowsAffected = 0 then RespondError StatusNotFound ''Deploy target not found''
                    else RespondSuccess None)
            })
   }"

definition DeployDomain :: "env \<Rightarrow> 'i request \<Rightarrow> (world, payload response) state" where
  "DeployDomain e c = State_Monad.return (requireDeployExecution e)"

definition deployJobOf :: "uint \<Rightarrow> uint \<Rightarrow> DeployJobRow \<Rightarrow> bool" where
  "deployJobOf i domainID j \<longleftrightarrow> jID j = i \<and> jDomainID j = domainID"

definition GetDeployJob :: "env \<Rightarrow> 'i request \<Rightarrow> (world, payload response) state" where
  "GetDeployJob e c = do {
     g \<leftarrow> gateOwned e c;
     case g of
       Inl resp \<Rightarrow> State_Monad.return resp
     | Inr domain \<Rightarrow>
         (case parseDomainID (pathJobID c) of
            None \<Rightarrow> State_Monad.return (RespondError StatusBadRequest ''Invalid job id'')
          | Some jobID \<Rightarrow> do {
              r \<leftarrow> First e deployJobs (deployJobOf jobID (dID domain));
              State_Monad.return (case r of
                  Inl _ \<Rightarrow> RespondError StatusNotFound ''Deploy job not found''
                | Inr job \<Rightarrow> RespondSuccess (Some (PDeployJob (toDeployJobDTO e job))))
            })
   }"

end
