(* ===== verification/Middleware.thy ===== *)
theory Middleware
  imports Dto "HOL-Library.Mapping"
begin

text \<open>
  The middleware package: the keyed rate limiters, the limit on issuing certificates, CORS and
  the login check. The token bucket golang.org/x/time/rate is a parameter: a constructor from
  the refill interval (None for an unlimited rate) and the burst, and its Allow.
\<close>

section \<open>Keyed limiters\<close>

record 'l bucketLib =
  newBucket :: "duration option \<Rightarrow> nat \<Rightarrow> 'l"
  bucketAllow :: "time \<Rightarrow> 'l \<Rightarrow> bool \<times> 'l"

definition limiterIdleTTL :: duration where
  "limiterIdleTTL = 10 * Minute"

definition limiterCleanupInterval :: duration where
  "limiterCleanupInterval = 5 * Minute"

record 'l limiterEntry =
  limiter :: 'l
  lastSeen :: time

record 'l keyedRateLimiter =
  entries :: "(string, 'l limiterEntry) mapping"
  refill :: "duration option"
  burstSize :: nat

text \<open>\<open>rate.Every\<close>: an interval that is not positive means no limit.\<close>

definition Every :: "duration \<Rightarrow> duration option" where
  "Every interval = (if interval \<le> 0 then None else Some interval)"

definition newKeyedRateLimiter :: "int \<Rightarrow> duration \<Rightarrow> int \<Rightarrow> 'l keyedRateLimiter" where
  "newKeyedRateLimiter requests window burst =
     (let requests = (if requests \<le> 0 then 1 else requests);
          burst = (if burst \<le> 0 then requests else burst);
          burst = (if burst > requests then requests else burst)
      in \<lparr>entries = Mapping.empty, refill = Every (window div requests), burstSize = nat burst\<rparr>)"

definition evictStale :: "time \<Rightarrow> 'l keyedRateLimiter \<Rightarrow> 'l keyedRateLimiter" where
  "evictStale cutoff l =
     l\<lparr>entries := Mapping.filter (\<lambda>key entry. \<not> Before (lastSeen entry) cutoff) (entries l)\<rparr>"

text \<open>One tick of runCleanup.\<close>

definition cleanupTick :: "time \<Rightarrow> 'l keyedRateLimiter \<Rightarrow> 'l keyedRateLimiter" where
  "cleanupTick now l = evictStale (now - limiterIdleTTL) l"

definition limiterFor :: "'l bucketLib \<Rightarrow> time \<Rightarrow> string \<Rightarrow> 'l keyedRateLimiter \<Rightarrow> 'l" where
  "limiterFor lib now key l =
     (case Mapping.lookup (entries l) key of
        None \<Rightarrow> newBucket lib (refill l) (burstSize l)
      | Some entry \<Rightarrow> limiter entry)"

definition allow ::
  "'l bucketLib \<Rightarrow> time \<Rightarrow> string \<Rightarrow> 'l keyedRateLimiter \<Rightarrow> bool \<times> 'l keyedRateLimiter" where
  "allow lib now key l =
     (let (ok, lim) = bucketAllow lib now (limiterFor lib now key l)
      in (ok, l\<lparr>entries := Mapping.update key \<lparr>limiter = lim, lastSeen = now\<rparr> (entries l)\<rparr>))"

definition newIPRateLimiter :: "int \<Rightarrow> 'l keyedRateLimiter" where
  "newIPRateLimiter requestsPerMinute =
     (let r = (if requestsPerMinute \<le> 0 then 60 else requestsPerMinute)
      in newKeyedRateLimiter r Minute r)"

section \<open>The middlewares\<close>

text \<open>
  A middleware either answers the request itself (and aborts) or lets it pass. A limiter that is
  switched off has no state: None.
\<close>

definition RateLimitInit :: "Config \<Rightarrow> 'l keyedRateLimiter option" where
  "RateLimitInit cf =
     (if \<not> RateEnabled (RateLimit cf) then None
      else Some (newIPRateLimiter (RequestsPerMinute (RateLimit cf))))"

definition RateLimitMiddleware ::
  "'l bucketLib \<Rightarrow> time \<Rightarrow> string \<Rightarrow> 'l keyedRateLimiter option \<Rightarrow>
   reply option \<times> 'l keyedRateLimiter option" where
  "RateLimitMiddleware lib now ip l =
     (case l of
        None \<Rightarrow> (None, None)
      | Some lim \<Rightarrow>
          (case allow lib now ip lim of
             (False, lim') \<Rightarrow> (Some (JsonField StatusTooManyRequests ''error''
                ''Rate limit exceeded, please try again later''), Some lim')
           | (True, lim') \<Rightarrow> (None, Some lim')))"

definition certIssueRateWindow :: duration where
  "certIssueRateWindow = Hour"

definition certIssueBurst :: "int \<Rightarrow> int" where
  "certIssueBurst limit = (if limit \<le> 1 then 1 else if limit < 3 then limit else 3)"

definition CertIssueRateLimitInit :: "Config \<Rightarrow> 'l keyedRateLimiter option" where
  "CertIssueRateLimitInit cf =
     (if \<not> CertIssueRateLimitEnabled (RateLimit cf) then None
      else let limit = CertIssueRequestsPerHour (RateLimit cf)
           in Some (newKeyedRateLimiter limit certIssueRateWindow (certIssueBurst limit)))"

definition CertIssueRateLimitMiddleware ::
  "'l bucketLib \<Rightarrow> time \<Rightarrow> 'i request \<Rightarrow> 'l keyedRateLimiter option \<Rightarrow>
   reply option \<times> 'l keyedRateLimiter option" where
  "CertIssueRateLimitMiddleware lib now c l =
     (case l of
        None \<Rightarrow> (None, None)
      | Some lim \<Rightarrow>
          (case GetUserID c of
             None \<Rightarrow> (None, l)
           | Some userID \<Rightarrow>
               (case allow lib now (FormatUint userID) lim of
                  (False, lim') \<Rightarrow> (Some (Json (RespondError StatusTooManyRequests
                     ''Certificate issue rate limit exceeded; please try again later'')), Some lim')
                | (True, lim') \<Rightarrow> (None, Some lim'))))"

text \<open>
  CORS: the headers that are set, and the reply to a preflight request. An Origin header that is
  absent is the empty string.
\<close>

definition originAllowed :: "os \<Rightarrow> Config \<Rightarrow> string \<Rightarrow> bool" where
  "originAllowed os cf origin \<longleftrightarrow>
     list_ex (\<lambda>p. p = origin \<or> p = ''*'') (AllowedOrigins (Server cf))
     \<or> IsDevMode os (Security cf) \<and> AllowedOrigins (Server cf) = []"

definition corsMethods :: "string list" where
  "corsMethods = [''GET'', ''POST'', ''PUT'', ''DELETE'', ''OPTIONS'']"

fun commaList :: "string list \<Rightarrow> string" where
  "commaList [] = []"
| "commaList [x] = x"
| "commaList (x # xs) = x @ '', '' @ commaList xs"

definition CORSMiddleware ::
  "os \<Rightarrow> Config \<Rightarrow> string \<Rightarrow> string \<Rightarrow> (string \<times> string) list \<times> reply option" where
  "CORSMiddleware os cf origin meth =
     (if origin = [] then ([], None)
      else (if originAllowed os cf origin
            then [(''Access-Control-Allow-Origin'', origin),
                  (''Access-Control-Allow-Credentials'', ''true''),
                  (''Access-Control-Allow-Headers'', ''Content-Type, Authorization''),
                  (''Access-Control-Allow-Methods'', commaList corsMethods)]
            else [],
            if meth = ''OPTIONS'' then Some (BareStatus StatusNoContent) else None))"

text \<open>\<open>session.Get("user_id")\<close> is copied to the key the handlers read.\<close>

definition AuthMiddleware :: "sessionVal option \<Rightarrow> 'i request \<Rightarrow> reply + 'i request" where
  "AuthMiddleware session c =
     (case session of
        None \<Rightarrow> Inl (Json RespondNeedLogin)
      | Some v \<Rightarrow> Inr (c\<lparr>ctxUserID := Some v\<rparr>))"

end
