(* ===== verification/Routes.thy ===== *)
theory Routes
  imports Cname_Api Cert_Api User_Api Deploy_Api Middleware Scheduler
begin

text \<open>
  routes/routes.go: the route table and the way a request takes through the middlewares to its
  handler. The router and the JSON
  binding are libraries: a call carries the route it matched, and the binding of each input type
  is a parameter.
\<close>

section \<open>Handlers and routes\<close>

datatype handlerName =
    HHealth | HRegister | HLogin | HLogout | HGetProfile
  | HAddDomain | HListDomains | HGetDomain | HUpdateDomain | HDeleteDomain
  | HGetCname | HVerifyCname
  | HIssueCertificate | HGetCertificateInfo | HDownloadDomainCertificate
  | HListDeployTargets | HAddDeployTarget | HUpdateDeployTarget | HDeleteDeployTarget
  | HDeployDomain | HGetDeployJob
  | HGenerateCertificate | HRenewCertificate | HListCertificates | HDownloadCertificate

record route =
  rMethod :: string
  rPath :: string
  rAuth :: bool
  rLimited :: bool
  rHandler :: handlerName

definition publicRoute :: "string \<Rightarrow> string \<Rightarrow> handlerName \<Rightarrow> route" where
  "publicRoute m p h = \<lparr>rMethod = m, rPath = p, rAuth = False, rLimited = False, rHandler = h\<rparr>"

definition protectedRoute :: "string \<Rightarrow> string \<Rightarrow> handlerName \<Rightarrow> route" where
  "protectedRoute m p h = \<lparr>rMethod = m, rPath = p, rAuth = True, rLimited = False, rHandler = h\<rparr>"

definition limitedRoute :: "string \<Rightarrow> string \<Rightarrow> handlerName \<Rightarrow> route" where
  "limitedRoute m p h = \<lparr>rMethod = m, rPath = p, rAuth = True, rLimited = True, rHandler = h\<rparr>"

definition SetupRouter :: "route list" where
  "SetupRouter =
     [publicRoute ''GET'' ''/health'' HHealth,
      publicRoute ''POST'' ''/api/auth/register'' HRegister,
      publicRoute ''POST'' ''/api/auth/login'' HLogin,
      publicRoute ''POST'' ''/api/auth/logout'' HLogout,
      protectedRoute ''GET'' ''/api/profile'' HGetProfile,
      protectedRoute ''POST'' ''/api/domains'' HAddDomain,
      protectedRoute ''GET'' ''/api/domains'' HListDomains,
      protectedRoute ''GET'' ''/api/domains/:id'' HGetDomain,
      protectedRoute ''PATCH'' ''/api/domains/:id'' HUpdateDomain,
      protectedRoute ''DELETE'' ''/api/domains/:id'' HDeleteDomain,
      protectedRoute ''GET'' ''/api/domains/:id/cname'' HGetCname,
      protectedRoute ''POST'' ''/api/domains/:id/cname/verify'' HVerifyCname,
      limitedRoute ''POST'' ''/api/domains/:id/certificate/issue'' HIssueCertificate,
      protectedRoute ''GET'' ''/api/domains/:id/certificate'' HGetCertificateInfo,
      protectedRoute ''GET'' ''/api/domains/:id/certificate/download'' HDownloadDomainCertificate,
      protectedRoute ''GET'' ''/api/domains/:id/deploy/targets'' HListDeployTargets,
      protectedRoute ''POST'' ''/api/domains/:id/deploy/targets'' HAddDeployTarget,
      protectedRoute ''PUT'' ''/api/domains/:id/deploy/targets/:targetId'' HUpdateDeployTarget,
      protectedRoute ''DELETE'' ''/api/domains/:id/deploy/targets/:targetId'' HDeleteDeployTarget,
      protectedRoute ''POST'' ''/api/domains/:id/deploy'' HDeployDomain,
      protectedRoute ''GET'' ''/api/domains/:id/deploy/jobs/:jobId'' HGetDeployJob,
      limitedRoute ''POST'' ''/api/certificates/generate'' HGenerateCertificate,
      limitedRoute ''POST'' ''/api/certificates/renew'' HRenewCertificate,
      protectedRoute ''GET'' ''/api/certificates'' HListCertificates,
      protectedRoute ''GET'' ''/api/certificates/:id/download'' HDownloadCertificate]"

text \<open>The session cookie.\<close>

datatype sameSite = SameSiteStrict | SameSiteNone | SameSiteLax

definition parseSameSite :: "string \<Rightarrow> sameSite" where
  "parseSameSite value =
     (if value = ''strict'' then SameSiteStrict
      else if value = ''none'' then SameSiteNone else SameSiteLax)"

record cookieOptions =
  ckMaxAge :: int
  ckPath :: string
  ckHttpOnly :: bool
  ckSecure :: bool
  ckSameSite :: sameSite

definition sessionOptions :: "SessionConfig \<Rightarrow> cookieOptions" where
  "sessionOptions s =
     \<lparr>ckMaxAge = MaxAge s, ckPath = Path s, ckHttpOnly = HttpOnly s, ckSecure = Secure s,
      ckSameSite = parseSameSite (SameSite s)\<rparr>"

section \<open>A request on its way\<close>

record bindings =
  bindDomain :: "string \<Rightarrow> bindError + DomainInput"
  bindUpdate :: "string \<Rightarrow> bindError + UpdateDomainInput"
  bindIssue :: "string \<Rightarrow> bindError + IssueCertInput"
  bindCertDomain :: "string \<Rightarrow> bindError + CertDomainInput"
  bindRegister :: "string \<Rightarrow> bindError + Credentials"
  bindLogin :: "string \<Rightarrow> bindError + Credentials"
  bindTarget :: "string \<Rightarrow> bindError + DeployTargetInput"

definition bound :: "(string \<Rightarrow> bindError + 'i) \<Rightarrow> string request \<Rightarrow> 'i request" where
  "bound f c =
     \<lparr>ctxUserID = ctxUserID c, pathID = pathID c, pathTargetID = pathTargetID c, pathJobID = pathJobID c,
      query = query c, body = (case body c of Inl err \<Rightarrow> Inl err | Inr raw \<Rightarrow> f raw)\<rparr>"

type_synonym answer = "reply \<times> sessionEffect"

definition plain :: "(world, payload response) state \<Rightarrow> (world, answer option) state" where
  "plain m = do { r \<leftarrow> m; State_Monad.return (Some (Json r, SessionKept)) }"

definition mayBlock :: "(world, payload response option) state \<Rightarrow> (world, answer option) state" where
  "mayBlock m = do { r \<leftarrow> m; State_Monad.return (map_option (\<lambda>x. (Json x, SessionKept)) r) }"

definition withSession ::
  "(world, payload response \<times> sessionEffect) state \<Rightarrow> (world, answer option) state" where
  "withSession m = do { r \<leftarrow> m; State_Monad.return (Some (Json (fst r), snd r)) }"

definition fileReply :: "(world, reply) state \<Rightarrow> (world, answer option) state" where
  "fileReply m = do { r \<leftarrow> m; State_Monad.return (Some (r, SessionKept)) }"

fun handle :: "env \<Rightarrow> bindings \<Rightarrow> string request \<Rightarrow> handlerName \<Rightarrow> (world, answer option) state" where
  "handle e b c HHealth = State_Monad.return (Some (JsonField StatusOK ''status'' ''ok'', SessionKept))"
| "handle e b c HRegister = withSession (Register e (bound (bindRegister b) c))"
| "handle e b c HLogin = withSession (Login e (bound (bindLogin b) c))"
| "handle e b c HLogout = withSession (Logout e c)"
| "handle e b c HGetProfile = plain (GetProfile e c)"
| "handle e b c HAddDomain = plain (AddDomain e (bound (bindDomain b) c))"
| "handle e b c HListDomains = plain (ListDomains e c)"
| "handle e b c HGetDomain = plain (GetDomain e c)"
| "handle e b c HUpdateDomain = plain (UpdateDomain e (bound (bindUpdate b) c))"
| "handle e b c HDeleteDomain = plain (DeleteDomain e c)"
| "handle e b c HGetCname = plain (GetCname e c)"
| "handle e b c HVerifyCname = plain (VerifyCname e c)"
| "handle e b c HIssueCertificate = mayBlock (IssueCertificate e (bound (bindIssue b) c))"
| "handle e b c HGetCertificateInfo = plain (GetCertificateInfo e c)"
| "handle e b c HDownloadDomainCertificate = fileReply (DownloadDomainCertificate e c)"
| "handle e b c HListDeployTargets = plain (ListDeployTargets e c)"
| "handle e b c HAddDeployTarget = plain (AddDeployTarget e (bound (bindTarget b) c))"
| "handle e b c HUpdateDeployTarget = plain (UpdateDeployTarget e (bound (bindTarget b) c))"
| "handle e b c HDeleteDeployTarget = plain (DeleteDeployTarget e c)"
| "handle e b c HDeployDomain = plain (DeployDomain e c)"
| "handle e b c HGetDeployJob = plain (GetDeployJob e c)"
| "handle e b c HGenerateCertificate = mayBlock (GenerateCertificate e (bound (bindCertDomain b) c))"
| "handle e b c HRenewCertificate = mayBlock (RenewCertificate e (bound (bindCertDomain b) c))"
| "handle e b c HListCertificates = plain (ListCertificates e c)"
| "handle e b c HDownloadCertificate = fileReply (DownloadCertificate e c)"

record 'l gateway =
  ipLimiter :: "'l keyedRateLimiter option"
  issueLimiter :: "'l keyedRateLimiter option"

record call =
  callIP :: string
  callOrigin :: string
  callMethod :: string
  callSession :: "sessionVal option"
  callRoute :: "route option"
  callRequest :: "string request"

text \<open>From the authentication on; the limiter of the issue routes runs last before the handler.\<close>

definition serveRoute ::
  "env \<Rightarrow> 'l bucketLib \<Rightarrow> bindings \<Rightarrow> call \<Rightarrow> route \<Rightarrow> 'l gateway \<Rightarrow> (world, answer option \<times> 'l gateway) state" where
  "serveRoute e lib b k rt g =
     (if \<not> rAuth rt then do {
        a \<leftarrow> handle e b (callRequest k) (rHandler rt);
        State_Monad.return (a, g)
      }
      else case AuthMiddleware (callSession k) (callRequest k) of
        Inl rep \<Rightarrow> State_Monad.return (Some (rep, SessionKept), g)
      | Inr c \<Rightarrow> do {
          now \<leftarrow> Now e;
          let (stop, l) = (if rLimited rt then CertIssueRateLimitMiddleware lib now c (issueLimiter g)
                           else (None, issueLimiter g));
          let g' = g\<lparr>issueLimiter := l\<rparr>;
          case stop of
            Some rep \<Rightarrow> State_Monad.return (Some (rep, SessionKept), g')
          | None \<Rightarrow> do {
              a \<leftarrow> handle e b c (rHandler rt);
              State_Monad.return (a, g')
            }
        })"

text \<open>The global middlewares run for every request, also for one that matches no route.\<close>

definition serve ::
  "env \<Rightarrow> 'l bucketLib \<Rightarrow> bindings \<Rightarrow> call \<Rightarrow> 'l gateway \<Rightarrow>
   (world, ((string \<times> string) list \<times> answer option) \<times> 'l gateway) state" where
  "serve e lib b k g = do {
     now \<leftarrow> Now e;
     let (stop, l) = RateLimitMiddleware lib now (callIP k) (ipLimiter g);
     let g' = g\<lparr>ipLimiter := l\<rparr>;
     case stop of
       Some rep \<Rightarrow> State_Monad.return (([], Some (rep, SessionKept)), g')
     | None \<Rightarrow>
         (case CORSMiddleware (osenv e) (cfg e) (callOrigin k) (callMethod k) of
            (headers, Some rep) \<Rightarrow> State_Monad.return ((headers, Some (rep, SessionKept)), g')
          | (headers, None) \<Rightarrow>
              (case callRoute k of
                 None \<Rightarrow> State_Monad.return ((headers, Some (BareStatus StatusNotFound, SessionKept)), g')
               | Some rt \<Rightarrow> do {
                   r \<leftarrow> serveRoute e lib b k rt g';
                   State_Monad.return ((headers, fst r), snd r)
                 }))
   }"

end
