(* ===== verification/Api_Scope.thy ===== *)
theory Api_Scope
  imports Routes Scheduler_Props
begin

text \<open>
  What a request may touch. \<open>table_scope\<close> is the contract between the handlers and an invariant of
  the state: the statements that a handler runs on the tables for the domain \<open>i\<close> keep it;
  \<open>domain_scope\<close> adds the bookkeeping of the jobs, which only the handlers that issue touch. The
  handlers keep every such invariant; instances are the well-formedness of the store, the rows
  that belong to other domains, and the books of the jobs.
\<close>

section \<open>Facts about a row that was found\<close>

text \<open>Some state with the invariant has a live row of the user under the id.\<close>

definition grant :: "(world \<Rightarrow> bool) \<Rightarrow> uint \<Rightarrow> uint \<Rightarrow> bool" where
  "grant I i u \<longleftrightarrow> (\<exists>w d. I w \<and> d \<in> set (domains w) \<and> live d \<and> dID d = i \<and> dUserID d = u)"

lemma keeps_found:
  assumes "stable e I" and "\<And>err. keeps I (f (Inl err))"
    and "\<And>d. q d \<Longrightarrow> grant I (dID d) (dUserID d) \<Longrightarrow> keeps I (f (Inr d))"
  shows "keeps I (State_Monad.bind (FirstDomain e q) f)"
  unfolding keeps_def
proof (intro allI impI)
  fix w assume "I w"
  then have I: "I (settle e w)" by (rule stable_settle [OF assms(1)])
  show "I (snd (run_state (State_Monad.bind (FirstDomain e q) f) w))"
  proof (cases "dbfail e (Suc (tick w))")
    case (Some x)
    then show ?thesis using keepsD [OF assms(2) I] by (simp add: run_FirstDomain_gen)
  next
    case None
    show ?thesis
    proof (cases "find (\<lambda>d. live d \<and> q d) (domains (settle e w))")
      case nothing: None
      then show ?thesis using None keepsD [OF assms(2) I] by (simp add: run_FirstDomain_gen)
    next
      case (Some d)
      then have "q d" "grant I (dID d) (dUserID d)" using I by (auto simp: grant_def dest!: find_SomeD)
      then show ?thesis using None Some keepsD [OF assms(3) I] by (simp add: run_FirstDomain_gen)
    qed
  qed
qed

lemma keeps_owned:
  fixes h :: "'d response \<Rightarrow> (world, 'r) state"
  assumes "stable e I"
    and "\<And>d u. parseDomainID s = Some (dID d) \<Longrightarrow> GetUserID c = Some u \<Longrightarrow> grant I (dID d) u \<Longrightarrow>
      keeps I (k d)"
    and "\<And>r. keeps I (h r)"
  shows "keeps I (State_Monad.bind (getDomainOwned e c s)
           (\<lambda>g. case g of Inl r \<Rightarrow> h r | Inr d \<Rightarrow> k d))"
  unfolding keeps_def
proof (intro allI impI)
  fix w assume I: "I w"
  obtain g :: "'d response + DomainRow" and w' where run: "run_state (getDomainOwned e c s) w = (g, w')"
    by fastforce
  then have I': "I w'" using keepsD [OF keeps_getDomainOwned [OF assms(1)] I] by (metis snd_conv)
  show "I (snd (run_state (State_Monad.bind (getDomainOwned e c s)
           (\<lambda>g. case g of Inl r \<Rightarrow> h r | Inr d \<Rightarrow> k d)) w))"
  proof (cases g)
    case (Inl r)
    then show ?thesis using run keepsD [OF assms(3) I'] by simp
  next
    case (Inr d)
    with getDomainOwned_sound run
    have "parseDomainID s = Some (dID d)" "GetUserID c = Some (dUserID d)" "live d" "d \<in> set (domains w')"
      by blast+
    then show ?thesis using Inr run keepsD [OF assms(2) I'] I' by (auto simp: grant_def)
  qed
qed

section \<open>Deletions and roll-backs from single statements\<close>

lemma table_assign:
  "targets_update f w = w\<lparr>targetSeq := targetSeq w, targets := f (targets w)\<rparr>"
  "deployJobs_update g w = w\<lparr>deployJobs := g (deployJobs w)\<rparr>"
  by (cases w; simp)+

text \<open>Invariants that do not look at the targets and the deploy jobs.\<close>

definition deployFree :: "(world \<Rightarrow> bool) \<Rightarrow> bool" where
  "deployFree I \<longleftrightarrow> (\<forall>w n ts. I w \<longrightarrow> I (w\<lparr>targetSeq := n, targets := ts\<rparr>))
     \<and> (\<forall>w js. I w \<longrightarrow> I (w\<lparr>deployJobs := js\<rparr>))"

lemma keeps_targets:
  assumes "stable e I" and "deployFree I"
  shows "keeps I (DeleteRows e targets targets_update p)" and "keeps I (Updates e targets targets_update p g)"
    and "keeps I (CreateTarget e t)" and "keeps I (DeleteRows e deployJobs deployJobs_update q)"
proof -
  have ts: "I (targets_update f w)" and js: "I (deployJobs_update h w)" if "I w" for w f h
    by (subst table_assign, use assms(2) that in \<open>unfold deployFree_def, blast\<close>)+
  show "keeps I (DeleteRows e targets targets_update p)" "keeps I (Updates e targets targets_update p g)"
    "keeps I (DeleteRows e deployJobs deployJobs_update q)"
    unfolding DeleteRows_def Updates_def by (intro keeps_db assms(1); simp only: snd_conv ts js)+
  show "keeps I (CreateTarget e t)"
    unfolding CreateTarget_def Let_def
    by (intro keeps_db assms(1)) (simp only: snd_conv, use assms(2) in \<open>unfold deployFree_def, blast\<close>)
qed

lemma keeps_dependents:
  assumes "stable e I" and "deployFree I" and "keeps I (DeleteRows e certs certs_update (certOfDomain i))"
  shows "keeps I (deleteDependents e i)"
  unfolding deleteDependents_def by (intro keeps_intros keeps_targets assms)

lemma keeps_rollback:
  assumes "stable e I" and "\<And>f. domain_update f \<Longrightarrow> keeps I (UpdatesDomain e (byID i) f)"
  shows "keeps I (rollbackGeneratingDomain e i msg rv)"
  unfolding rollbackGeneratingDomain_def
  by (intro keeps_intros keeps_queries keeps_wf_reads assms rollbackUpd.domain_update_axioms)

section \<open>The contract\<close>

text \<open>
  A write that makes no row active and brings none back. Only a roll-back of a domain with a certificate
  and a job that stored one do; both are laws of their own where they matter.
\<close>

definition quietWrite :: "(DomainRow \<Rightarrow> DomainRow) \<Rightarrow> bool" where
  "quietWrite f \<longleftrightarrow> (\<forall>d. dStatus (f d) = ''active'' \<and> live (f d) \<longrightarrow> dStatus d = ''active'' \<and> live d)"

lemma quiet_writes [simp]:
  "quietWrite (verifiedCols now)" "quietWrite (lockCols now)" "quietWrite (errorCols ''error'' msg)"
  "quietWrite (autoRenewCols on)" "quietWrite (targetCols target)" "quietWrite (claimCols u now)"
  "quietWrite restoreCols" "quietWrite (backoffCols n until)"
  by (simp_all add: quietWrite_def live_def verifiedCols_def lockCols_def errorCols_def autoRenewCols_def targetCols_def
      claimCols_def restoreCols_def backoffCols_def)

locale table_scope =
  fixes e :: env and I :: "world \<Rightarrow> bool" and i :: uint
  assumes stab: "stable e I"
    and row_write: "row_update f \<Longrightarrow> quietWrite f \<Longrightarrow> (\<And>d. q d \<Longrightarrow> dID d = i) \<Longrightarrow>
      keeps I (Updates e domains domains_update q (\<lambda>t d. (f d)\<lparr>dUpdatedAt := t\<rparr>))"
    and rollback: "keeps I (rollbackGeneratingDomain e i msg rv)"
    and removal: "keeps I (State_Monad.bind (deleteDependents e i) (\<lambda>_. SoftDeleteDomain e i))"
    and other_tables: "deployFree I"
begin

lemma update:
  "domain_update f \<Longrightarrow> quietWrite f \<Longrightarrow> (\<And>d. q d \<Longrightarrow> dID d = i) \<Longrightarrow> keeps I (UpdatesDomain e q f)"
  unfolding UpdatesDomain_def by (rule row_write) (auto simp: domain_update_def)

lemma update_id: "domain_update f \<Longrightarrow> quietWrite f \<Longrightarrow> keeps I (UpdatesDomain e (byID i) f)"
  by (rule update) (simp_all add: byID_def)

lemmas targets_write = keeps_targets [OF stab other_tables]

lemma remove:
  assumes "\<And>x. keeps I (k x)"
  shows "keeps I (State_Monad.bind (deleteDependents e i) (\<lambda>_. State_Monad.bind (SoftDeleteDomain e i) k))"
  using keeps_bind [OF removal assms] by simp

lemma mark: "keeps I (markDomainCnameVerified e i)"
  unfolding markDomainCnameVerified_def
  by (intro keeps_intros keeps_queries stab update_id verifiedUpd.domain_update_axioms quiet_writes)

lemma reads: "keeps I (respondDomain e d)" "keeps I (loadDomainDTO e d)"
  unfolding respondDomain_def loadDomainDTO_def by (intro keeps_intros keeps_wf_reads stab)+

lemma secrets: "keeps I (encryptSecrets e input)"
  unfolding encryptSecrets_def encryptSecret_def by (intro keeps_intros stab)

end

text \<open>With the registry, the slots and the workers.\<close>

locale domain_scope = table_scope +
  assumes books: "I w \<Longrightarrow> I (w\<lparr>jobs := rs, ctxs := cs, tokenSeq := t\<rparr>)" "I w \<Longrightarrow> I (w\<lparr>slots := n\<rparr>)"
      "I w \<Longrightarrow> I (w\<lparr>jobWG := n, spawned := sp\<rparr>)"
begin

lemma registry_books: "I w \<Longrightarrow> I (cancelEntry d w)" "I w \<Longrightarrow> I (registerJob d dl w)"
proof -
  assume w: "I w"
  have "cancelEntry d w = w\<lparr>jobs := jobs w, ctxs := ctxs (cancelEntry d w), tokenSeq := tokenSeq w\<rparr>"
    by (simp add: cancelEntry_def cancelCtx_def split: option.split)
  then show "I (cancelEntry d w)" using books(1) [OF w] by metis
  have "registerJob d dl w = w\<lparr>jobs := jobs (registerJob d dl w), ctxs := ctxs (registerJob d dl w),
      tokenSeq := tokenSeq (registerJob d dl w)\<rparr>"
    by (simp add: registerJob_def Let_def)
  then show "I (registerJob d dl w)" using books(1) [OF w] by metis
qed

lemma slot: "keeps I (tryAcquireCertJobSlot e)"
  unfolding tryAcquireCertJobSlot_def by (intro keeps_act stab) (simp add: sendSlot_def books(2))

lemma start: "keeps I (StartCertJob e d u renew ar)"
  unfolding StartCertJob_def
  by (intro keeps_intros keeps_begin keeps_act stab registry_books) (simp_all add: books(3))

lemma lock:
  assumes "dID row = i"
  shows "keeps I (lockDomainForCertJob e row renew)"
proof -
  have take: "keeps I (takeLock e current now staleBefore)" if "dID current = i" for current now staleBefore
    unfolding takeLock_def setDomainError_def that
    by (intro keeps_intros keeps_queries stab update update_id lockUpd.domain_update_axioms
        errorUpd.domain_update_axioms quiet_writes) (simp add: byID_def)
  have clear: "keeps I (clearStaleJob e d b)" for d b
    by (intro keeps_clearStaleJob stab registry_books)
  have found: "keeps I (State_Monad.bind (FirstDomain e (byID i)) (\<lambda>r. case r of
       Inl err \<Rightarrow> State_Monad.return (Some (Inl err))
     | Inr current \<Rightarrow> k current))" if "\<And>current. dID current = i \<Longrightarrow> keeps I (k current)" for k
    using that by (intro keeps_found stab) (auto simp: byID_def intro: keeps_return)
  show ?thesis
    unfolding lockDomainForCertJob_def Let_def assms
    by (rule keeps_bind, (intro keeps_intros keeps_queries stab)[1], rule keeps_case_sum, rule keeps_return,
        rule found, (intro keeps_intros keeps_queries stab clear take, assumption)[1])
qed

lemma begin_operation:
  assumes "dID d = i"
  shows "keeps I (beginCertOperation e d renew)"
  unfolding beginCertOperation_def markIfFirst_def lockAndAcquire_def assms
  by (intro keeps_intros keeps_wf_reads stab mark lock assms slot rollback)

end

section \<open>The handlers\<close>

text \<open>
  A request of user \<open>u\<close> about domain \<open>i\<close>: the statements of the domain are only reached when the
  user has a live row under the id.
\<close>

locale table_request =
  fixes e :: env and I :: "world \<Rightarrow> bool" and i u :: uint
  assumes stab: "stable e I" and scope: "grant I i u \<Longrightarrow> table_scope e I i"
begin

lemma owned:
  assumes "parseDomainID s \<in> {None, Some i}" and "GetUserID c \<in> {None, Some u}"
    and "\<And>d. table_scope e I i \<Longrightarrow> dID d = i \<Longrightarrow> keeps I (k d)"
  shows "keeps I (State_Monad.bind (getDomainOwned e c s)
           (\<lambda>g. case g of Inl r \<Rightarrow> State_Monad.return (h r) | Inr d \<Rightarrow> k d))"
  by (rule keeps_owned [OF stab _ keeps_return]) (use assms scope in auto)

lemma gated:
  assumes "parseDomainID (pathID c) \<in> {None, Some i}" and "GetUserID c \<in> {None, Some u}"
    and "\<And>d. table_scope e I i \<Longrightarrow> dID d = i \<Longrightarrow> keeps I (k d)"
  shows "keeps I (State_Monad.bind (gateOwned e c)
           (\<lambda>g. case g of Inl r \<Rightarrow> State_Monad.return (h r) | Inr d \<Rightarrow> k d))"
  using owned [OF assms, where h = h] keeps_return
  by (cases "requireDeployAPI e") (simp_all add: gateOwned_def)

lemma path_handlers:
  assumes "parseDomainID (pathID c) \<in> {None, Some i}" and "GetUserID c \<in> {None, Some u}"
  shows "keeps I (GetDomain e c)" and "keeps I (DeleteDomain e c)" and "keeps I (GetCname e c)"
    and "keeps I (VerifyCname e c)" and "keeps I (GetCertificateInfo e c)"
    and "keeps I (ListDeployTargets e c)" and "keeps I (DeleteDeployTarget e c)"
    and "keeps I (GetDeployJob e c)"
proof -
  note go = owned [OF assms] gated [OF assms]
  show "keeps I (GetDomain e c)" unfolding GetDomain_def by (rule go, intro table_scope.reads)
  show "keeps I (DeleteDomain e c)"
    unfolding DeleteDomain_def
    by (rule go, rule keeps_if, rule keeps_return, simp only:, rule table_scope.remove, assumption, intro keeps_intros)
  show "keeps I (GetCname e c)"
    unfolding GetCname_def by (rule go, intro keeps_intros stab)
  show "keeps I (VerifyCname e c)"
    unfolding VerifyCname_def by (rule go, simp only:, intro keeps_intros keeps_queries stab table_scope.mark; assumption)
  show "keeps I (GetCertificateInfo e c)"
    unfolding GetCertificateInfo_def by (rule go, intro keeps_intros keeps_wf_reads stab)
  show "keeps I (ListDeployTargets e c)"
    unfolding ListDeployTargets_def by (rule go, intro keeps_intros keeps_queries stab)
  show "keeps I (DeleteDeployTarget e c)"
    unfolding DeleteDeployTarget_def by (rule go, intro keeps_intros table_scope.targets_write; assumption)
  show "keeps I (GetDeployJob e c)"
    unfolding GetDeployJob_def by (rule go, intro keeps_intros keeps_queries stab)
qed

lemma body_handlers:
  assumes "parseDomainID (pathID c) \<in> {None, Some i}" and "GetUserID c \<in> {None, Some u}"
  shows "keeps I (UpdateDomain e (bound f c))" and "keeps I (AddDeployTarget e (bound h c))" and "keeps I (UpdateDeployTarget e (bound h c))"
proof -
  have path: "parseDomainID (pathID (bound f c)) \<in> {None, Some i}" for f
    using assms by (simp add: bound_def)
  have user: "GetUserID (bound f c) \<in> {None, Some u}" for f
    using assms by (simp add: GetUserID_def bound_def)
  note go = owned [OF path user] gated [OF path user]
  show "keeps I (UpdateDomain e (bound f c))"
    unfolding UpdateDomain_def
    by (rule go, simp only:, intro keeps_intros keeps_queries stab table_scope.reads
        table_scope.update_id autoRenewUpd.domain_update_axioms quiet_writes; assumption)
  show "keeps I (AddDeployTarget e (bound h c))"
    unfolding AddDeployTarget_def by (rule go, intro keeps_intros table_scope.secrets table_scope.targets_write;
        assumption)
  show "keeps I (UpdateDeployTarget e (bound h c))"
    unfolding UpdateDeployTarget_def Let_def
    by (rule go, intro keeps_intros keeps_queries stab table_scope.secrets
        table_scope.targets_write; assumption)
qed

end

text \<open>The domain a call is about: the id of the path, or of the body for the legacy routes.\<close>

fun about :: "bindings \<Rightarrow> string request \<Rightarrow> handlerName \<Rightarrow> uint option" where
  "about b c HGenerateCertificate =
     (case body (bound (bindCertDomain b) c) of Inl _ \<Rightarrow> None | Inr input \<Rightarrow> Some (inDomainID input))"
| "about b c HRenewCertificate =
     (case body (bound (bindCertDomain b) c) of Inl _ \<Rightarrow> None | Inr input \<Rightarrow> Some (inDomainID input))"
| "about b c _ = parseDomainID (pathID c)"

lemma keeps_wrappers:
  "keeps I m \<Longrightarrow> keeps I (plain m)" "keeps I m' \<Longrightarrow> keeps I (mayBlock m')"
  "keeps I s \<Longrightarrow> keeps I (withSession s)" "keeps I f \<Longrightarrow> keeps I (fileReply f)"
  unfolding plain_def mayBlock_def withSession_def fileReply_def by (intro keeps_intros; assumption)+

lemma keeps_readers:
  assumes "stable e J"
  shows "keeps J (ListDomains e c)" and "keeps J (ListCertificates e c)" and "keeps J (GetProfile e c)"
    and "keeps J (Login e d)" and "keeps J (Logout e c)" and "keeps J (DownloadDomainCertificate e c)"
    and "keeps J (DownloadCertificate e c)"
proof -
  note base = keeps_intros keeps_queries keeps_wf_reads keeps_read assms
  have "keeps J (loadDomainDTOs e ds)" for ds
    by (induction ds) (auto simp: loadDomainDTO_def intro!: base)
  then show "keeps J (ListDomains e c)"
    unfolding ListDomains_def by (intro base; assumption?)
  have "keeps J (certInfoDTOs e ds)" for ds
    by (induction ds) (auto intro!: base split: option.split)
  then show "keeps J (ListCertificates e c)"
    unfolding ListCertificates_def by (intro base; assumption?)
  show "keeps J (GetProfile e c)" unfolding GetProfile_def by (intro base)
  show "keeps J (Login e d)" unfolding Login_def openSession_def by (intro base)
  show "keeps J (Logout e c)" unfolding Logout_def by (intro base)
  have "keeps J (writeCertificateZip e n cert key)" for n cert key
    unfolding writeCertificateZip_def by (intro base)
  then show down: "keeps J (DownloadDomainCertificate e c)" for c :: "'a request"
    unfolding DownloadDomainCertificate_def by (intro base; assumption?)
  show "keeps J (DownloadCertificate e c)"
    unfolding DownloadCertificate_def by (intro base down)
qed

text \<open>The handlers that start no job.\<close>

definition issuing :: "handlerName set" where
  "issuing = {HIssueCertificate, HGenerateCertificate, HRenewCertificate}"

context table_request
begin

lemma table_handlers:
  assumes "h \<notin> {HAddDomain, HRegister}" and "h \<notin> issuing" and "parseDomainID (pathID c) \<in> {None, Some i}"
    and "GetUserID c \<in> {None, Some u}"
  shows "keeps I (handle e b c h)"
proof -
  note all = keeps_wrappers keeps_return keeps_readers [OF stab] path_handlers body_handlers
  show ?thesis
    using assms by (cases h) (auto intro!: all simp: DeployDomain_def issuing_def)
qed

end

text \<open>The handlers that start one need the books as well.\<close>

locale request_scope =
  fixes e :: env and I :: "world \<Rightarrow> bool" and i u :: uint
  assumes stable: "stable e I" and granted: "grant I i u \<Longrightarrow> domain_scope e I i"

sublocale request_scope \<subseteq> table_request
  by (rule table_request.intro) (auto simp: stable dest: granted domain_scope.axioms(1))

context request_scope
begin

lemma issue:
  assumes "GetUserID c \<in> {None, Some u}"
  shows "keeps I (issueCertificateInternal e c i renew)"
proof -
  note laws = domain_scope.begin_operation domain_scope.start
  have own: "grant I (dID d) (dUserID d) \<Longrightarrow> ownedBy i v d \<Longrightarrow> GetUserID c = Some v \<Longrightarrow> domain_scope e I i"
    for d v
    using granted assms by (auto simp: ownedBy_def)
  show ?thesis
  proof (cases "GetUserID c")
    case None
    then show ?thesis by (simp add: issueCertificateInternal_def requireUserID_def keeps_return)
  next
    case (Some v)
    show ?thesis
      unfolding issueCertificateInternal_def requireUserID_def Some option.case sum.case
      apply (rule keeps_found [OF stable]; unfold sum.case)
       apply (rule keeps_return)
      apply (intro keeps_intros keeps_wf_reads stable laws; (rule own [OF _ _ Some]; assumption)?)
      apply (simp add: ownedBy_def)
      done
  qed
qed

lemma issue_path:
  assumes "parseDomainID (pathID c) \<in> {None, Some i}" and "GetUserID c \<in> {None, Some u}"
  shows "keeps I (IssueCertificate e (bound g c))"
proof -
  have path: "parseDomainID (pathID (bound g c)) \<in> {None, Some i}"
    and user: "GetUserID (bound g c) \<in> {None, Some u}"
    using assms by (simp_all add: bound_def GetUserID_def)
  show ?thesis
    unfolding IssueCertificate_def
    by (rule owned [OF path user]) (use issue [OF user] in \<open>auto intro!: keeps_return split: sum.split bindError.split\<close>)
qed

lemma handle_keeps:
  assumes "h \<notin> {HAddDomain, HRegister}" and "about b c h \<in> {None, Some i}"
    and "GetUserID c \<in> {None, Some u}"
  shows "keeps I (handle e b c h)"
proof -
  have user: "GetUserID (bound f c) \<in> {None, Some u}" for f :: "string \<Rightarrow> bindError + CertDomainInput"
    using assms(3) by (simp add: GetUserID_def bound_def)
  have start: "keeps I (startByBody e (bound (bindCertDomain b) c) renew)"
    if "(case body (bound (bindCertDomain b) c) of Inl _ \<Rightarrow> None | Inr input \<Rightarrow> Some (inDomainID input))
          \<in> {None, Some i}" for renew
    using that issue [OF user] by (auto simp: startByBody_def intro: keeps_return split: sum.splits)
  show ?thesis
  proof (cases "h \<in> issuing")
    case True
    then show ?thesis
      using assms start issue_path keeps_wrappers(2)
      by (auto simp: issuing_def GenerateCertificate_def RenewCertificate_def)
  next
    case False
    then have "about b c h = parseDomainID (pathID c)" by (cases h) (simp_all add: issuing_def)
    then show ?thesis using False assms table_handlers by simp
  qed
qed

end

end
