(* ===== verification/Api_Props.thy ===== *)
theory Api_Props
  imports Api_Scope
begin

text \<open>
  Properties of the API as a whole: the store invariant over every request, the isolation of the
  users from each other, and what a caller without a session can do.
\<close>

section \<open>The two instances of the contract\<close>

text \<open>A request that runs alone: no other goroutine acts between its steps.\<close>

definition alone :: "env \<Rightarrow> env" where
  "alone e = e\<lparr>interfere := (\<lambda>_ w. w)\<rparr>"

lemma alone_quiet: "quiet e \<Longrightarrow> alone e = e"
  by (cases e) (auto simp: alone_def quiet_def fun_eq_iff)

lemma stable_alone: "(\<And>w n. I (w\<lparr>tick := n\<rparr>) = I w) \<Longrightarrow> stable (alone e) I"
  by (simp add: stable_def alone_def)

text \<open>Everything but the rows of domain \<open>i\<close>, its targets and jobs.\<close>

definition outside :: "uint \<Rightarrow> world \<Rightarrow> DomainRow list \<times> CertRow list \<times> UserRow list \<times> AcmeRow list" where
  "outside i w = (filter (\<lambda>d. dID d \<noteq> i) (domains w), filter (\<lambda>c. cDomainID c \<noteq> i) (certs w),
     users w, accounts w)"

lemma filter_map_outside:
  assumes "\<And>d. q d \<Longrightarrow> key d = i" and "\<And>d. key (g d) = key d"
  shows "filter (\<lambda>d. key d \<noteq> i) (map (\<lambda>d. if q d then g d else d) ds) = filter (\<lambda>d. key d \<noteq> i) ds"
  using assms by (induction ds) auto

lemma filter_filter_outside:
  "filter (\<lambda>c. \<not> certOfDomain i c \<and> cDomainID c \<noteq> i) cs = filter (\<lambda>c. cDomainID c \<noteq> i) cs"
  by (rule filter_cong) (auto simp: certOfDomain_def)

lemma others_writes:
  fixes e i s
  defines "I \<equiv> \<lambda>w. outside i w = s"
  shows "stable (alone e) I" and "deployFree I"
    and "row_update f \<Longrightarrow> (\<And>d. q d \<Longrightarrow> dID d = i) \<Longrightarrow>
      keeps I (Updates (alone e) domains domains_update q (\<lambda>t d. (f d)\<lparr>dUpdatedAt := t\<rparr>))"
    and "keeps I (SoftDeleteDomain (alone e) i)"
    and "keeps I (DeleteRows (alone e) certs certs_update (certOfDomain i))"
proof -
  show st: "stable (alone e) I" unfolding I_def by (rule stable_alone) (simp add: outside_def)
  show "deployFree I" by (simp add: deployFree_def I_def outside_def)
  show "keeps I (Updates (alone e) domains domains_update q (\<lambda>t d. (f d)\<lparr>dUpdatedAt := t\<rparr>))"
    if "row_update f" and "\<And>d. q d \<Longrightarrow> dID d = i"
    unfolding Updates_def
    by (intro keeps_db st)
      (simp add: I_def outside_def table_update filter_map_outside [where key = dID] that row_update.keeps_id)
  show "keeps I (SoftDeleteDomain (alone e) i)"
    unfolding SoftDeleteDomain_def
    by (intro keeps_db st)
      (simp add: I_def outside_def, subst filter_map_outside [where key = dID]; auto simp: byID_def)
  show "keeps I (DeleteRows (alone e) certs certs_update (certOfDomain i))"
    unfolding DeleteRows_def
    by (intro keeps_db st) (simp add: I_def outside_def table_update filter_filter_outside)
qed

interpretation others: domain_scope "alone e" "\<lambda>w. outside i w = s" i for e i s
proof unfold_locales
  let ?I = "\<lambda>w. outside i w = s"
  note w = others_writes
  show "stable (alone e) ?I" "deployFree ?I" by (rule w)+
  show "keeps ?I (Updates (alone e) domains domains_update q (\<lambda>t d. (f d)\<lparr>dUpdatedAt := t\<rparr>))"
    if "row_update f" and "\<And>d. q d \<Longrightarrow> dID d = i" for f q
    using w(3) that by blast
  show "keeps ?I (rollbackGeneratingDomain (alone e) i msg rv)" for msg rv
    by (rule keeps_rollback [OF w(1)])
      (auto simp: UpdatesDomain_def byID_def domain_update_def intro: w(3))
  show "keeps ?I (State_Monad.bind (deleteDependents (alone e) i) (\<lambda>_. SoftDeleteDomain (alone e) i))"
    by (intro keeps_bind keeps_dependents w)
qed (simp_all add: outside_def)

interpretation othersReq: request_scope "alone e" "\<lambda>w. outside i w = s" i u for e i u s
  by unfold_locales (rule others.stab)

text \<open>Nothing at all has changed, and the user has no live row under the id.\<close>

definition refused :: "world \<Rightarrow> uint \<Rightarrow> uint \<Rightarrow> world \<Rightarrow> bool" where
  "refused w0 i u w \<longleftrightarrow> w\<lparr>tick := 0\<rparr> = w0\<lparr>tick := 0\<rparr>
     \<and> \<not> (\<exists>d \<in> set (domains w0). live d \<and> dID d = i \<and> dUserID d = u)"

lemma not_granted: "\<not> grant (refused w0 i u) i u"
proof -
  have "domains w = domains w0" if "refused w0 i u w" for w
  proof -
    have "domains (w\<lparr>tick := 0\<rparr>) = domains (w0\<lparr>tick := 0\<rparr>)" using that by (simp only: refused_def)
    then show ?thesis by simp
  qed
  moreover have "\<not> (\<exists>d \<in> set (domains w0). live d \<and> dID d = i \<and> dUserID d = u)" if "refused w0 i u w" for w
    using that unfolding refused_def by (rule conjunct2)
  ultimately show ?thesis unfolding grant_def by metis
qed

interpretation refusedReq: request_scope "alone e" "refused w0 i u" i u for e w0 i u
proof (rule request_scope.intro)
  show "stable (alone e) (refused w0 i u)" by (rule stable_alone) (simp add: refused_def)
qed (use not_granted in blast)

lemma wf_writes:
  assumes "stable e wf_store"
  shows "deployFree wf_store"
    and "row_update f \<Longrightarrow> keeps wf_store (Updates e domains domains_update q (\<lambda>t d. (f d)\<lparr>dUpdatedAt := t\<rparr>))"
    and "keeps wf_store (SoftDeleteDomain e i)" and "keeps wf_store (deleteDependents e i)"
proof -
  show dep: "deployFree wf_store" by (simp add: deployFree_def wf_store_def)
  show "keeps wf_store (Updates e domains domains_update q (\<lambda>t d. (f d)\<lparr>dUpdatedAt := t\<rparr>))" if "row_update f"
    using row_update.unscoped_updates_keep_wf [OF that assms] .
  have "wf_domains n (map (\<lambda>d. if q d then d\<lparr>dDeletedAt := t\<rparr> else d) ds)" if "wf_domains n ds" for n q t ds
    using that by (auto simp: wf_domains_def status_ok_def comp_def if_distrib cong: if_cong)
  then show "keeps wf_store (SoftDeleteDomain e i)"
    unfolding SoftDeleteDomain_def by (intro keeps_db assms) (simp add: wf_store_def)
  show "keeps wf_store (deleteDependents e i)"
  proof (rule keeps_dependents [OF assms dep])
    show "keeps wf_store (DeleteRows e certs certs_update (certOfDomain i))"
      unfolding DeleteRows_def
      by (intro keeps_db assms) (simp add: wf_store_def table_update wf_certs_filter)
  qed
qed

lemma wf_scope:
  assumes "stable e wf_store"
  shows "domain_scope e wf_store i"
proof unfold_locales
  note w = wf_writes [OF assms]
  show "stable e wf_store" by (rule assms)
  show "deployFree wf_store" by (rule w)
  show "keeps wf_store (Updates e domains domains_update q (\<lambda>t d. (f d)\<lparr>dUpdatedAt := t\<rparr>))" if "row_update f" for f q
    by (rule w(2) [OF that])
  show "keeps wf_store (rollbackGeneratingDomain e i msg rv)" for msg rv by (rule keeps_wf_updates [OF assms])
  show "keeps wf_store (State_Monad.bind (deleteDependents e i) (\<lambda>_. SoftDeleteDomain e i))"
    by (intro keeps_bind w)
qed (simp_all add: wf_store_def)

section \<open>The store invariant over every request\<close>

lemma keeps_wf_create:
  assumes "stable e wf_store"
  shows "keeps wf_store (CreateDomain e (newDomainRow u n))"
proof -
  have "wf_domains (Suc m) (ds @ [(newDomainRow u n)\<lparr>dID := Suc m, dCreatedAt := t, dUpdatedAt := t\<rparr>])"
    if "wf_domains m ds" and "\<not> list_ex (byName n) ds" for m t ds
    using that by (fastforce simp: wf_domains_def newDomainRow_def status_ok_def statuses_def
        byName_def list_ex_iff)
  then show ?thesis
    unfolding CreateDomain_def Let_def
    by (intro keeps_db assms) (simp add: wf_store_def newDomainRow_def)
qed

lemma keeps_wf_add:
  assumes "stable e wf_store"
  shows "keeps wf_store (AddDomain e c)"
proof -
  note sc = domain_scope.axioms(1) [OF wf_scope [OF assms]]
  note base = keeps_intros keeps_queries keeps_wf_reads table_scope.reads [OF sc] assms
  have "keeps wf_store (isUnclaimedDomain e d)" for d
    unfolding isUnclaimedDomain_def by (intro base)
  moreover have "keeps wf_store (assignUnclaimedDomainToUser e i u)" for i u
    unfolding assignUnclaimedDomainToUser_def
    by (intro base claimUpd.updates_keeps_wf)
  ultimately have live: "keeps wf_store (addLive e d u)" for d u
    unfolding addLive_def claimUnclaimedDomain_def Let_def
    by (intro base targetUpd.updates_keeps_wf)
  have restored: "keeps wf_store (addRestored e d)" for d
    unfolding addRestored_def restoreDeletedDomain_def
    by (intro base restoreUpd.unscoped_updates_keep_wf)
  have new: "keeps wf_store (addNew e u n)" for u n
    unfolding addNew_def createDomainRecord_def Let_def
    by (intro base keeps_wf_create targetUpd.updates_keeps_wf wf_writes [OF assms])
  have remove: "keeps wf_store (permanentlyRemoveDomain e i)" for i
    unfolding permanentlyRemoveDomain_def DeleteRows_def
    by (intro base wf_writes [OF assms] keeps_db)
      (simp add: wf_store_def table_update wf_domains_filter)
  have "keeps wf_store (addNamed e u n)" for u n
    unfolding addNamed_def by (intro base live restored new remove)
  then show ?thesis
    unfolding AddDomain_def by (auto intro: keeps_return split: sum.split)
qed

lemma keeps_wf_register:
  assumes "stable e wf_store"
  shows "keeps wf_store (Register e c)"
proof -
  have "keeps wf_store (CreateUser e m h)" for m h
    unfolding CreateUser_def Let_def by (intro keeps_db assms) (simp add: wf_store_def)
  then show ?thesis
    unfolding Register_def HashPassword_def openSession_def
    by (intro keeps_intros keeps_queries keeps_read assms)
qed

lemma keeps_wf_handle:
  assumes "stable e wf_store"
  shows "keeps wf_store (handle e b c h)"
proof (cases "h \<in> {HAddDomain, HRegister}")
  case True
  then show ?thesis
    using keeps_wf_add [OF assms] keeps_wf_register [OF assms] keeps_wrappers by auto
next
  case False
  obtain i where i: "about b c h \<in> {None, Some i}" by (cases "about b c h") auto
  obtain u where u: "GetUserID c \<in> {None, Some u}" by (cases "GetUserID c") auto
  have "request_scope e wf_store i u"
    using wf_scope [OF assms] assms by (simp add: request_scope_def)
  from request_scope.handle_keeps [OF this False i u] show ?thesis .
qed

text \<open>What a handler behind the login sees: the request with the user of the session.\<close>

definition routed :: "call \<Rightarrow> string request" where
  "routed k = (callRequest k)\<lparr>ctxUserID := callSession k\<rparr>"

lemma keeps_serve:
  assumes "stable e I"
    and "\<And>c. c = (if rAuth rt then routed k else callRequest k) \<Longrightarrow> keeps I (handle e b c (rHandler rt))"
    and "\<And>rt'. callRoute k = Some rt' \<Longrightarrow> rt' = rt"
  shows "keeps I (serve e lib b k g)"
proof -
  have route: "keeps I (serveRoute e lib b k rt g')" for g'
    using assms(2)
    by (auto simp: serveRoute_def AuthMiddleware_def routed_def Let_def
        intro!: keeps_intros keeps_queries assms(1) split: option.split prod.split)
  show ?thesis
  proof (cases "callRoute k")
    case None
    then show ?thesis
      unfolding serve_def Let_def None option.case by (intro keeps_intros keeps_queries assms(1))
  next
    case (Some rt')
    then have rt: "callRoute k = Some rt" using assms(3) by simp
    show ?thesis
      unfolding serve_def Let_def rt option.case by (intro keeps_intros keeps_queries route assms(1))
  qed
qed

text \<open>
  Property C3. No request breaks the tables: whatever its route, session, body and headers, under
  every interference that keeps the store well formed and with every fault of the database, the
  rows keep unique ids and names, unique certificates per domain, and a known status, and a
  generating row keeps its time stamp.
\<close>

theorem api_keeps_store:
  assumes "stable e wf_store" and "wf_store w"
  shows "wf_store (snd (run_state (serve e lib b k g) w))"
proof -
  obtain rt where rt: "\<And>rt'. callRoute k = Some rt' \<Longrightarrow> rt' = rt" by (cases "callRoute k") auto
  show ?thesis by (rule keepsD [OF keeps_serve [OF assms(1) keeps_wf_handle [OF assms(1)] rt] assms(2)])
qed

text \<open>A request of the sample user for the sample domain, and a server without limiters.\<close>

definition sampleBindings :: bindings where
  "sampleBindings =
     \<lparr>bindDomain = (\<lambda>raw. Inr \<lparr>inName = raw, inDomain = []\<rparr>), bindUpdate = (\<lambda>_. Inl BindEOF),
      bindIssue = (\<lambda>_. Inl BindEOF), bindCertDomain = (\<lambda>_. Inr \<lparr>inDomainID = 1\<rparr>),
      bindRegister = (\<lambda>raw. Inr \<lparr>inEmail = raw, inPassword = raw\<rparr>),
      bindLogin = (\<lambda>raw. Inr \<lparr>inEmail = raw, inPassword = raw\<rparr>), bindTarget = (\<lambda>_. Inl BindEOF)\<rparr>"

definition sampleRequest :: "uint \<Rightarrow> string \<Rightarrow> string request" where
  "sampleRequest u raw =
     \<lparr>ctxUserID = Some (UintVal u), pathID = ''1'', pathTargetID = [], pathJobID = [], query = Map.empty,
      body = Inr raw\<rparr>"

definition sampleCall :: "sessionVal option \<Rightarrow> route \<Rightarrow> call" where
  "sampleCall s rt =
     \<lparr>callIP = ''10.0.0.1'', callOrigin = [], callMethod = rMethod rt, callSession = s,
      callRoute = Some rt, callRequest = sampleRequest 9 ''other.test''\<rparr>"

definition addRoute :: route where
  "addRoute = protectedRoute ''POST'' ''/api/domains'' HAddDomain"

definition deleteRoute :: route where
  "deleteRoute = protectedRoute ''DELETE'' ''/api/domains/:id'' HDeleteDomain"

lemma sampleCall_fields [simp]: "callRoute (sampleCall s rt) = Some rt" "callSession (sampleCall s rt) = s"
  by (simp_all add: sampleCall_def)

definition sampleLib :: "nat bucketLib" where
  "sampleLib = \<lparr>newBucket = (\<lambda>r n. n), bucketAllow = (\<lambda>t n. (0 < n, n - 1))\<rparr>"

definition noLimits :: "nat gateway" where
  "noLimits = \<lparr>ipLimiter = None, issueLimiter = None\<rparr>"

lemma stable_idle: "(\<And>w n. I (w\<lparr>tick := n\<rparr>) = I w) \<Longrightarrow> stable idleEnv I"
  by (simp add: stable_def)

theorem api_keeps_store_witness:
  "wf_store (snd (run_state (serve idleEnv sampleLib sampleBindings
     (sampleCall (Some (UintVal 9)) addRoute) noLimits) (sampleWorld ''active'' [sampleCert] [])))"
  by (rule api_keeps_store [OF stable_idle]) (simp_all add: statuses_def)

section \<open>Isolation of the users\<close>

lemma outside_rows:
  assumes "outside i w' = outside i w" and "j \<noteq> i"
  shows "d \<in> set (domains w) \<Longrightarrow> dID d = j \<Longrightarrow> d \<in> set (domains w')"
    and "filter (certOfDomain j) (certs w') = filter (certOfDomain j) (certs w)"
    and "users w' = users w"
proof -
  have cut: "filter (certOfDomain j) cs = filter (certOfDomain j) (filter (\<lambda>c. cDomainID c \<noteq> i) cs)" for cs
    using assms(2) by (auto simp: certOfDomain_def intro: filter_cong)
  show "filter (certOfDomain j) (certs w') = filter (certOfDomain j) (certs w)"
    using assms(1) cut [of "certs w"] cut [of "certs w'"] by (simp add: outside_def)
  show "users w' = users w" using assms(1) by (simp add: outside_def)
  assume "d \<in> set (domains w)" and "dID d = j"
  then have "d \<in> set (filter (\<lambda>d. dID d \<noteq> i) (domains w))" using assms(2) by simp
  also have "\<dots> = set (filter (\<lambda>d. dID d \<noteq> i) (domains w'))" using assms(1) by (simp add: outside_def)
  finally show "d \<in> set (domains w')" by simp
qed

lemma handle_isolated:
  assumes "quiet e" and "wf_store w" and "h \<notin> {HAddDomain, HRegister}" and "GetUserID c = Some u"
    and "d \<in> set (domains w)" and "dUserID d \<noteq> u"
    and serve: "\<And>I. stable e I \<Longrightarrow> keeps I (handle e b c h) \<Longrightarrow> keeps I m"
  defines "w' \<equiv> snd (run_state m w)"
  shows "d \<in> set (domains w')
    \<and> filter (certOfDomain (dID d)) (certs w') = filter (certOfDomain (dID d)) (certs w)
    \<and> users w' = users w"
proof (cases "about b c h = Some (dID d)")
  case True
  have none: "\<not> (\<exists>x \<in> set (domains w). live x \<and> dID x = dID d \<and> dUserID x = u)"
    using assms(2,5,6) distinct_key_unique by (metis wf_store_def wf_domains_def)
  have "keeps (refused w (dID d) u) (handle e b c h)"
    using refusedReq.handle_keeps [where h = h and b = b and c = c and i = "dID d" and u = u and e = e and ?w0.0 = w] assms(3,4) True alone_quiet [OF assms(1)] by simp
  then have "keeps (refused w (dID d) u) m"
    using serve refusedReq.stab [where e = e] alone_quiet [OF assms(1)] by metis
  then have "w'\<lparr>tick := 0\<rparr> = w\<lparr>tick := 0\<rparr>"
    using keepsD [of "refused w (dID d) u" m w] none unfolding w'_def by (simp add: refused_def)
  then have "domains (w'\<lparr>tick := 0\<rparr>) = domains (w\<lparr>tick := 0\<rparr>)"
    "certs (w'\<lparr>tick := 0\<rparr>) = certs (w\<lparr>tick := 0\<rparr>)" "users (w'\<lparr>tick := 0\<rparr>) = users (w\<lparr>tick := 0\<rparr>)"
    by (simp_all only:)
  then show ?thesis using assms(5) by simp
next
  case False
  obtain i where i: "about b c h \<in> {None, Some i}" "i \<noteq> dID d"
    using False by (cases "about b c h") (auto intro: that [of "Suc (dID d)"])
  have "keeps (\<lambda>v. outside i v = outside i w) (handle e b c h)"
    using othersReq.handle_keeps [where h = h and b = b and c = c and i = i and u = u and e = e and s = "outside i w"] assms(3,4) i alone_quiet [OF assms(1)]
    by simp
  then have "keeps (\<lambda>v. outside i v = outside i w) m"
    using serve others.stab [where e = e] alone_quiet [OF assms(1)] by metis
  then have "outside i w' = outside i w"
    using keepsD [of "\<lambda>v. outside i v = outside i w" m w] unfolding w'_def by simp
  from outside_rows [OF this i(2) [symmetric]] assms(5) show ?thesis by simp
qed

text \<open>
  Property C1. Users are isolated: a request behind the login, other than registering a name
  (which may claim an unclaimed one), leaves every domain of another user and the certificates
  of that domain exactly as they are, whatever id, body or headers it carries and whichever
  statements fail.
\<close>

theorem tenant_isolation:
  assumes "quiet e" and "wf_store w" and "callRoute k = Some rt" and "rt \<in> set SetupRouter" and "rAuth rt"
    and "rHandler rt \<noteq> HAddDomain" and "GetUserID (routed k) = Some u"
    and "d \<in> set (domains w)" and "dUserID d \<noteq> u"
    and "w' = snd (run_state (serve e lib b k g) w)"
  shows "d \<in> set (domains w')
    \<and> filter (certOfDomain (dID d)) (certs w') = filter (certOfDomain (dID d)) (certs w)
    \<and> users w' = users w"
proof -
  have "rHandler rt \<noteq> HRegister"
    using assms(4,5) by (auto simp: SetupRouter_def publicRoute_def protectedRoute_def limitedRoute_def)
  then show ?thesis
    unfolding assms(10)
    by (intro handle_isolated [OF assms(1,2) _ assms(7-9)])
      (use assms in \<open>auto intro: keeps_serve [where rt = rt]\<close>)
qed

theorem tenant_isolation_witness:
  "sampleDomain ''active'' \<in> set (domains (snd (run_state (serve idleEnv sampleLib sampleBindings
     (sampleCall (Some (UintVal 9)) deleteRoute) noLimits) (sampleWorld ''active'' [sampleCert] []))))"
proof -
  have "deleteRoute \<in> set SetupRouter" "rAuth deleteRoute" "rHandler deleteRoute \<noteq> HAddDomain"
    by (simp_all add: SetupRouter_def deleteRoute_def protectedRoute_def)
  moreover have "GetUserID (routed (sampleCall (Some (UintVal 9)) deleteRoute)) = Some 9"
    by (simp add: routed_def sampleCall_def sampleRequest_def GetUserID_def)
  moreover have "wf_store (sampleWorld ''active'' [sampleCert] [])" by (simp add: statuses_def)
  moreover have "quiet idleEnv" using calm_idleEnv by (simp add: calm_def)
  ultimately show ?thesis
    using tenant_isolation [where e = idleEnv and w = "sampleWorld ''active'' [sampleCert] []" and rt = deleteRoute
        and k = "sampleCall (Some (UintVal 9)) deleteRoute" and u = 9 and d = "sampleDomain ''active''"
        and lib = sampleLib and b = sampleBindings and g = noLimits]
    by auto
qed

text \<open>
  Property C2. Behind the login there is nothing without a session: for every route of the
  server but the health check and the three authentication routes, a call without a session is
  answered by a middleware, and neither the tables nor the job state nor the limiter of the
  issue routes change.
\<close>

theorem login_required:
  assumes "quiet e" and "callRoute k = Some rt" and "rt \<in> set SetupRouter"
    and "rHandler rt \<notin> {HHealth, HRegister, HLogin, HLogout}" and "callSession k = None"
  shows "case run_state (serve e lib b k g) w of ((answer, g'), w') \<Rightarrow>
    snd answer \<in> {Some (Json RespondNeedLogin, SessionKept), Some (BareStatus StatusNoContent, SessionKept),
      Some (JsonField StatusTooManyRequests ''error'' ''Rate limit exceeded, please try again later'',
            SessionKept)}
    \<and> issueLimiter g' = issueLimiter g \<and> w' = w\<lparr>tick := tick w'\<rparr>"
proof -
  have "rAuth rt"
    using assms(3,4) by (auto simp: SetupRouter_def publicRoute_def protectedRoute_def limitedRoute_def)
  then have route: "serveRoute e lib b k rt g' = State_Monad.return (Some (Json RespondNeedLogin, SessionKept), g')"
    for g' :: "'a gateway"
    using assms(5) by (simp add: serveRoute_def AuthMiddleware_def)
  have now: "run_state (Now e) w = (clock w, w\<lparr>tick := Suc (tick w)\<rparr>)"
    using assms(1) by (simp add: Now_def run_simps settle_def quiet_def)
  obtain stop l where limit: "RateLimitMiddleware lib (clock w) (callIP k) (ipLimiter g) = (stop, l)"
    by fastforce
  obtain headers cors where cors: "CORSMiddleware (osenv e) (cfg e) (callOrigin k) (callMethod k) = (headers, cors)"
    by fastforce
  have "stop \<in> {None, Some (JsonField StatusTooManyRequests ''error''
      ''Rate limit exceeded, please try again later'')}"
    using limit by (auto simp: RateLimitMiddleware_def split: option.splits prod.splits bool.splits)
  moreover have "cors \<in> {None, Some (BareStatus StatusNoContent)}"
    using cors by (auto simp: CORSMiddleware_def split: if_splits)
  ultimately show ?thesis
    using assms(2) by (auto simp: serve_def Let_def now limit cors route)
qed

theorem login_required_witness:
  "snd (fst (fst (run_state (serve idleEnv sampleLib sampleBindings (sampleCall None deleteRoute) noLimits)
     (sampleWorld ''active'' [sampleCert] [])))) \<noteq> None"
proof -
  have "deleteRoute \<in> set SetupRouter" "rHandler deleteRoute \<notin> {HHealth, HRegister, HLogin, HLogout}"
    by (simp_all add: SetupRouter_def deleteRoute_def protectedRoute_def)
  moreover have "quiet idleEnv" using calm_idleEnv by (simp add: calm_def)
  ultimately show ?thesis
    using login_required [where e = idleEnv and k = "sampleCall None deleteRoute" and rt = deleteRoute
        and lib = sampleLib and b = sampleBindings and g = noLimits
        and w = "sampleWorld ''active'' [sampleCert] []"]
    by (auto split: prod.splits)
qed

end
