(* ===== verification/Middleware_Props.thy ===== *)
theory Middleware_Props
  imports Api_Props
begin

text \<open>
  Properties of the middlewares: the bounds of a limiter, the independence of its keys, what the
  eviction of idle keys does to a limit, and the origins CORS lets in.
\<close>

section \<open>Limiters\<close>

text \<open>
  A limiter always has a usable burst: at least one request, never more than the
  requests of its window, whatever the configuration says; the limit on issuing certificates
  additionally never lets more than three through at once.
\<close>

theorem limiter_bounds:
  "let l = (newKeyedRateLimiter requests window burst :: 'l keyedRateLimiter) in
     1 \<le> burstSize l \<and> int (burstSize l) \<le> max 1 requests
     \<and> burstSize (newKeyedRateLimiter requests certIssueRateWindow (certIssueBurst requests) :: 'l keyedRateLimiter) \<le> 3"
  by (auto simp: newKeyedRateLimiter_def Let_def certIssueBurst_def Suc_le_eq)

text \<open>What a limiter sees: a request of a key, or a tick of the cleanup.\<close>

datatype limitEvent = Ask time string | Cleanup time

fun eventKey :: "limitEvent \<Rightarrow> string option" where
  "eventKey (Ask t key) = Some key"
| "eventKey (Cleanup t) = None"

fun decide :: "'l bucketLib \<Rightarrow> limitEvent list \<Rightarrow> 'l keyedRateLimiter \<Rightarrow> (string \<times> bool) list" where
  "decide lib [] l = []"
| "decide lib (Ask t key # es) l =
     (case allow lib t key l of (ok, l') \<Rightarrow> (key, ok) # decide lib es l')"
| "decide lib (Cleanup t # es) l = decide lib es (cleanupTick t l)"

text \<open>Two limiters that agree on one key.\<close>

definition agree :: "string \<Rightarrow> 'l keyedRateLimiter \<Rightarrow> 'l keyedRateLimiter \<Rightarrow> bool" where
  "agree key l m \<longleftrightarrow> Mapping.lookup (entries l) key = Mapping.lookup (entries m) key
     \<and> refill l = refill m \<and> burstSize l = burstSize m"

lemma agree_refl [simp]: "agree key l l"
  by (simp add: agree_def)

lemma agree_other: "agree key l m \<Longrightarrow> key' \<noteq> key \<Longrightarrow> agree key (snd (allow lib t key' l)) m"
  by (simp add: agree_def allow_def Let_def lookup_update' split: prod.split)

lemma agree_same:
  assumes "agree key l m"
  shows "fst (allow lib t key l) = fst (allow lib t key m)"
    and "agree key (snd (allow lib t key l)) (snd (allow lib t key m))"
proof -
  have "limiterFor lib t key l = limiterFor lib t key m"
    using assms by (auto simp: limiterFor_def agree_def split: option.split)
  then show "fst (allow lib t key l) = fst (allow lib t key m)"
    "agree key (snd (allow lib t key l)) (snd (allow lib t key m))"
    using assms by (simp_all add: agree_def allow_def Let_def lookup_update split: prod.split)
qed

lemma lookup_cleanup:
  "Mapping.lookup (entries (cleanupTick now l)) key =
     (case Mapping.lookup (entries l) key of
        None \<Rightarrow> None
      | Some en \<Rightarrow> if Before (lastSeen en) (now - limiterIdleTTL) then None else Some en)"
  by (simp add: cleanupTick_def evictStale_def lookup_filter split: option.split)

lemma agree_cleanup: "agree key l m \<Longrightarrow> agree key (cleanupTick t l) (cleanupTick t m)"
  unfolding agree_def lookup_cleanup by (simp add: cleanupTick_def evictStale_def)

lemma decide_agree:
  assumes "agree key l m"
  shows "filter (\<lambda>d. fst d = key) (decide lib es l) =
     decide lib (filter (\<lambda>ev. eventKey ev \<in> {None, Some key}) es) m"
  using assms
proof (induction es arbitrary: l m)
  case (Cons ev es)
  show ?case
  proof (cases ev)
    case (Ask t key')
    obtain ok l' where l': "allow lib t key' l = (ok, l')" by fastforce
    obtain ok' m' where m': "allow lib t key' m = (ok', m')" by fastforce
    show ?thesis
    proof (cases "key' = key")
      case True
      then show ?thesis
        using Ask Cons l' m' agree_same [OF Cons.prems, of lib t] by simp
    next
      case False
      then show ?thesis using Ask Cons l' agree_other [OF Cons.prems False, of lib t] by simp
    qed
  next
    case (Cleanup t)
    then show ?thesis using Cons.IH [OF agree_cleanup [OF Cons.prems]] by simp
  qed
qed simp

text \<open>
  A key pays only for its own requests: in every sequence of requests and cleanups
  the decisions for one key are those it would get if the requests of all other keys had never
  been made, so no client can use up another's limit.
\<close>

theorem keys_independent:
  "filter (\<lambda>d. fst d = key) (decide lib es l) =
     decide lib (filter (\<lambda>ev. eventKey ev \<in> {None, Some key}) es) l"
  by (rule decide_agree [OF agree_refl])

section \<open>Eviction\<close>

text \<open>The decisions for one key at the times \<open>ts\<close>, and what the library promises of a fresh bucket.\<close>

fun asks :: "'l bucketLib \<Rightarrow> string \<Rightarrow> time list \<Rightarrow> 'l keyedRateLimiter \<Rightarrow> bool list" where
  "asks lib key [] l = []"
| "asks lib key (t # ts) l = (case allow lib t key l of (ok, l') \<Rightarrow> ok # asks lib key ts l')"

fun grants :: "'l bucketLib \<Rightarrow> time list \<Rightarrow> 'l \<Rightarrow> bool list" where
  "grants lib [] b = []"
| "grants lib (t # ts) b = (case bucketAllow lib t b of (ok, b') \<Rightarrow> ok # grants lib ts b')"

definition burst_law :: "'l bucketLib \<Rightarrow> bool" where
  "burst_law lib \<longleftrightarrow>
     (\<forall>r n ts. sorted ts \<longrightarrow> length ts \<le> n \<longrightarrow> (\<forall>iv. r = Some iv \<longrightarrow> 0 < iv) \<longrightarrow>
        grants lib ts (newBucket lib r n) = replicate (length ts) True)"

lemma asks_grants: "asks lib key ts l = grants lib ts (limiterFor lib t key l)"
proof (induction ts arbitrary: l)
  case (Cons t' ts)
  obtain ok b where ba: "bucketAllow lib t' (limiterFor lib t key l) = (ok, b)" by fastforce
  have same: "limiterFor lib t' key l = limiterFor lib t key l" by (simp add: limiterFor_def)
  have "limiterFor lib t key (snd (allow lib t' key l)) = b"
    using ba by (simp add: allow_def same limiterFor_def lookup_update Let_def)
  then show ?case using ba Cons [of "snd (allow lib t' key l)"]
    by (simp add: allow_def same Let_def split: prod.split)
qed simp

text \<open>
  Property C33. Evicting an idle key forgets what it has used: once ten minutes have passed since
  its last request, refused or not, the next cleanup lets the key start again with a full
  bucket, although the window of the limit on issuing certificates is an hour.
\<close>

theorem eviction_refills:
  assumes "burst_law lib" and "Mapping.lookup (entries l) key = Some en"
    and "lastSeen en < now - limiterIdleTTL" and "\<forall>iv. refill l = Some iv \<longrightarrow> 0 < iv" and "sorted ts" and "length ts \<le> burstSize l"
  shows "asks lib key ts (cleanupTick now l) = replicate (length ts) True"
proof -
  have "Mapping.lookup (entries (cleanupTick now l)) key = None"
    using assms(2,3) by (simp add: lookup_cleanup Before_def)
  then have "limiterFor lib now key (cleanupTick now l) = newBucket lib (refill l) (burstSize l)"
    by (simp add: limiterFor_def cleanupTick_def evictStale_def)
  then show ?thesis
    using assms(1,4,5,6) unfolding asks_grants [where t = now] burst_law_def by simp
qed

text \<open>A token bucket: the credit grows with time up to the burst, a request costs one interval.\<close>

record bucket =
  interval :: "duration option"
  capacity :: nat
  credit :: duration
  touched :: "time option"

definition tokenBucket :: "bucket bucketLib" where
  "tokenBucket =
     \<lparr>newBucket = (\<lambda>r n. \<lparr>interval = r, capacity = n, credit = (case r of None \<Rightarrow> 0 | Some iv \<Rightarrow> int n * iv),
                         touched = None\<rparr>),
      bucketAllow = (\<lambda>t b. case interval b of
          None \<Rightarrow> (True, b)
        | Some iv \<Rightarrow>
            (let c = min (int (capacity b) * iv)
                       (credit b + (case touched b of None \<Rightarrow> 0 | Some t0 \<Rightarrow> t - t0));
                 ok = (iv \<le> c)
             in (ok, b\<lparr>credit := (if ok then c - iv else c), touched := Some t\<rparr>)))\<rparr>"

lemma tokenBucket_grants:
  assumes "interval b = Some iv" and "0 < iv" and "int (length ts) * iv \<le> credit b"
    and "credit b \<le> int (capacity b) * iv" and "sorted ts"
    and "\<And>t0. touched b = Some t0 \<Longrightarrow> \<forall>t \<in> set ts. t0 \<le> t"
  shows "grants tokenBucket ts b = replicate (length ts) True"
  using assms
proof (induction ts arbitrary: b)
  case (Cons t ts)
  let ?c = "min (int (capacity b) * iv) (credit b + (case touched b of None \<Rightarrow> 0 | Some t0 \<Rightarrow> t - t0))"
  let ?b = "b\<lparr>credit := ?c - iv, touched := Some t\<rparr>"
  have "0 \<le> (case touched b of None \<Rightarrow> 0 | Some t0 \<Rightarrow> t - t0)"
    using Cons.prems(6) by (auto split: option.split)
  then have c: "int (length ts) * iv + iv \<le> ?c"
    using Cons.prems(3,4) by (auto simp: distrib_right)
  moreover have "iv \<le> ?c" using c Cons.prems(2) by (smt (verit) mult_nonneg_nonneg of_nat_0_le_iff)
  ultimately have step: "bucketAllow tokenBucket t b = (True, ?b)"
    using Cons.prems(1) by (simp add: tokenBucket_def Let_def)
  have "grants tokenBucket ts ?b = replicate (length ts) True"
    by (rule Cons.IH) (use Cons.prems c in auto)
  then show ?case using step by simp
qed simp

lemma tokenBucket_free: "interval b = None \<Longrightarrow> grants tokenBucket ts b = replicate (length ts) True"
  by (induction ts arbitrary: b) (auto simp: tokenBucket_def)

lemma newBucket_tokenBucket:
  "newBucket tokenBucket r n =
     \<lparr>interval = r, capacity = n, credit = (case r of None \<Rightarrow> 0 | Some iv \<Rightarrow> int n * iv), touched = None\<rparr>"
  by (simp add: tokenBucket_def)

lemma burst_tokenBucket: "burst_law tokenBucket"
  unfolding burst_law_def
proof (intro allI impI)
  fix r :: "duration option" and n and ts :: "time list"
  assume ts: "sorted ts" "length ts \<le> n" and r: "\<forall>iv. r = Some iv \<longrightarrow> 0 < iv"
  show "grants tokenBucket ts (newBucket tokenBucket r n) = replicate (length ts) True"
  proof (cases r)
    case None
    show ?thesis by (rule tokenBucket_free) (simp add: None newBucket_tokenBucket)
  next
    case (Some iv)
    then show ?thesis
      using ts r by (intro tokenBucket_grants [where iv = iv]) (auto simp: newBucket_tokenBucket)
  qed
qed

text \<open>Three an hour, the three of them used at once, and the cleanup eleven minutes later.\<close>

definition sampleLimiter :: "bucket keyedRateLimiter" where
  "sampleLimiter =
     (let l = newKeyedRateLimiter 3 certIssueRateWindow (certIssueBurst 3);
          once = (\<lambda>l. snd (allow tokenBucket 0 ''7'' l))
      in once (once (once l)))"

lemmas limiter_eval = sampleLimiter_def newKeyedRateLimiter_def certIssueRateWindow_def certIssueBurst_def
  allow_def limiterFor_def tokenBucket_def lookup_update lookup_empty Every_def Let_def Hour_def Minute_def
  limiterIdleTTL_def

lemma eviction_refills_witness:
  "asks tokenBucket ''7'' [1] sampleLimiter = [False]
   \<and> asks tokenBucket ''7'' [11 * Minute, 11 * Minute, 11 * Minute]
       (cleanupTick (11 * Minute) sampleLimiter) = [True, True, True]"
proof
  show "asks tokenBucket ''7'' [1] sampleLimiter = [False]"
    by (simp add: limiter_eval)
next
  let ?ts = "[11 * Minute, 11 * Minute, 11 * Minute]"
  have "asks tokenBucket ''7'' ?ts (cleanupTick (11 * Minute) sampleLimiter)
      = replicate (length ?ts) True"
  proof (rule eviction_refills [OF burst_tokenBucket])
    show "Mapping.lookup (entries sampleLimiter) ''7''
        = Some (the (Mapping.lookup (entries sampleLimiter) ''7''))"
      by (simp add: limiter_eval)
  qed (simp_all add: limiter_eval)
  then show "asks tokenBucket ''7'' ?ts (cleanupTick (11 * Minute) sampleLimiter) = [True, True, True]"
    by simp
qed

section \<open>Origins and methods\<close>

lemma allowedOrigins_listed:
  assumes "Validate os cf = Inr ()" and "\<not> IsDevMode os (Security cf)" and "originAllowed os cf origin"
  shows "origin \<in> set (AllowedOrigins (Server cf)) \<and> ''*'' \<notin> set (AllowedOrigins (Server cf))"
  using assms by (auto simp: Validate_ok validateSessionAndCORS_ok originAllowed_def list_ex_iff)

text \<open>
  With a configuration the server starts with, outside dev mode, a response allows
  credentialed cross-origin access only to an origin that is listed literally; a wildcard or an
  empty list opens nothing.
\<close>

theorem cors_listed_only:
  assumes "Validate os cf = Inr ()" and "\<not> IsDevMode os (Security cf)"
    and "(''Access-Control-Allow-Origin'', v) \<in> set (fst (CORSMiddleware os cf origin meth))"
  shows "v = origin \<and> origin \<in> set (AllowedOrigins (Server cf)) \<and> ''*'' \<notin> set (AllowedOrigins (Server cf))"
  using assms allowedOrigins_listed [OF assms(1,2)]
  by (auto simp: CORSMiddleware_def split: if_splits)

lemma cors_listed_only_witness:
  "fst (CORSMiddleware prodOs prodCfg ''https://app.test'' ''GET'') \<noteq> []
   \<and> ''https://app.test'' \<in> set (AllowedOrigins (Server prodCfg))"
proof -
  have h: "(''Access-Control-Allow-Origin'', ''https://app.test'')
      \<in> set (fst (CORSMiddleware prodOs prodCfg ''https://app.test'' ''GET''))"
    by (simp add: CORSMiddleware_def originAllowed_def prodCfg_fields)
  then have "fst (CORSMiddleware prodOs prodCfg ''https://app.test'' ''GET'') \<noteq> []" by auto
  then show ?thesis using cors_listed_only [OF prodCfg_valid prodCfg_fields(6) h] by simp
qed

text \<open>
  Every route is reachable by a preflighted cross-origin request except one: PATCH
  is not among the methods the CORS headers allow, so updating a domain is not.
\<close>

theorem cors_methods_of_routes:
  "filter (\<lambda>rt. rMethod rt \<notin> set corsMethods) SetupRouter
     = [protectedRoute ''PATCH'' ''/api/domains/:id'' HUpdateDomain]"
  by (simp add: SetupRouter_def corsMethods_def publicRoute_def protectedRoute_def limitedRoute_def)

end
