(* ===== verification/Domain_Props.thy ===== *)
theory Domain_Props
  imports Middleware_Props Cert_Worker_Props
begin

text \<open>
  Properties of the domain API: what registering a name does in each case, who may take a
  registered name over, and what deleting a domain removes.
\<close>

section \<open>Calm requests\<close>

text \<open>The reads of a request in a calm environment.\<close>

lemma run_tables_calm [run_simps]:
  assumes "calm e"
  shows "run_state (First e tbl p) w =
      (case find p (tbl (later 1 w)) of None \<Rightarrow> Inl ErrRecordNotFound | Some r \<Rightarrow> Inr r, later 1 w)"
    and "run_state (Find e tbl p) w = (Inr (filter p (tbl (later 1 w))), later 1 w)"
  using assms by (simp_all add: First_def Find_def run_simps)

lemma getDomainOwned_granted:
  assumes "calm e" and "GetUserID c = Some u" and "parseDomainID s = Some i"
    and "find (\<lambda>d. live d \<and> ownedBy i u d) (domains w) = Some d"
  shows "run_state (getDomainOwned e c s) w = (Inr d, later 1 w)"
  using assms by (simp add: getDomainOwned_def requireUserID_def FirstDomain_def run_simps)

text \<open>Reading the certificate and the clock for a response leaves the tables alone.\<close>

lemma respond_calm:
  assumes "calm e" and "run_state (respondDomain e d) w = (r, w')"
  shows "\<exists>dto n. r = RespondSuccess (Some (PDomain dto)) \<and> w' = later n w \<and> ddName dto = dDomain d
    \<and> ddStatus dto = mapDomainStatus (dStatus d) \<and> ddID dto = FormatUint (dID d)"
  using assms
  by (auto simp: respondDomain_def loadDomainDTO_def toDomainDTO_def mapCertStatus_def run_simps
      split: if_splits option.splits)

section \<open>A new name\<close>


definition addedRow :: "env \<Rightarrow> world \<Rightarrow> uint \<Rightarrow> string \<Rightarrow> DomainRow" where
  "addedRow e w u n =
     (newDomainRow u n)\<lparr>dID := Suc (domainSeq w), dCNameTarget := DelegationTarget (cfg e) (Suc (domainSeq w)),
       dCreatedAt := clock w, dUpdatedAt := clock w\<rparr>"

lemma create_calm:
  assumes "calm e" and "wf_store w" and "\<forall>d \<in> set (domains w). dDomain d \<noteq> n"
  shows "run_state (createDomainRecord e u n) w =
    (Inr (addedRow e w u n),
     (later 2 w)\<lparr>domainSeq := Suc (domainSeq w), domains := domains w @ [addedRow e w u n]\<rparr>)"
proof -
  have ids: "\<forall>d \<in> set (domains w). dID d \<noteq> Suc (domainSeq w)"
    using assms(2) by (auto simp: wf_store_def wf_domains_def)
  then have old: "map (\<lambda>d. if live d \<and> byID (Suc (domainSeq w)) d then stamp t f d else d) (domains w) = domains w" for t f
    by (intro map_idI) (simp add: byID_def)
  show ?thesis
    using assms old
    by (simp add: createDomainRecord_def CreateDomain_def run_simps Let_def list_ex_iff byName_def
        newDomainRow_def addedRow_def written_def stamp_def targetCols_def live_def byID_def later_def)
qed

section \<open>The row of a name\<close>

lemma filter_eq_member: "filter p xs = filter q xs \<Longrightarrow> x \<in> set xs \<Longrightarrow> p x = q x"
  by (metis (mono_tags, lifting) mem_Collect_eq set_filter)

lemma find_of_filter: "filter p xs = x # ys \<Longrightarrow> find p xs = Some x"
  by (induction xs) (auto split: if_splits)

lemma filter_map_same:
  "(\<And>x. p (g x) = p x) \<Longrightarrow> filter p (map (\<lambda>x. if q x then g x else x) xs) = map (\<lambda>x. if q x then g x else x) (filter p xs)"
  by (induction xs) auto

lemma wf_name_unique:
  assumes "wf_store w" and "find (byName n) (domains w) = Some d"
  shows "filter (byName n) (domains w) = [d]" and "filter (byID (dID d)) (domains w) = [d]"
    and "filter (\<lambda>x. \<not> byID (dID d) x) (domains w) = filter (\<lambda>x. \<not> byName n x) (domains w)"
proof -
  have d: "d \<in> set (domains w)" "dDomain d = n" using find_SomeD [OF assms(2)] by (auto simp: byName_def)
  have dist: "distinct (map dID (domains w))" "distinct (map dDomain (domains w))"
    using assms(1) by (auto simp: wf_store_def wf_domains_def)
  have same: "byName n x \<longleftrightarrow> x = d" "byID (dID d) x \<longleftrightarrow> x = d" if "x \<in> set (domains w)" for x
    using that d dist by (auto simp: byName_def byID_def dest: eq_key_imp_eq_value inj_onD simp: distinct_map)
  show "filter (byName n) (domains w) = [d]" and "filter (byID (dID d)) (domains w) = [d]"
    using d(1) dist by (simp_all add: same filter_single distinct_map cong: filter_cong)
  show "filter (\<lambda>x. \<not> byID (dID d) x) (domains w) = filter (\<lambda>x. \<not> byName n x) (domains w)"
    by (rule filter_cong) (simp_all add: same)
qed

section \<open>Registering a name\<close>

text \<open>
  The caller owns the only row of the name, pending, and the rows of other names are as they were;
  the delegation target is the one of the row's id, unless it is an old row of the caller.
\<close>

definition registered :: "env \<Rightarrow> uint \<Rightarrow> string \<Rightarrow> world \<Rightarrow> payload response \<Rightarrow> world \<Rightarrow> bool" where
  "registered e u n w r w' \<longleftrightarrow>
     (\<exists>d dto. r = RespondSuccess (Some (PDomain dto)) \<and> ddName dto = n \<and> ddStatus dto = ''pending''
        \<and> filter (byName n) (domains w') = [d] \<and> live d \<and> dUserID d = u \<and> dStatus d = ''pending''
        \<and> dAutoRenew d \<and> dErrorMessage d = [] \<and> dGeneratingSince d = None
        \<and> ((\<forall>d0 \<in> set (domains w). dDomain d0 = n \<longrightarrow> dUserID d0 \<noteq> u) \<longrightarrow>
             dCNameTarget d = DelegationTarget (cfg e) (dID d))
        \<and> filter (\<lambda>x. \<not> byName n x) (domains w') = filter (\<lambda>x. \<not> byName n x) (domains w))"

lemma pending_shown: "mapDomainStatus ''pending'' = ''pending''"
  by (simp add: mapDomainStatus_def)

lemma new_registers:
  assumes "calm e" and "wf_store w" and "\<forall>d \<in> set (domains w). dDomain d \<noteq> n"
    and "run_state (addNew e u n) w = (r, w')"
  shows "registered e u n w r w'"
proof -
  let ?row = "addedRow e w u n"
  let ?w = "(later 2 w)\<lparr>domainSeq := Suc (domainSeq w), domains := domains w @ [?row]\<rparr>"
  have row: "dDomain ?row = n" "dStatus ?row = ''pending''" "dUserID ?row = u" "live ?row" "dAutoRenew ?row"
    "dErrorMessage ?row = []" "dGeneratingSince ?row = None"
    "dCNameTarget ?row = DelegationTarget (cfg e) (dID ?row)"
    by (simp_all add: addedRow_def newDomainRow_def live_def)
  have "run_state (respondDomain e ?row) ?w = (r, w')"
    using assms(4) create_calm [OF assms(1-3)] by (simp add: addNew_def)
  then obtain dto k where dto: "r = RespondSuccess (Some (PDomain dto))" "w' = later k ?w"
      "ddName dto = n" "ddStatus dto = ''pending''"
    using respond_calm [OF assms(1)] row pending_shown by metis
  moreover have "filter (byName n) (domains w) = []" "filter (\<lambda>x. \<not> byName n x) (domains w) = domains w"
    using assms(3) by (auto simp: byName_def filter_empty_conv filter_id_conv)
  ultimately show ?thesis
    unfolding registered_def using row by (intro exI [of _ ?row] exI [of _ dto]) (simp add: byName_def)
qed

lemma remove_calm:
  assumes "calm e"
  shows "\<exists>n v. run_state (permanentlyRemoveDomain e i) w = (Inr n, v)
    \<and> domains v = filter (\<lambda>d. \<not> byID i d) (domains w) \<and> domainSeq v = domainSeq w
    \<and> certs v = filter (\<lambda>c. \<not> certOfDomain i c) (certs w) \<and> certSeq v = certSeq w"
  using assms
  by (simp add: permanentlyRemoveDomain_def deleteDependents_def DeleteRows_def run_simps)

lemma removed_registers:
  assumes "calm e" and "wf_store w" and "find (byName n) (domains w) = Some d" and "dUserID d \<noteq> u"
    and "\<not> live d" and "run_state (addNamed e u n) w = (r, w')"
  shows "registered e u n w r w'"
proof -
  obtain k v where rm: "run_state (permanentlyRemoveDomain e (dID d)) (later 1 w) = (Inr k, v)"
      and v: "domains v = filter (\<lambda>x. \<not> byID (dID d) x) (domains w)" "domainSeq v = domainSeq w"
        "certs v = filter (\<lambda>c. \<not> certOfDomain (dID d) c) (certs w)" "certSeq v = certSeq w"
    using remove_calm [OF assms(1), of "dID d" "later 1 w"]
    by (auto simp: later_def)
  have dv: "domains v = filter (\<lambda>x. \<not> byName n x) (domains w)"
    using v(1) wf_name_unique(3) [OF assms(2,3)] by simp
  have wf: "wf_store v"
    using assms(2) v by (simp add: wf_store_def wf_domains_filter wf_certs_filter)
  have "run_state (addNew e u n) v = (r, w')"
    using assms(1,3-6) rm by (simp add: addNamed_def run_simps)
  moreover have "\<forall>x \<in> set (domains v). dDomain x \<noteq> n" by (simp add: dv byName_def)
  ultimately have reg: "registered e u n v r w'" by (intro new_registers [OF assms(1) wf])
  have "filter (\<lambda>x. \<not> byName n x) (domains v) = filter (\<lambda>x. \<not> byName n x) (domains w)"
    by (simp add: dv)
  moreover have "\<forall>x \<in> set (domains v). dDomain x = n \<longrightarrow> dUserID x \<noteq> u" by (simp add: dv byName_def)
  ultimately show ?thesis using reg unfolding registered_def by metis
qed

lemma restored_registers:
  assumes "calm e" and "wf_store w" and "find (byName n) (domains w) = Some d" and "dUserID d = u"
    and "\<not> live d" and "run_state (addNamed e u n) w = (r, w')"
  shows "registered e u n w r w'"
proof -
  let ?f = "\<lambda>x. (restoreCols x)\<lparr>dUpdatedAt := clock w\<rparr>"
  let ?v = "(later 2 w)\<lparr>domains := map (\<lambda>x. if byID (dID d) x then ?f x else x) (domains w)\<rparr>"
  have name: "dDomain d = n" "d \<in> set (domains w)" using find_SomeD [OF assms(3)] by (auto simp: byName_def)
  have f: "dDomain (?f x) = dDomain x" "dID (?f x) = dID x" for x by (simp_all add: restoreCols_def)
  have row: "dStatus (?f d) = ''pending''" "dUserID (?f d) = u" "live (?f d)" "dAutoRenew (?f d)"
    "dErrorMessage (?f d) = []" "dGeneratingSince (?f d) = None"
    using assms(4) by (simp_all add: restoreCols_def live_def)
  have fnd: "find (byID (dID d)) (domains ?v) = Some (?f d)"
    using wf_name_unique(2) [OF assms(2,3)]
    by (intro find_of_filter) (simp add: filter_map_same byID_def f)
  have restore: "run_state (restoreDeletedDomain e d) (later 1 w)
      = (Inr (length (filter (byID (dID d)) (domains w))), ?v)"
    using assms(1) by (simp add: restoreDeletedDomain_def Updates_def run_simps cong: if_cong) (simp add: later_def)
  have load: "run_state (First e domains (byID (dID d))) ?v = (Inr (?f d), later 1 ?v)"
    using assms(1) by (simp only: run_tables_calm later_fields fnd option.case)
  have "run_state (addRestored e d) (later 1 w) = (r, w')"
    using assms(1,3-6) by (simp add: addNamed_def run_simps)
  then have "run_state (respondDomain e (?f d)) (later 1 ?v) = (r, w')"
    by (simp only: addRestored_def run_state_bind restore load sum.case prod.case)
  then obtain dto k where dto: "r = RespondSuccess (Some (PDomain dto))" "w' = later k (later 1 ?v)"
      "ddName dto = dDomain (?f d)" "ddStatus dto = mapDomainStatus (dStatus (?f d))"
    using respond_calm [OF assms(1)] by blast
  have shown: "ddName dto = n" "ddStatus dto = ''pending''"
    by (simp_all only: dto f name row pending_shown)
  have dw: "domains w' = domains ?v" by (simp only: dto later_fields)
  have own: "filter (byName n) (domains ?v) = [?f d]"
    using wf_name_unique(1) [OF assms(2,3)] by (simp add: filter_map_same byName_def f byID_def)
  have "\<not> byID (dID d) x" if "x \<in> set (domains w)" "\<not> byName n x" for x
    using that wf_name_unique(3) [OF assms(2,3)] by (auto dest: filter_eq_member)
  then have other: "filter (\<lambda>x. \<not> byName n x) (domains ?v) = filter (\<lambda>x. \<not> byName n x) (domains w)"
    by (simp add: filter_map_same byName_def f) (auto intro!: map_idI simp: byName_def)
  have target: "(\<forall>d0 \<in> set (domains w). dDomain d0 = n \<longrightarrow> dUserID d0 \<noteq> u) \<longrightarrow>
      dCNameTarget (?f d) = DelegationTarget (cfg e) (dID (?f d))"
    using name assms(4) by blast
  show ?thesis
    unfolding registered_def dw
    by (rule exI [of _ "?f d"], rule exI [of _ dto]) (intro conjI dto shown row own other target)
qed


text \<open>
  Property C25. Registering a free name (no interference, no faults): when no live row has the
  name, the request succeeds and afterwards exactly one row has it, live, pending and the
  caller's, whatever was stored under the name before; its delegation target is the one made
  from its own id unless the row was the caller's own deleted one; the rows of all other names
  are untouched.
\<close>

theorem add_domain_registers:
  assumes "calm e" and "wf_store w" and "body c = Inr input" and "GetUserID c = Some u"
    and "domainNameFromInput e input = Inr n"
    and "\<forall>d \<in> set (domains w). dDomain d = n \<longrightarrow> \<not> live d"
    and "run_state (AddDomain e c) w = (r, w')"
  shows "registered e u n w r w'"
proof -
  have run: "run_state (addNamed e u n) w = (r, w')"
    using assms(3-5,7) by (simp add: AddDomain_def requireUserID_def)
  show ?thesis
  proof (cases "find (byName n) (domains w)")
    case None
    then have free: "\<forall>d \<in> set (domains w). dDomain d \<noteq> n" by (simp add: find_None_iff byName_def)
    then have "run_state (addNew e u n) (later 1 w) = (r, w')"
      using run assms(1) None by (simp add: addNamed_def run_simps)
    then have "registered e u n (later 1 w) r w'"
      using free assms(2) by (intro new_registers [OF assms(1)]) (simp_all add: wf_store_def)
    then show ?thesis by (simp add: registered_def)
  next
    case (Some d)
    moreover have "\<not> live d" using find_SomeD [OF Some] assms(6) by (simp add: byName_def)
    ultimately show ?thesis
      using removed_registers restored_registers assms(1,2) run by metis
  qed
qed

text \<open>A name another user once had: its row and its certificate go, and the caller gets a new row.\<close>

definition addRequest :: "DomainInput request" where
  "addRequest = \<lparr>ctxUserID = Some (UintVal 8), pathID = [], pathTargetID = [], pathJobID = [],
     query = (\<lambda>_. None), body = Inr \<lparr>inName = ''Example.com'', inDomain = []\<rparr>\<rparr>"

definition deletedWorld :: world where
  "deletedWorld = (sampleWorld ''active'' [sampleCert] [])
     \<lparr>domains := [(sampleDomain ''active'')\<lparr>dDeletedAt := Some (45 * Day)\<rparr>]\<rparr>"

lemma exampleName: "domainNameFromInput idleEnv \<lparr>inName = ''Example.com'', inDomain = []\<rparr> = Inr ''example.com''"
proof -
  let ?nm = "namesOf idleEnv"
  have f: "valid_fqdn ''example.com''" by code_simp
  have "length (Split ''example.com'' (CHR ''.'')) = 2" by code_simp
  then have p: "\<not> ParseIP ?nm ''example.com''" by (simp add: ParseIP_def isIPv4_def Let_def)
  have "tables ?nm = asciiOnly" by (simp add: namesOf_def prodOs_def)
  moreover have "NormalizeDomain asciiOnly ''Example.com'' = ''example.com''" by code_simp
  ultimately have "NormalizeDomain (tables ?nm) ''Example.com'' = NormalizeDomain (tables ?nm) ''example.com''"
    by (simp add: NormalizeDomain_fqdn f)
  then have "ValidateDomainName ?nm ''Example.com'' = ValidateDomainName ?nm ''example.com''"
    by (simp only: ValidateDomainName_def)
  also have "\<dots> = Inr ''example.com''"
    by (rule ValidateDomainName_stable [OF f p]) (simp add: namesOf_def)
  finally show ?thesis by (simp add: domainNameFromInput_def)
qed

lemma add_domain_registers_witness:
  "registered idleEnv 8 ''example.com'' deletedWorld
     (fst (run_state (AddDomain idleEnv addRequest) deletedWorld))
     (snd (run_state (AddDomain idleEnv addRequest) deletedWorld))"
proof (rule add_domain_registers [OF calm_idleEnv])
  show "wf_store deletedWorld"
    by (simp add: deletedWorld_def wf_store_def wf_domains_def wf_certs_def status_ok_def statuses_def)
  show "body addRequest = Inr \<lparr>inName = ''Example.com'', inDomain = []\<rparr>" and "GetUserID addRequest = Some 8"
    by (simp_all add: addRequest_def GetUserID_def)
qed (simp_all add: exampleName deletedWorld_def live_def)

section \<open>Taking a registered name over\<close>

text \<open>The rows another user may claim, read off the row and the certificates.\<close>

definition unclaimed :: "env \<Rightarrow> world \<Rightarrow> DomainRow \<Rightarrow> bool" where
  "unclaimed e w d \<longleftrightarrow> \<not> hasCertRow (dID d) w
     \<and> (dStatus d = ''pending''
        \<or> dStatus d = ''error'' \<and> (dCnameVerifiedAt d = None
             \<or> clock w - dUpdatedAt d \<ge> UnclaimedErrorReleaseDuration (DomainCfg (cfg e))))"

lemma run_unclaimed_calm:
  assumes "calm e"
  shows "\<exists>k. run_state (isUnclaimedDomain e d) w = (unclaimed e w d, later k w)"
  using assms by (auto simp: isUnclaimedDomain_def unclaimed_def run_simps)

lemma unclaimed_later [simp]: "unclaimed e (later k w) d = unclaimed e w d"
  by (simp add: unclaimed_def)

lemma name_row:
  assumes "wf_store w" and "find (byName n) (domains w) = Some d" and "live d"
  shows "rowOf (dID d) w = Some d"
proof -
  have "filter (\<lambda>x. live x \<and> byID (dID d) x) (domains w) = filter live (filter (byID (dID d)) (domains w))"
    by (simp add: conj_commute)
  also have "\<dots> = [d]" using wf_name_unique(2) [OF assms(1,2)] assms(3) by simp
  finally show ?thesis unfolding rowOf_def by (rule find_of_filter)
qed

lemma claimable_eq: "claimable i = (\<lambda>d. byID i d \<and> dStatus d \<in> {''pending'', ''error''})"
  by (simp add: claimable_def byID_def fun_eq_iff)

lemma assign_calm:
  assumes "calm e" and "wf_store w" and "rowOf i w = Some d" and "\<not> hasCertRow i w"
    and "dStatus d \<in> {''pending'', ''error''}"
  shows "\<exists>d' v. run_state (assignUnclaimedDomainToUser e i u) w = (Inr d', v) \<and> rowOf i v = Some d'
    \<and> dUserID d' = u \<and> dStatus d' = ''verified'' \<and> dDomain d' = dDomain d \<and> dCNameTarget d' = dCNameTarget d
    \<and> certs v = certs w \<and> (\<forall>j. j \<noteq> i \<longrightarrow> rowOf j v = rowOf j w)"
proof -
  let ?f = "claimCols u (clock w)"
  let ?v = "written ?f i (later (Suc (Suc (Suc 0))) w)"
  have id: "dID d = i" using assms(3) by (auto dest: rowOf_id)
  have "wf_store (later k w)" for k using assms(2) by (simp add: wf_store_def)
  then have "run_state (UpdatesDomain e (claimable i) ?f) (later (Suc (Suc 0)) w) = (Inr 1, ?v)"
    using claimUpd.run_guarded_calm [OF assms(1), of "later (Suc (Suc 0)) w" i d
        "\<lambda>d. dStatus d \<in> {''pending'', ''error''}" u "clock w"] assms(3,5)
    by (auto simp: claimable_eq)
  moreover have "rowOf i ?v = Some (stamp (clock w) ?f d)"
    using assms(3) by (simp add: claimUpd.rowOf_written)
  ultimately have "run_state (assignUnclaimedDomainToUser e i u) w
      = (Inr (stamp (clock w) ?f d), later 1 ?v)"
    using assms(1,4) id by (simp add: assignUnclaimedDomainToUser_def run_simps numeral_2_eq_2)
  then show ?thesis
    using \<open>rowOf i ?v = _\<close> by (simp add: stamp_def claimCols_def claimUpd.rowOf_written)
qed

lemma run_Verify_calm:
  assumes "calm e"
  shows "\<exists>v. run_state (VerifyChallengeCNAME e n t) w = (v, later 1 w)
    \<and> (v = Inr () \<longleftrightarrow> cnameOK e (Suc (tick w)) n t)"
  using Verify_ok [of e n t w] Verify_state [of e n t w] assms
  by (metis One_nat_def prod.collapse settle_calm)

text \<open>A row without a target gets one, which stays even when the claim is refused then.\<close>

definition claimTarget :: "env \<Rightarrow> DomainRow \<Rightarrow> string" where
  "claimTarget e d = (if dCNameTarget d = [] then DelegationTarget (cfg e) (dID d) else dCNameTarget d)"

definition targeted :: "env \<Rightarrow> DomainRow \<Rightarrow> world \<Rightarrow> world" where
  "targeted e d w =
     (if dCNameTarget d = []
      then w\<lparr>domains := map (\<lambda>x. if live x \<and> dID x = dID d
             then x\<lparr>dCNameTarget := claimTarget e d, dUpdatedAt := clock w\<rparr> else x) (domains w)\<rparr>
      else w)"

lemma targeted_written:
  "targeted e d w = (if dCNameTarget d = [] then written (targetCols (claimTarget e d)) (dID d) w else w)"
  by (simp add: targeted_def written_def stamp_def targetCols_def byID_def)

abbreviation chooseTarget :: "env \<Rightarrow> DomainRow \<Rightarrow> (world, err + string) state" where
  "chooseTarget e d \<equiv>
     (if dCNameTarget d = []
      then let target = DelegationTarget (cfg e) (dID d) in
        State_Monad.bind (UpdatesDomain e (byID (dID d)) (targetCols target))
          (\<lambda>r. State_Monad.return (map_sum (\<lambda>x. x) (\<lambda>_. target) r))
      else State_Monad.return (Inr (dCNameTarget d)))"

lemma run_target:
  assumes "calm e" and "rowOf (dID d) w = Some d" and "wf_store w"
  obtains k where "run_state (chooseTarget e d) w = (Inr (claimTarget e d), later k (targeted e d w))"
    and "wf_store (later k (targeted e d w))" and "certs (targeted e d w) = certs w"
    and "\<exists>d0. rowOf (dID d) (targeted e d w) = Some d0 \<and> dDomain d0 = dDomain d \<and> dStatus d0 = dStatus d
      \<and> dCNameTarget d0 = claimTarget e d"
    and "\<And>j. j \<noteq> dID d \<Longrightarrow> rowOf j (targeted e d w) = rowOf j w"
proof (cases "dCNameTarget d = []")
  case True
  let ?u = "UpdatesDomain e (byID (dID d)) (targetCols (claimTarget e d))"
  have run: "run_state ?u w = (Inr (affected (dID d) w), later 1 (targeted e d w))"
    using assms(1) True by (simp add: run_simps targeted_written written_def later_def)
  have "stable e wf_store" by (rule stable_calm_env [OF assms(1)]) (simp add: wf_store_def)
  then have "wf_store (later 1 (targeted e d w))"
    using keepsD [OF targetUpd.updates_keeps_wf assms(3)] run by (metis snd_conv)
  then show thesis
    using True assms(2) run
    by (intro that [of 1])
      (simp_all add: targeted_written targetUpd.rowOf_written stamp_def targetCols_def claimTarget_def Let_def)
next
  case False
  then show thesis
    using assms by (intro that [of 0]) (simp_all add: targeted_written claimTarget_def later_def)
qed

lemma claim_calm:
  assumes "calm e" and "wf_store w" and "rowOf (dID d) w = Some d" and "unclaimed e w d"
    and "\<And>k. cnameOK e k (dDomain d) (claimTarget e d) = ok"
    and "run_state (claimUnclaimedDomain e d u) w = (r, w')"
  shows "if ok then \<exists>d'. r = Inr d' \<and> rowOf (dID d) w' = Some d' \<and> dUserID d' = u
      \<and> dStatus d' = ''verified'' \<and> dDomain d' = dDomain d \<and> dCNameTarget d' = claimTarget e d
      \<and> certs w' = certs w \<and> (\<forall>j. j \<noteq> dID d \<longrightarrow> rowOf j w' = rowOf j w)
    else \<exists>msg k. r = Inl (Extend errDomainClaimCNAME msg) \<and> w' = later k (targeted e d w)"
proof -
  obtain k d0 where t: "run_state (chooseTarget e d) w = (Inr (claimTarget e d), later k (targeted e d w))"
      and wf: "wf_store (later k (targeted e d w))" and same: "certs (targeted e d w) = certs w"
        "\<And>j. j \<noteq> dID d \<Longrightarrow> rowOf j (targeted e d w) = rowOf j w"
      and d0: "rowOf (dID d) (targeted e d w) = Some d0" "dDomain d0 = dDomain d" "dStatus d0 = dStatus d"
        "dCNameTarget d0 = claimTarget e d"
    using run_target [OF assms(1,3,2)] by metis
  let ?v = "later k (targeted e d w)"
  obtain v where v: "run_state (VerifyChallengeCNAME e (dDomain d) (claimTarget e d)) ?v = (v, later 1 ?v)"
      "v = Inr () \<longleftrightarrow> ok"
    using run_Verify_calm [OF assms(1)] assms(5) by metis
  note run = assms(6) [unfolded claimUnclaimedDomain_def run_checked t prod.case sum.case run_state_bind v(1)]
  show ?thesis
  proof (cases v)
    case (Inl err)
    then have "\<exists>msg. r = Inl (Extend errDomainClaimCNAME msg) \<and> w' = later 1 ?v"
      using run by auto
    moreover have "\<not> ok" using v(2) Inl by auto
    ultimately show ?thesis by auto
  next
    case (Inr x)
    then have assign: "run_state (assignUnclaimedDomainToUser e (dID d) u) (later 1 ?v) = (r, w')"
      using run by simp
    have "wf_store (later 1 ?v)" using wf by (simp add: wf_store_def)
    from assign_calm [OF assms(1) this, of "dID d" d0 u] show ?thesis
      using assign v(2) Inr same d0 hasCertRow_same [OF same(1), of "dID d"] assms(4)
      by (auto simp: unclaimed_def)
  qed
qed

text \<open>
  Property C26. Who may take over a registered name (no interference, no faults, a resolver whose answer does
  not change during the request): a name another user holds passes to the caller exactly when it has no
  certificate, its status is pending, or error with a delegation that was never verified or with the
  release time over since the last change of the row, and the delegation record is in place; it is then
  verified under its old target (one is made for a row without), and no certificate and no other row
  changes. In every other case the request is refused and no certificate and no row changes, except that a
  claimable row without a target keeps the one made for it.
\<close>

theorem claim_outcome:
  assumes "calm e" and "wf_store w" and "body c = Inr input" and "GetUserID c = Some u"
    and "domainNameFromInput e input = Inr n" and "find (byName n) (domains w) = Some d" and "live d"
    and "dUserID d \<noteq> u" and "\<And>k. cnameOK e k n (claimTarget e d) = ok"
    and "run_state (AddDomain e c) w = (r, w')"
  shows "certs w' = certs w
    \<and> (if \<not> hasCertRow (dID d) w
          \<and> (dStatus d = ''pending''
             \<or> dStatus d = ''error'' \<and> (dCnameVerifiedAt d = None
                  \<or> UnclaimedErrorReleaseDuration (DomainCfg (cfg e)) \<le> clock w - dUpdatedAt d))
          \<and> ok
       then succeeded r \<and> (\<exists>d'. rowOf (dID d) w' = Some d' \<and> dUserID d' = u \<and> dStatus d' = ''verified''
               \<and> dDomain d' = n \<and> dCNameTarget d' = claimTarget e d)
         \<and> (\<forall>j. j \<noteq> dID d \<longrightarrow> rowOf j w' = rowOf j w)
       else \<not> succeeded r
         \<and> domains w' = domains (if unclaimed e w d then targeted e d w else w))"
proof -
  have name: "dDomain d = n" using find_SomeD [OF assms(6)] by (simp add: byName_def)
  have wf: "wf_store (later k w)" for k using assms(2) by (simp add: wf_store_def)
  have row: "rowOf (dID d) (later k w) = Some d" for k using name_row [OF assms(2,6,7)] by simp
  obtain k where k: "run_state (isUnclaimedDomain e d) (later 1 w) = (unclaimed e w d, later k w)"
    using run_unclaimed_calm [OF assms(1), of d "later 1 w"] by auto
  have run: "run_state (addLive e d u) (later 1 w) = (r, w')"
    using assms by (simp add: AddDomain_def requireUserID_def addNamed_def run_simps)
  show ?thesis
  proof (cases "unclaimed e w d")
    case False
    then have "\<not> succeeded r" "w' = later k w" using run k assms(8) by (auto simp: addLive_def)
    then show ?thesis using False by (auto simp: unclaimed_def)
  next
    case True
    obtain q v where q: "run_state (claimUnclaimedDomain e d u) (later k w) = (q, v)" by fastforce
    have un: "unclaimed e (later k w) d" using True by simp
    note C = claim_calm [OF assms(1) wf row un _ q, unfolded name, OF assms(9)]
    have rest: "run_state (case q of Inl err \<Rightarrow> State_Monad.return (claimResponse err)
        | Inr domain \<Rightarrow> respondDomain e domain) v = (r, w')"
      using run k True assms(8) q by (simp add: addLive_def)
    have cond: "\<not> hasCertRow (dID d) w \<and> (dStatus d = ''pending'' \<or> dStatus d = ''error'' \<and> (dCnameVerifiedAt d = None
        \<or> UnclaimedErrorReleaseDuration (DomainCfg (cfg e)) \<le> clock w - dUpdatedAt d))"
      using True by (simp add: unclaimed_def)
    show ?thesis
    proof (cases ok)
      case False
      have t: "domains (targeted e d (later k w)) = domains (targeted e d w)" "certs (targeted e d w') = certs w'" for w'
        by (simp_all add: targeted_written written_def)
      show ?thesis using False C rest True t by (auto simp: claimResponse_def)
    next
      case ok: True
      then obtain d' where d': "q = Inr d'" "rowOf (dID d) v = Some d'" "dUserID d' = u"
          "dStatus d' = ''verified''" "dDomain d' = n" "dCNameTarget d' = claimTarget e d"
          "certs v = certs w" "\<And>j. j \<noteq> dID d \<Longrightarrow> rowOf j v = rowOf j w"
        using C by auto
      then have "run_state (respondDomain e d') v = (r, w')" using rest by simp
      then obtain dto k' where "r = RespondSuccess (Some (PDomain dto))" "w' = later k' v"
        using respond_calm [OF assms(1)] by blast
      then show ?thesis using cond ok d' by simp
    qed
  qed
qed

text \<open>User 8 takes over the pending domain whose record user 7 has set up.\<close>

lemma claim_outcome_witness:
  "\<exists>d'. rowOf 1 (snd (run_state (AddDomain idleEnv addRequest) (sampleWorld ''pending'' [] []))) = Some d'
     \<and> dUserID d' = 8 \<and> dStatus d' = ''verified''"
proof -
  let ?w = "sampleWorld ''pending'' [] []" and ?d = "sampleDomain ''pending''"
  obtain r w' where run: "run_state (AddDomain idleEnv addRequest) ?w = (r, w')" by fastforce
  have target: "claimTarget idleEnv ?d = dCNameTarget ?d" by (simp add: claimTarget_def)
  have "\<exists>d'. rowOf (dID ?d) w' = Some d' \<and> dUserID d' = 8 \<and> dStatus d' = ''verified''"
    using claim_outcome [OF calm_idleEnv _ _ _ exampleName, of ?w addRequest 8 ?d True r w'] run
    by (auto simp: statuses_def addRequest_def GetUserID_def byName_def live_def sample_cname target)
  then show ?thesis using run by simp
qed

section \<open>Deleting a domain\<close>

lemma owned_row:
  assumes "wf_store w" and "rowOf i w = Some d"
  shows "find (\<lambda>x. live x \<and> ownedBy i (dUserID d) x) (domains w) = Some d"
proof -
  have d: "dID d = i" "live d" "d \<in> set (domains w)" using assms(2) by (auto dest: rowOf_id)
  have dist: "distinct (map dID (domains w))" using assms(1) by (simp add: wf_store_def wf_domains_def)
  have "(live x \<and> ownedBy i (dUserID d) x) = (x = d)" if "x \<in> set (domains w)" for x
    using that d dist by (auto simp: ownedBy_def dest: distinct_key_unique)
  then have "filter (\<lambda>x. live x \<and> ownedBy i (dUserID d) x) (domains w) = filter (\<lambda>x. x = d) (domains w)"
    by (rule filter_cong [OF refl])
  then show ?thesis using d dist by (intro find_of_filter) (simp add: filter_single distinct_map)
qed

lemma owned_granted:
  assumes "calm e" and "wf_store w" and "rowOf i w = Some d" and "GetUserID c = Some (dUserID d)"
    and "parseDomainID s = Some i"
  shows "run_state (getDomainOwned e c s) w = (Inr d, later 1 w)"
  using getDomainOwned_granted [OF assms(1,4,5) owned_row [OF assms(2,3)]] .

text \<open>What is left of a domain that was deleted: the row with its deletion mark.\<close>

definition removed :: "uint \<Rightarrow> world \<Rightarrow> world \<Rightarrow> bool" where
  "removed i w w' \<longleftrightarrow>
     rowOf i w' = None
     \<and> domains w' = map (\<lambda>d. if live d \<and> dID d = i then d\<lparr>dDeletedAt := Some (clock w)\<rparr> else d) (domains w)
     \<and> certs w' = filter (\<lambda>c. cDomainID c \<noteq> i) (certs w)
     \<and> targets w' = filter (\<lambda>t. tDomainID t \<noteq> i) (targets w)
     \<and> deployJobs w' = filter (\<lambda>j. jDomainID j \<noteq> i) (deployJobs w)
     \<and> users w' = users w \<and> accounts w' = accounts w \<and> jobs w' = jobs w \<and> ctxs w' = ctxs w
     \<and> clock w' = clock w"

lemma table_update_deploy:
  "targets_update (filter p) w = w\<lparr>targets := filter p (targets w)\<rparr>"
  "deployJobs_update (filter q) w = w\<lparr>deployJobs := filter q (deployJobs w)\<rparr>"
  by (cases w; simp)+

lemma delete_calm:
  assumes "calm e" and "wf_store w" and "rowOf i w = Some d" and "GetUserID c = Some (dUserID d)"
    and "parseDomainID (pathID c) = Some i" and "run_state (DeleteDomain e c) w = (r, w')"
  shows "if dStatus d = ''generating''
    then r = RespondError StatusConflict ''Cannot delete domain while certificate generation is in progress''
      \<and> w' = later 1 w
    else r = RespondSuccess None \<and> removed i w w'"
proof -
  have id: "dID d = i" using assms(3) by (auto dest: rowOf_id)
  have gone: "find (\<lambda>x. live x \<and> dID x = i)
      (map (\<lambda>d. if live d \<and> dID d = i then d\<lparr>dDeletedAt := Some t\<rparr> else d) ds) = None" for t ds
    by (induction ds) (auto simp: live_def)
  have owned: "run_state (getDomainOwned e c (pathID c)) w = (Inr d :: payload response + DomainRow, later 1 w)"
    by (rule owned_granted [OF assms(1-5)])
  show ?thesis
    using assms(1,6) owned gone
    by (auto simp: DeleteDomain_def deleteDependents_def DeleteRows_def SoftDeleteDomain_def run_simps id
        table_update_deploy removed_def rowOf_def byID_def certOfDomain_def targetOfDomain_def deployJobOfDomain_def)
qed

text \<open>
  Property C19. Deleting a domain (no interference, no faults): while the domain is generating the
  request is refused and the store is as it was; otherwise the row is marked deleted, its
  certificate, deploy targets and deploy jobs are gone, and no other row of any table changes. The
  row keeps its name, so the name stays taken until somebody adds it again.
\<close>

theorem delete_domain_outcome:
  assumes "calm e" and "wf_store w" and "rowOf i w = Some d" and "GetUserID c = Some (dUserID d)"
    and "parseDomainID (pathID c) = Some i" and "run_state (DeleteDomain e c) w = (r, w')"
  shows "(dStatus d = ''generating'' \<longrightarrow> \<not> succeeded r \<and> w' = later 1 w)
    \<and> (dStatus d \<noteq> ''generating'' \<longrightarrow> succeeded r \<and> removed i w w')"
  using delete_calm [OF assms] by auto

definition ownRequest :: "unit request" where
  "ownRequest = \<lparr>ctxUserID = Some (UintVal 7), pathID = FormatUint 1, pathTargetID = [], pathJobID = [],
     query = (\<lambda>_. None), body = Inr ()\<rparr>"

lemma ownRequest_fields [simp]:
  "GetUserID ownRequest = Some 7" "parseDomainID (pathID ownRequest) = Some 1"
  by (simp_all add: ownRequest_def GetUserID_def parseDomainID_FormatUint maxUint64_def del: One_nat_def)

lemma delete_domain_outcome_witness:
  "removed 1 (sampleWorld ''active'' [sampleCert] [])
     (snd (run_state (DeleteDomain idleEnv ownRequest) (sampleWorld ''active'' [sampleCert] [])))"
proof -
  let ?w = "sampleWorld ''active'' [sampleCert] []"
  obtain r w' where run: "run_state (DeleteDomain idleEnv ownRequest) ?w = (r, w')" by fastforce
  show ?thesis
    using delete_domain_outcome [OF calm_idleEnv _ _ _ _ run, of 1 "sampleDomain ''active''"] run
    by (simp add: statuses_def)
qed

section \<open>Verifying while a job runs\<close>

lemma verify_calm:
  assumes "calm e" and "wf_store w" and "rowOf i w = Some d" and "GetUserID c = Some (dUserID d)"
    and "parseDomainID (pathID c) = Some i" and "dCNameTarget d \<noteq> []"
    and "\<And>k. cnameOK e k (dDomain d) (dCNameTarget d)"
    and "run_state (VerifyCname e c) w = (r, w')"
  shows "succeeded r \<and> (\<exists>k. w' = written (verifiedCols (clock w)) i (later k w))"
proof -
  have id: "dID d = i" using assms(3) by (auto dest: rowOf_id)
  have owned: "run_state (getDomainOwned e c (pathID c)) w = (Inr d :: payload response + DomainRow, later 1 w)"
    by (rule owned_granted [OF assms(1-5)])
  obtain v where "run_state (VerifyChallengeCNAME e (dDomain d) (dCNameTarget d)) (later 1 w) = (v, later 2 w)"
      "v = Inr ()"
    using run_Verify_calm [OF assms(1), of "dDomain d" "dCNameTarget d" "later 1 w"] assms(7)
    by (auto simp: numeral_2_eq_2)
  then show ?thesis
    using assms(1,6,8) owned id
    by (auto simp: VerifyCname_def run_reads_calm run_updates_calm)
qed

text \<open>
  Property C27. Verifying the delegation record lifts the lock of a running job (no interference, no
  faults): whatever the status, generating included, the row becomes verified while the job stays
  active, and the deletion that is refused for a generating domain then goes through, so
  the job goes on for a domain that is gone.
\<close>

theorem verify_lifts_lock:
  assumes "calm e" and "wf_store w" and "rowOf i w = Some d" and "GetUserID c = Some (dUserID d)"
    and "parseDomainID (pathID c) = Some i" and "dCNameTarget d \<noteq> []"
    and "\<And>k. cnameOK e k (dDomain d) (dCNameTarget d)" and "activeJob w i t"
    and "run_state (VerifyCname e c) w = (r1, w1)" and "run_state (DeleteDomain e c) w1 = (r2, w2)"
  shows "(\<exists>d1. rowOf i w1 = Some d1 \<and> dStatus d1 = ''verified'') \<and> activeJob w1 i t
    \<and> succeeded r2 \<and> rowOf i w2 = None \<and> activeJob w2 i t"
proof -
  obtain k where w1: "w1 = written (verifiedCols (clock w)) i (later k w)"
    using verify_calm [OF assms(1-7,9)] by blast
  let ?d = "stamp (clock w) (verifiedCols (clock w)) d"
  have wf: "wf_store w1"
    using assms(2) unfolding w1 written_def stamp_eq by (simp add: wf_store_def verifiedUpd.map_wf)
  have row: "rowOf i w1 = Some ?d" using assms(3) by (simp add: w1 verifiedUpd.rowOf_written)
  have d: "dStatus ?d = ''verified''" "dUserID ?d = dUserID d"
    by (simp_all add: stamp_def verifiedCols_def)
  have del: "r2 = RespondSuccess None \<and> removed i w1 w2"
    using delete_calm [OF assms(1) wf row _ assms(5,10)] assms(4) d by simp
  have act: "activeJob v i t = activeJob w i t"
    if "jobs v = jobs w" "ctxs v = ctxs w" "clock v = clock w" for v
    using that unfolding activeJob_def ctxErr_def by (simp only:)
  show ?thesis
    using row d del assms(8) act [of w1] act [of w2] by (simp add: removed_def w1)
qed

lemma verify_lifts_lock_witness:
  "let w = sampleWorld ''generating'' [] [(1, 1)];
       w1 = snd (run_state (VerifyCname idleEnv ownRequest) w);
       w2 = snd (run_state (DeleteDomain idleEnv ownRequest) w1)
   in rowOf 1 w2 = None \<and> activeJob w2 1 1"
proof -
  let ?w = "sampleWorld ''generating'' [] [(1, 1)]"
  obtain r1 w1 where v: "run_state (VerifyCname idleEnv ownRequest) ?w = (r1, w1)" by fastforce
  obtain r2 w2 where d: "run_state (DeleteDomain idleEnv ownRequest) w1 = (r2, w2)" by fastforce
  show ?thesis
    using verify_lifts_lock [OF calm_idleEnv _ _ _ _ _ _ _ v d, of 1 "sampleDomain ''generating''" 1] v d sample_active
    by (simp add: statuses_def sample_cname)
qed

end
