(* ===== verification/Cert_Api_Props.thy ===== *)
theory Cert_Api_Props
  imports Domain_Props Scheduler_Props
begin

text \<open>
  Properties of the certificate API and of the server as a whole: every request is answered, what
  a request that issues a certificate starts, and that a download returns what the job stored.
\<close>

section \<open>Every request is answered\<close>

lemma answers_begin:
  assumes "0 < generatingTimeout e"
  shows "answers (beginCertOperation e d renew :: (world, (payload response + UserRow) option) state)"
proof -
  have acquire: "answers (lockAndAcquire e d renew :: (world, (payload response + UserRow) option) state)"
    unfolding lockAndAcquire_def
    by (rule answers_step [OF answers_lock [OF assms]]) (auto intro!: answers_bind answers_if simp: split: sum.split)
  show ?thesis
    unfolding beginCertOperation_def
    by (intro answers_if answers_bind answers_case_sum acquire) simp_all
qed

lemma answers_issue:
  assumes "0 < generatingTimeout e"
  shows "answers (issueCertificateInternal e c i renew)"
proof -
  note rules = answers_step [OF answers_begin [OF assms]] answers_step [OF answers_start [OF assms]]
    answers_case_sum answers_if answers_bind
  show ?thesis
    unfolding issueCertificateInternal_def Let_def
    by (rule rules | (simp split: sum.split, safe?))+
qed

lemma answersD: "answers m \<Longrightarrow> run_state m w = (r, v) \<Longrightarrow> r \<noteq> None"
  unfolding answers_def by (metis fst_conv)

lemma answers_wrappers:
  "answers (plain m1)" "answers m2 \<Longrightarrow> answers (mayBlock m2)" "answers (withSession m3)" "answers (fileReply m4)"
  by (auto simp: plain_def mayBlock_def withSession_def fileReply_def answers_def [of "State_Monad.bind m f" for m f]
      dest: answersD split: prod.split)

lemma answers_IssueCertificate:
  assumes "0 < generatingTimeout e"
  shows "answers (IssueCertificate e c)"
  unfolding IssueCertificate_def
  by (intro answers_bind answers_case_sum) (auto intro: answers_issue [OF assms] split: sum.split bindError.split)

lemma answers_handle:
  assumes "0 < generatingTimeout e"
  shows "answers (handle e b c h)"
proof -
  have "answers (startByBody e c renew)" for c renew
    unfolding startByBody_def by (intro answers_case_sum answers_issue [OF assms]) simp
  then show ?thesis
    by (cases h) (simp_all add: answers_wrappers answers_IssueCertificate [OF assms] GenerateCertificate_def
        RenewCertificate_def)
qed

text \<open>
  Property C22. Every request is answered: with a positive generating timeout no schedule of the other
  goroutines, no fault and no state of the store makes a request wait for ever, through all
  middlewares and for every route, matched or not.
\<close>

theorem every_request_answered:
  assumes "0 < generatingTimeout e"
  shows "snd (fst (fst (run_state (serve e lib b k g) w))) \<noteq> None"
proof -
  have route: "fst (fst (run_state (serveRoute e lib b k rt g') v)) \<noteq> None" for rt g' v
    by (auto simp: serveRoute_def Let_def dest: answersD [OF answers_handle [OF assms]]
        split: prod.split sum.split option.split)
  have "fst a \<noteq> None" if "run_state (serveRoute e lib b k rt g') v = (a, v')" for rt g' v a v'
    using route [of rt g' v] that by simp
  then show ?thesis
    by (fastforce simp: serve_def Let_def split: prod.split option.split)
qed

lemma every_request_answered_witness:
  "snd (fst (fst (run_state (serve idleEnv sampleLib sampleBindings (sampleCall (Some (UintVal 9)) deleteRoute)
     noLimits) (sampleWorld ''active'' [sampleCert] [])))) \<noteq> None"
  by (rule every_request_answered) (simp add: Minute_def)

section \<open>Issuing a certificate\<close>

lemma wait_calm:
  assumes "calm e"
  shows "\<exists>n. snd (run_state (waitDomainWorker e i timeout) w) = later n w"
  using assms by (auto simp: waitDomainWorker_def run_simps Let_def)

text \<open>Starting a job: the registry entry is active, and one worker is added.\<close>

lemma start_registers:
  assumes "calm e" and "0 < generatingTimeout e" and "run_state (StartCertJob e d u renew ar) v = (x, v')"
  shows "x = Some () \<and> slots v' = slots v \<and> domains v' = domains v \<and> certs v' = certs v
    \<and> (\<exists>t. spawned v' = spawned v @
          [\<lparr>jobToken = t, jobDomain = d, jobUser = u, jobRenew = renew, jobAutoRenew = ar\<rparr>]
        \<and> activeJob v' (dID d) t)"
proof -
  let ?wait = "waitDomainWorker e (dID d) (generatingTimeout e)"
  let ?c = "cancelEntry (dID d) (settle e v)"
  obtain n where n: "snd (run_state ?wait ?c) = later n ?c" using wait_calm [OF assms(1)] by blast
  have before: "beforeRegister e (dID d) v = later (Suc n) ?c"
    unfolding beforeRegister_def n using assms(1) by (simp add: settle_calm)
  have wait: "fst (run_state ?wait ?c) \<noteq> None"
    using wait_returns [OF assms(2), of e "dID d" ?c] by force
  define q where "q = registerJob (dID d) (clock (later (Suc n) ?c) + generatingTimeout e) (later (Suc n) ?c)"
  define t where "t = tokenSeq q"
  have b: "run_state (beginCertJob e (dID d)) v = (Some t, q)"
    unfolding run_beginCertJob before q_def t_def Let_def by (rule if_not_P [OF wait])
  have c: "clock ?c = clock v" "domains ?c = domains v" "certs ?c = certs v" "slots ?c = slots v"
      "spawned ?c = spawned v"
    using assms(1) by (auto simp: cancelEntry_def cancelCtx_def settle_calm split: option.split)
  have q_eqs: "domains q = domains v" "certs q = certs v" "slots q = slots v" "spawned q = spawned v"
      "clock q = clock v"
    using c by (simp_all add: q_def registerJob_def Let_def)
  have "entry q (dID d) = Some t" by (simp add: q_def t_def registry.reg_register registerJob_token)
  moreover have "ctxErr q (JobCtx t) = None"
    using assms(2) c by (simp add: q_def t_def ctxErr_def registerJob_def Let_def)
  ultimately have act: "activeJob q (dID d) t" by (simp add: activeJob_def)
  have booked: "activeJob (x\<lparr>jobWG := m, spawned := js\<rparr>) i t' = activeJob x i t'" for x m js i t'
    by (simp add: activeJob_def ctxErr_def cong: option.case_cong if_cong)
  show ?thesis
    using assms(1,3) b q_eqs act by (auto simp: StartCertJob_def run_simps booked)
qed

lemma begin_spawned:
  assumes "calm e"
    and "run_state (beginCertOperation e d renew :: (world, ('d response + UserRow) option) state) w = (r, v)"
  shows "spawned v = spawned w"
proof -
  let ?I = "\<lambda>v. spawned v = spawned w"
  have st: "stable e ?I" by (rule stable_calm_env [OF assms(1)]) simp
  have tf: "tableFree ?I" by (simp add: tableFree_def restoreTables_def)
  have "keeps ?I (tryAcquireCertJobSlot e)"
    unfolding tryAcquireCertJobSlot_def by (intro keeps_act st) (simp add: sendSlot_def)
  moreover have "keeps ?I (lockDomainForCertJob e d renew)"
    by (intro keeps_lock st tf) (simp_all add: cancelEntry_def cancelCtx_def split: option.split)
  ultimately have "keeps ?I (beginCertOperation e d renew :: (world, ('d response + UserRow) option) state)"
    unfolding beginCertOperation_def lockAndAcquire_def markIfFirst_def
    by (intro keeps_intros keeps_Verify keeps_wf_reads keeps_frame_status st tf)
  then show ?thesis using keepsD [of ?I _ w] assms(2) by fastforce
qed

lemma issue_effect:
  assumes "calm e" and "0 < generatingTimeout e" and "wf_store w" and "rowOf i w = Some d"
    and "GetUserID c = Some (dUserID d)" and "parseDomainID (pathID c) = Some i"
    and "body c = Inr input" and "\<not> inflight w i" and "run_state (IssueCertificate e c) w = (Some r, w')"
  shows "if succeeded r
    then (inForceRenew input \<or> \<not> hasCertRow i w) \<and> slots w < certJobSlotsCap e \<and> slots w' = Suc (slots w)
      \<and> (\<exists>d'. rowOf i w' = Some d' \<and> dStatus d' = ''generating'' \<and> dGeneratingSince d' = Some (clock w))
      \<and> (\<exists>j. spawned w' = spawned w @ [j] \<and> jobDomain j = d \<and> uID (jobUser j) = dUserID d
           \<and> jobRenew j = inForceRenew input \<and> \<not> jobAutoRenew j \<and> activeJob w' i (jobToken j))
    else spawned w' = spawned w \<and> slots w' = slots w \<and> (settled i w \<longrightarrow> settled i w')"
proof -
  have id: "dID d = i" using assms(4) by (auto dest: rowOf_id)
  have wf: "wf_store (later k w)" for k using assms(3) by (simp add: wf_store_def)
  have owned: "run_state (getDomainOwned e c (pathID c)) w = (Inr d :: payload response + DomainRow, later 1 w)"
    by (rule owned_granted [OF assms(1,3-6)])
  have again: "run_state (FirstDomain e (ownedBy i (dUserID d))) (later k w) = (Inr d, later (Suc k) w)" for k
    using assms(1) owned_row [OF assms(3,4)] by (simp add: FirstDomain_def run_simps)
  obtain f where f: "inForceRenew input = f" by blast
  let ?op = "beginCertOperation e d f :: (world, (payload response + UserRow) option) state"
  let ?cont = "\<lambda>b. (case b of None \<Rightarrow> State_Monad.return None
      | Some (Inl resp) \<Rightarrow> State_Monad.return (Some resp)
      | Some (Inr user) \<Rightarrow> State_Monad.bind (StartCertJob e d user f False)
          (\<lambda>s. State_Monad.return (case s of None \<Rightarrow> None
             | Some _ \<Rightarrow> Some (RespondSuccess (Some (PStarted ''generating''
                ''Certificate issuance started. Refresh the domain to check status.''))))))"
  have run: "run_state (IssueCertificate e c) w =
      (if \<not> f \<and> hasCertRow i w
       then (Some (RespondError StatusConflict
          ''Certificate already exists; set forceRenew to true or use the renew endpoint''), later 3 w)
       else run_state (State_Monad.bind ?op ?cont) (later (if f then 2 else 3) w))"
    using assms(1,7) id f
    by (induction f)
      (simp_all add: IssueCertificate_def issueCertificateInternal_def requireUserID_def run_simps owned again
        assms(5) hasCertRow_def eval_nat_numeral)
  consider (exists) "\<not> f" "hasCertRow i w" "\<not> succeeded r" "w' = later 3 w"
    | (begun) k b v where "f \<or> \<not> hasCertRow i w"
        "run_state ?op (later k w) = (b, v)" "run_state (?cont b) v = (Some r, w')"
  proof (cases "\<not> f \<and> hasCertRow i w")
    case True
    then show ?thesis using run assms(9) exists by simp
  next
    case False
    let ?k = "if f then 2 else 3"
    obtain b v where bv: "run_state ?op (later ?k w) = (b, v)" by fastforce
    have "run_state (State_Monad.bind ?op ?cont) (later ?k w) = (Some r, w')"
      using run unfolding assms(9) if_not_P [OF False] by (rule sym)
    then have "run_state (?cont b) v = (Some r, w')" by (simp only: run_state_bind bv prod.case)
    with False bv show ?thesis by (intro begun) blast+
  qed
  then show ?thesis
  proof cases
    case exists
    then show ?thesis by auto
  next
    case begun
    have "\<not> inflight (later k w) i" using assms(8) by (simp add: inflight_def)
    note E = begin_operation_effect [OF assms(1) wf _ id this]
    have same: "spawned v = spawned w" using begin_spawned [OF assms(1) begun(2)] by simp
    obtain b' where b: "b = Some b'" using answersD [OF answers_begin [OF assms(2)] begun(2)] by blast
    show ?thesis
    proof (cases b')
      case (Inl resp)
      then have "r = resp" "w' = v" using begun(3) b by auto
      then show ?thesis using begun(2) b Inl E [of d "f" "Inl resp" v] assms(4) same by simp
    next
      case (Inr user)
      obtain x v' where s: "run_state (StartCertJob e d user f False) v = (x, v')" by fastforce
      note S = start_registers [OF assms(1,2) s]
      have "w' = v'" "succeeded r" using begun(3) b Inr s S by auto
      then show ?thesis
        using begun(1,2) b Inr f E [of d "f" "Inr user" v] S assms(4) same id
          rowOf_same [of v' v i] by auto
    qed
  qed
qed

text \<open>Whatever comes of the request, the rows of the other domains are as they were.\<close>

lemma find_filter: "(\<And>x. p x \<Longrightarrow> q x) \<Longrightarrow> find p (filter q xs) = find p xs"
  by (induction xs) auto

lemma rowOf_outside:
  assumes "outside i v = outside i w" and "j \<noteq> i"
  shows "rowOf j v = rowOf j w"
proof -
  have "filter (\<lambda>d. dID d \<noteq> i) (domains v) = filter (\<lambda>d. dID d \<noteq> i) (domains w)"
    using assms(1) by (simp add: outside_def)
  then show ?thesis
    using assms(2) find_filter [of "\<lambda>d. live d \<and> byID j d" "\<lambda>d. dID d \<noteq> i"]
    by (metis (no_types, lifting) rowOf_def byID_def)
qed

lemma calm_alone: "calm e \<Longrightarrow> alone e = e"
  by (simp add: calm_def alone_quiet)

lemma issue_rows:
  assumes "calm e" and "GetUserID c = Some u" and "parseDomainID (pathID c) = Some i"
    and "run_state (IssueCertificate e c) w = (r, w')" and "j \<noteq> i"
  shows "rowOf j w' = rowOf j w"
proof -
  let ?I = "\<lambda>v. outside i v = outside i w"
  have "keeps ?I (IssueCertificate (alone e) c)"
    unfolding IssueCertificate_def
    by (rule othersReq.owned [where u = u])
      (use assms(2,3) othersReq.issue [where u = u and c = c and e = e and i = i and s = "outside i w"] in
        \<open>auto intro!: keeps_return split: sum.split bindError.split\<close>)
  then have "outside i w' = outside i w"
    using keepsD [of ?I _ w] assms(4) calm_alone [OF assms(1)] by (metis snd_conv)
  then show ?thesis by (rule rowOf_outside [OF _ assms(5)])
qed

text \<open>
  Property C4. What a request to issue a certificate does, for a domain of the caller without a job in
  flight (no interference, no faults): it is answered, and no row of another domain changes. A success
  means that no certificate existed or renewal was forced, that a free slot was taken, that the domain
  is generating from now on, and that one worker was added, for this domain and its owner, whose job is
  the active one. A refusal takes no slot, adds no worker and leaves no domain generating that was not.
\<close>

theorem issue_outcome:
  assumes "calm e" and "0 < generatingTimeout e" and "wf_store w" and "rowOf i w = Some d"
    and "GetUserID c = Some (dUserID d)" and "parseDomainID (pathID c) = Some i"
    and "body c = Inr input" and "\<not> inflight w i" and "run_state (IssueCertificate e c) w = (answer, w')"
  shows "\<exists>r. answer = Some r \<and> (\<forall>k. k \<noteq> i \<longrightarrow> rowOf k w' = rowOf k w)
    \<and> (if succeeded r
       then (inForceRenew input \<or> \<not> hasCertRow i w) \<and> slots w < certJobSlotsCap e \<and> slots w' = Suc (slots w)
         \<and> (\<exists>d'. rowOf i w' = Some d' \<and> dStatus d' = ''generating'' \<and> dGeneratingSince d' = Some (clock w))
         \<and> (\<exists>j. spawned w' = spawned w @ [j] \<and> jobDomain j = d \<and> uID (jobUser j) = dUserID d
              \<and> jobRenew j = inForceRenew input \<and> \<not> jobAutoRenew j \<and> activeJob w' i (jobToken j))
       else spawned w' = spawned w \<and> slots w' = slots w \<and> (\<forall>k. settled k w \<longrightarrow> settled k w'))"
proof -
  obtain r where r: "answer = Some r"
    using answersD [OF answers_IssueCertificate [OF assms(2)] assms(9)] by blast
  have others: "rowOf k w' = rowOf k w" if "k \<noteq> i" for k
    by (rule issue_rows [OF assms(1,5,6,9) that])
  have "settled k w'" if "settled k w" and "settled i w \<longrightarrow> settled i w'" for k
    using that others by (cases "k = i") (simp_all add: settled_def)
  then show ?thesis
    using issue_effect [OF assms(1-8) assms(9) [unfolded r]] r others by auto
qed

definition issueRequest :: "IssueCertInput request" where
  "issueRequest = \<lparr>ctxUserID = Some (UintVal 7), pathID = FormatUint 1, pathTargetID = [], pathJobID = [],
     query = Map.empty, body = Inr \<lparr>inForceRenew = False\<rparr>\<rparr>"

lemma minutes_positive: "0 < 15 * Minute"
  by (simp add: Minute_def)

lemma issue_outcome_witness:
  "\<exists>j w'. spawned w' = [j] \<and> activeJob w' 1 (jobToken j) \<and> uID (jobUser j) = 7 \<and> slots w' = 1
     \<and> snd (run_state (IssueCertificate idleEnv issueRequest) (sampleWorld ''verified'' [] [])) = w'"
proof -
  let ?w = "sampleWorld ''verified'' [] []"
  have verify: "run_state (VerifyChallengeCNAME idleEnv ''example.com'' ''1.cname.yourservice.com'') (later n ?w)
      = (Inr (), later (Suc n) ?w)" for n
    unfolding prod_eq_iff fst_conv snd_conv Verify_ok Verify_state by (simp add: sample_cname run_simps)
  obtain r w' where run: "run_state (IssueCertificate idleEnv issueRequest) ?w = (Some r, w')"
    using answersD [OF answers_IssueCertificate [of idleEnv issueRequest]]
    by (metis generatingTimeout_prod idleEnv_fields(1) not_None_eq prod.collapse minutes_positive)
  have "spawned w' \<noteq> []"
    using run
    by (auto simp: IssueCertificate_def issueCertificateInternal_def getDomainOwned_def requireUserID_def issueRequest_def
        parseDomainID_FormatUint maxUint64_def FirstDomain_def ownedBy_def verify
        beginCertOperation_def markIfFirst_def lockAndAcquire_def lockDomainForCertJob_def GetUserID_def
        StartCertJob_def run_beginCertJob waitDomainWorker_def
        run_simps run_clearStaleJob_calm takeLock_def lockUpd.run_updates First_def Let_def inflight_def
        live_def byID_def lockable_def userByID_def sendSlot_def user7 certJobSlotsCap_pos
        simp del: run_Verify One_nat_def split: prod.splits if_splits)
  then show ?thesis
    using issue_outcome [OF calm_idleEnv _ _ _ _ _ _ _ run, of 1 "sampleDomain ''verified''"] run
    by (auto simp: statuses_def issueRequest_def GetUserID_def inflight_def Minute_def parseDomainID_FormatUint maxUint64_def
        split: if_splits)
qed

section \<open>Downloading what was stored\<close>

text \<open>What the owner gets: the certificate and its chain, and the private key in clear.\<close>

definition certificateReply :: "'b request \<Rightarrow> string \<Rightarrow> Resource \<Rightarrow> reply" where
  "certificateReply c domain res =
    (if DefaultQuery c ''format'' ''pem'' = ''zip''
     then Attachment (domain @ ''-certificate.zip'')
       [''cert.pem'' \<mapsto> rCertificate res, ''privkey.pem'' \<mapsto> rPrivateKey res,
        ''chain.pem'' \<mapsto> rIssuerCertificate res,
        ''fullchain.pem'' \<mapsto> rCertificate res @ [CHR 0x0A] @ rIssuerCertificate res]
     else Json (RespondSuccess (Some (PDownload
       \<lparr>cdCertificate = rCertificate res, cdPrivateKey = rPrivateKey res, cdChain = rIssuerCertificate res,
        cdFullchain = rCertificate res @ [CHR 0x0A] @ rIssuerCertificate res\<rparr>))))"

lemma download_stored:
  assumes "calm e" and "wf_store w" and "rowOf i w = Some d" and "certOf i w = Some k"
    and "cCertPEM k = rCertificate res" and "cIssuer k = rIssuerCertificate res"
    and "fst (run_state (Decrypt e (cKeyPEM k)) w) = Inr (rPrivateKey res)"
    and "GetUserID c = Some (dUserID d)" and "parseDomainID (pathID c) = Some i" and "\<forall>n. zipFails e n = None"
  shows "fst (run_state (DownloadDomainCertificate e c) w) = certificateReply c (dDomain d) res"
proof -
  have id: "dID d = i" using assms(3) by (auto dest: rowOf_id)
  have owned: "run_state (getDomainOwned e c (pathID c)) w = (Inr d :: payload response + DomainRow, later 1 w)"
    by (rule owned_granted [OF assms(1-3,8,9)])
  have load: "run_state (loadCertificate e i) (later 1 w) = (Some k, later 2 w)"
    using assms(1,4) by (simp add: run_reads_calm eval_nat_numeral)
  have "fst (run_state (Decrypt e x) (later 2 w)) = fst (run_state (Decrypt e x) w)" for x
    using assms(1) by (simp add: Decrypt_def run_simps)
  then obtain v where dec: "run_state (Decrypt e (cKeyPEM k)) (later 2 w) = (Inr (rPrivateKey res), v)"
    using assms(7) by (metis prod.collapse)
  have "run_state (DownloadDomainCertificate e c) w =
      run_state (if DefaultQuery c ''format'' ''pem'' = ''zip''
        then writeCertificateZip e (dDomain d) k (rPrivateKey res)
        else State_Monad.return (Json (RespondSuccess (Some (PDownload (toCertificateDownloadDTO k (rPrivateKey res))))))) v"
    unfolding DownloadDomainCertificate_def
    by (simp only: run_state_bind owned load dec id prod.case sum.case option.case)
  then show ?thesis
    using assms(10) by (simp add: certificateReply_def writeCertificateZip_def run_act zipFiles_def toCertificateDownloadDTO_def assms(5,6))
qed

text \<open>
  Property C16. From the CA to the user (no interference, no faults): after an active job stored the
  CA's answer, the owner of the domain downloads exactly it, certificate, chain and the private key
  in clear, as JSON or as the zip archive.
\<close>

theorem download_after_job:
  assumes "calm e" and "wf_store w" and "activeJob w i t" and "rowOf i w = Some d"
    and "aead_laws e" and "\<forall>n. \<exists>b. randBytes e n = Some b" and "length (encryptionKey w) = 32"
    and "snd (run_state (storeResult e (JobCtx t) d user ar t res) w) = w'"
    and "GetUserID c = Some (dUserID d)" and "parseDomainID (pathID c) = Some i" and "\<forall>n. zipFails e n = None"
  shows "fst (run_state (DownloadDomainCertificate e c) w') =
    (if DefaultQuery c ''format'' ''pem'' = ''zip''
     then Attachment (dDomain d @ ''-certificate.zip'')
       [''cert.pem'' \<mapsto> rCertificate res, ''privkey.pem'' \<mapsto> rPrivateKey res,
        ''chain.pem'' \<mapsto> rIssuerCertificate res,
        ''fullchain.pem'' \<mapsto> rCertificate res @ [CHR 0x0A] @ rIssuerCertificate res]
     else Json (RespondSuccess (Some (PDownload
       \<lparr>cdCertificate = rCertificate res, cdPrivateKey = rPrivateKey res, cdChain = rIssuerCertificate res,
        cdFullchain = rCertificate res @ [CHR 0x0A] @ rIssuerCertificate res\<rparr>))))"
proof -
  have id: "dID d = i" using assms(4) by (auto dest: rowOf_id)
  let ?d = "stamp (clock w) savedCols d"
  obtain k where k: "certOf i w' = Some k" "cCertPEM k = rCertificate res" "cIssuer k = rIssuerCertificate res"
      "fst (run_state (Decrypt e (cKeyPEM k)) w') = Inr (rPrivateKey res)" and row: "rowOf i w' = Some ?d"
    using stores_result [OF assms(1-3) id assms(5-8)] assms(4) by auto
  have "keeps wf_store (storeResult e (JobCtx t) d user ar t res)"
    by (rule keeps_wf_storeResult [OF stable_calm_env [OF assms(1)]]) simp
  then have wf: "wf_store w'" using keepsD [of wf_store _ w] assms(2,8) by metis
  have "GetUserID c = Some (dUserID ?d)" "dDomain ?d = dDomain d" using assms(9) by (simp_all add: stamp_def savedCols_def)
  with download_stored [OF assms(1) wf row k _ assms(10,11)] show ?thesis by (simp add: certificateReply_def)
qed

lemma download_after_job_witness:
  "fst (run_state (DownloadDomainCertificate idleEnv ownRequest)
     (snd (run_state (storeResult idleEnv (JobCtx 1) (sampleDomain ''generating'') sampleUser True 1 sampleResource)
       (sampleWorld ''generating'' [sampleCert] [(1, 1)]))))
   = Json (RespondSuccess (Some (PDownload
       \<lparr>cdCertificate = ''CERT2'', cdPrivateKey = ''KEY2'', cdChain = ''CHAIN2'',
        cdFullchain = ''CERT2'' @ [CHR 0x0A] @ ''CHAIN2''\<rparr>)))"
proof -
  let ?w = "sampleWorld ''generating'' [sampleCert] [(1, 1)]"
  have "wf_store ?w" by (simp add: statuses_def)
  moreover have "length (encryptionKey ?w) = 32" by (simp add: sampleWorld_def)
  moreover have "DefaultQuery ownRequest ''format'' ''pem'' = ''pem''"
    by (simp add: DefaultQuery_def ownRequest_def)
  ultimately show ?thesis
    using download_after_job [where e = idleEnv and w = ?w and i = 1 and t = 1 and d = "sampleDomain ''generating''"
        and user = sampleUser and ar = True and res = sampleResource and c = ownRequest] sample_active aead_idle
    by (simp add: sampleResource_def)
qed

end
