(* ===== verification/Boot.thy ===== *)
theory Boot
  imports Routes
begin

text \<open>
  The process around the server: reading the configuration (init and Load of config/config.go),
  main.go, and InitDB of config/database.go. The file system, the TOML decoder and the connection to
  PostgreSQL are parameters; every error here ends the process.
\<close>

section \<open>Logging\<close>

text \<open>The level of the default logger, from the variable DEBUG. What is logged is not modelled.\<close>

datatype logLevel = LevelInfo | LevelDebug

definition InitLogger :: "string \<Rightarrow> logLevel" where
  "InitLogger debug = (if debug = ''1'' then LevelDebug else LevelInfo)"

section \<open>The configuration\<close>

text \<open>
  \<open>decodeFile\<close> is toml.DecodeFile into the zero configuration: what was decoded, and the error.
\<close>

record files =
  CONFIG_PATH :: string
  Abs :: "string \<Rightarrow> err + string"
  decodeFile :: "string \<Rightarrow> Config \<times> err option"
  IsNotExist :: "err \<Rightarrow> bool"

definition Load :: "files \<Rightarrow> string \<Rightarrow> err + Config" where
  "Load fs path =
     (case Abs fs (if path = [] then ''./config.toml'' else path) of
        Inl err \<Rightarrow> Inl err
      | Inr absPath \<Rightarrow>
          (case decodeFile fs absPath of
             (_, Some err) \<Rightarrow> if IsNotExist fs err then Inr setDefaults else Inl err
           | (decoded, None) \<Rightarrow> Inr (applyDefaults decoded)))"

definition initConfig :: "files \<Rightarrow> err + Config" where
  "initConfig fs = Load fs (if CONFIG_PATH fs = [] then ''./config.toml'' else CONFIG_PATH fs)"

section \<open>The database\<close>

text \<open>
  The server's database: whether it has the tables, and the rows. A statement on a table that does
  not exist fails with a driver error.
\<close>

type_synonym deployment = "bool \<times> world"

definition onTables :: "(world, err + 'a) state \<Rightarrow> (deployment, err + 'a) state" where
  "onTables m = State (\<lambda>(ready, w).
     if \<not> ready then (Inl (dbErr DriverError), (ready, w))
     else case run_state m w of (r, w') \<Rightarrow> (r, (ready, w')))"

definition onWorld :: "(world, 'a) state \<Rightarrow> (deployment, 'a) state" where
  "onWorld m = State (\<lambda>(ready, w). case run_state m w of (r, w') \<Rightarrow> (r, (ready, w')))"

text \<open>
  removeDuplicateCertificates: the newest row per domain stays.
\<close>

definition olderDuplicate :: "CertRow list \<Rightarrow> CertRow \<Rightarrow> bool" where
  "olderDuplicate cs a \<longleftrightarrow> list_ex (\<lambda>b. cDomainID a = cDomainID b \<and> cID a < cID b) cs"

definition removeDuplicateCertificates :: "env \<Rightarrow> (world, err + unit) state" where
  "removeDuplicateCertificates e =
     db e (\<lambda>w. (Inr (), w\<lparr>certs := filter (\<lambda>a. \<not> olderDuplicate (certs w) a) (certs w)\<rparr>))"

text \<open>
  \<open>DB.AutoMigrate\<close> creates what is missing, the unique indexes of the models included, and fails
  on rows that violate one.
\<close>

definition indexable :: "world \<Rightarrow> bool" where
  "indexable w \<longleftrightarrow> distinct (map uEmail (users w)) \<and> distinct (map dDomain (domains w))
     \<and> distinct (map cDomainID (certs w)) \<and> distinct (map aUserID (accounts w))"

definition AutoMigrate :: "env \<Rightarrow> (deployment, err + unit) state" where
  "AutoMigrate e = State (\<lambda>(ready, w).
     let v = settle e w in
     case dbfail e (tick v) of
       Some x \<Rightarrow> (Inl (dbErr x), (ready, v))
     | None \<Rightarrow> if indexable v then (Inr (), (True, v)) else (Inl (dbErr UniqueViolation), (ready, v)))"

definition dataSource :: "DatabaseConfig \<Rightarrow> string" where
  "dataSource d =
     ''host='' @ Host d @ '' user='' @ User d @ '' password='' @ Password d @ '' dbname='' @ DBName d
     @ '' port='' @ DatabasePort d @ '' sslmode='' @ SSLMode d @ '' TimeZone=Asia/Shanghai''"

datatype startError =
  ConfigUnreadable err | InvalidConfig configError | CryptoFailed err
| ConnectFailed err | DedupFailed err | MigrateFailed err

text \<open>\<open>openPG\<close> is gorm.Open on the data source.\<close>

definition InitDB :: "env \<Rightarrow> (string \<Rightarrow> err + unit) \<Rightarrow> (deployment, startError + unit) state" where
  "InitDB e openPG =
     (case openPG (dataSource (Database (cfg e))) of
        Inl err \<Rightarrow> State_Monad.return (Inl (ConnectFailed err))
      | Inr _ \<Rightarrow> do {
          r \<leftarrow> onTables (removeDuplicateCertificates e);
          case r of
            Inl err \<Rightarrow> State_Monad.return (Inl (DedupFailed err))
          | Inr _ \<Rightarrow> do {
              m \<leftarrow> AutoMigrate e;
              State_Monad.return (map_sum MigrateFailed (\<lambda>x. x) m)
            }
        })"

section \<open>Start and shutdown\<close>

text \<open>What main does before it serves.\<close>

definition startUp :: "env \<Rightarrow> (string \<Rightarrow> err + unit) \<Rightarrow> (deployment, startError + unit) state" where
  "startUp e openPG =
     (case Validate (osenv e) (cfg e) of
        Inl err \<Rightarrow> State_Monad.return (Inl (InvalidConfig err))
      | Inr _ \<Rightarrow> do {
          r \<leftarrow> onWorld (InitCrypto e);
          case r of
            Inl err \<Rightarrow> State_Monad.return (Inl (CryptoFailed err))
          | Inr _ \<Rightarrow> InitDB e openPG
        })"

text \<open>The package is initialised before main runs: the configuration is read first.\<close>

definition boot ::
  "files \<Rightarrow> env \<Rightarrow> (string \<Rightarrow> err + unit) \<Rightarrow> (deployment, startError + Config) state" where
  "boot fs e openPG =
     (case initConfig fs of
        Inl err \<Rightarrow> State_Monad.return (Inl (ConfigUnreadable err))
      | Inr cf \<Rightarrow> do {
          r \<leftarrow> startUp (e\<lparr>cfg := cf\<rparr>) openPG;
          State_Monad.return (map_sum (\<lambda>x. x) (\<lambda>_. cf) r)
        })"

definition listenAddr :: "Config \<Rightarrow> string" where
  "listenAddr cf =
     (if Addr (Server cf) \<noteq> [] then Addr (Server cf) @ '':'' else '':'') @ ServerPort (Server cf)"

text \<open>The state of the middlewares when the router is set up.\<close>

definition newGateway :: "Config \<Rightarrow> 'l gateway" where
  "newGateway cf = \<lparr>ipLimiter = RateLimitInit cf, issueLimiter = CertIssueRateLimitInit cf\<rparr>"

text \<open>After the HTTP server has stopped: the jobs are cancelled, drained and rolled back.\<close>

definition shutdown :: "env \<Rightarrow> (world, bool) state" where
  "shutdown e = do {
     let jobTimeout = ACMEWorkDrainBudget e;
     _ \<leftarrow> CancelAllCertJobs e;
     finished \<leftarrow> WaitCertJobs e jobTimeout;
     _ \<leftarrow> RollbackAllGeneratingDomains e;
     State_Monad.return finished
   }"

end
