(* ===== verification/Server_Props.thy ===== *)
theory Server_Props
  imports Cert_Api_Props Boot
begin

text \<open>
  Properties of the accounts, the start and the shutdown of the server: who gets a session, the
  names that are accepted, what a started server has checked, and what a stopped one leaves behind.
\<close>

section \<open>Sessions\<close>

lemma openSession_user:
  "run_state (openSession e u) w = ((r, SessionUser i), w') \<Longrightarrow> i = uID u \<and> r = RespondSuccess (Some (PUser (uID u) (uEmail u)))"
  by (auto simp: openSession_def run_simps split: if_splits)

lemma users_settle [simp]: "quiet e \<Longrightarrow> users (settle e w) = users w" "quiet e \<Longrightarrow> userSeq (settle e w) = userSeq w"
  by (simp_all add: settle_quiet)

lemma login_session:
  assumes "quiet e" and "run_state (Login e c) w = ((r, SessionUser i), w')"
  shows "\<exists>input. body c = Inr input \<and> (\<exists>u \<in> set (users w). uID u = i \<and> uEmail u = inEmail input
    \<and> bcryptMatch e (inPassword input) (uPassword u))"
proof (cases "body c")
  case (Inr input)
  obtain q v where q: "run_state (First e users (byEmail (inEmail input))) w = (q, v)" by fastforce
  show ?thesis
  proof (cases q)
    case (Inr u)
    then have "find (byEmail (inEmail input)) (users w) = Some u"
      using q assms(1) by (auto simp: First_def run_simps split: option.splits)
    then have "u \<in> set (users w)" "uEmail u = inEmail input" by (auto dest!: find_SomeD simp: byEmail_def)
    moreover have "bcryptMatch e (inPassword input) (uPassword u)" "i = uID u"
      using assms(2) q Inr \<open>body c = _\<close>
      by (auto simp: Login_def CheckPasswordHash_def split: if_splits dest!: openSession_user)
    ultimately show ?thesis using \<open>body c = _\<close> by auto
  qed (use assms(2) q Inr in \<open>auto simp: Login_def\<close>)
qed (use assms(2) in \<open>auto simp: Login_def\<close>)

lemma register_session:
  assumes "quiet e" and "run_state (Register e c) w = ((r, SessionUser i), w')"
  shows "\<exists>input. body c = Inr input \<and> IsRegistrationEnabled (Auth (cfg e))
    \<and> (\<forall>u \<in> set (users w). uEmail u \<noteq> inEmail input) \<and> i = Suc (userSeq w)"
  using assms
  by (auto simp: Register_def First_def HashPassword_def CreateUser_def Let_def run_simps list_ex_iff byEmail_def
      split: if_splits option.splits sum.splits bindError.splits dest!: openSession_user)

lemma no_session_wrappers:
  "run_state (plain m1) w = (Some (x, s), w') \<Longrightarrow> s = SessionKept"
  "run_state (mayBlock m2) w = (Some (x, s), w') \<Longrightarrow> s = SessionKept"
  "run_state (fileReply m3) w = (Some (x, s), w') \<Longrightarrow> s = SessionKept"
  by (auto simp: plain_def mayBlock_def fileReply_def split: prod.splits)

lemma withSession_D:
  "run_state (withSession m) w = (Some (x, s), w') \<Longrightarrow> \<exists>r. run_state m w = ((r, s), w')"
  by (cases "run_state m w") (auto simp: withSession_def)

text \<open>What a request must have shown to be given the session of user \<open>i\<close>.\<close>

definition entitled :: "env \<Rightarrow> bindings \<Rightarrow> string request \<Rightarrow> world \<Rightarrow> handlerName \<Rightarrow> uint \<Rightarrow> bool" where
  "entitled e b c w h i \<longleftrightarrow>
     h = HLogin \<and> (\<exists>input. body (bound (bindLogin b) c) = Inr input
        \<and> (\<exists>u \<in> set (users w). uID u = i \<and> uEmail u = inEmail input \<and> bcryptMatch e (inPassword input) (uPassword u)))
   \<or> h = HRegister \<and> IsRegistrationEnabled (Auth (cfg e)) \<and> i = Suc (userSeq w)
      \<and> (\<exists>input. body (bound (bindRegister b) c) = Inr input
        \<and> (\<forall>u \<in> set (users w). uEmail u \<noteq> inEmail input))"

lemma handle_session:
  assumes "quiet e" and "run_state (handle e b c h) w = (Some (x, SessionUser i), w')"
  shows "entitled e b c w h i"
proof (cases h)
  case HLogin
  then show ?thesis
    using assms by (auto simp: entitled_def dest!: withSession_D login_session [OF assms(1)])
next
  case HRegister
  then show ?thesis
    using assms by (auto simp: entitled_def dest!: withSession_D register_session [OF assms(1)])
next
  case HLogout
  then show ?thesis
    using assms by (auto simp: Logout_def run_simps split: if_splits dest!: withSession_D)
qed (use assms in \<open>auto dest: no_session_wrappers\<close>)

lemma entitled_routed [simp]: "entitled e b (c\<lparr>ctxUserID := v\<rparr>) w h i = entitled e b c w h i"
  by (simp add: entitled_def bound_def)

lemma entitled_settle [simp]: "quiet e \<Longrightarrow> entitled e b c (settle e w) h i = entitled e b c w h i"
  by (simp add: entitled_def)

lemma run_Now: "run_state (Now e) w = (clock (settle e w), settle e w)"
  by (simp add: Now_def run_simps)

lemma serveRoute_session:
  assumes "quiet e" and "run_state (serveRoute e lib b k rt g) w = ((Some (rep, SessionUser i), g'), w')"
  shows "entitled e b (callRequest k) w (rHandler rt) i"
  using assms(2) handle_session [OF assms(1)] assms(1)
  by (force simp: serveRoute_def AuthMiddleware_def Let_def run_Now
      split: if_splits option.splits prod.splits)

text \<open>
  Property C23. A session is opened only for who may have it (no other goroutine in between, any
  faults): when the server answers a call with a session of user \<open>i\<close>, the call either logged in with
  the address of that user and a password that matches the stored hash, or it registered
  a new user, with an address nobody had and while registration is enabled.
\<close>

theorem session_needs_credentials:
  assumes "quiet e"
    and "run_state (serve e lib b k g) w = (((hs, Some (rep, SessionUser i)), g'), w')"
  shows "\<exists>rt. callRoute k = Some rt \<and> entitled e b (callRequest k) w (rHandler rt) i"
  using assms(2) serveRoute_session [OF assms(1)] assms(1)
  by (force simp: serve_def Let_def run_Now split: option.splits prod.splits)

definition registerRoute :: route where
  "registerRoute = publicRoute ''POST'' ''/api/auth/register'' HRegister"

text \<open>The sample server with registration switched on.\<close>

definition openEnv :: env where
  "openEnv = idleEnv\<lparr>cfg := prodCfg\<lparr>Auth := \<lparr>RegistrationEnabled = Some True\<rparr>\<rparr>\<rparr>"

lemma openEnv_calm: "calm openEnv" "quiet openEnv"
  using calm_idleEnv by (simp_all add: openEnv_def calm_def quiet_def faultless_def)

lemma openEnv_fields:
  "IsRegistrationEnabled (Auth (cfg openEnv))" "bcryptHash openEnv n p = Inr (''h:'' @ p)"
  "bcryptMatch openEnv p h = (h = ''h:'' @ p)" "sessionSaves openEnv n"
  by (simp_all add: openEnv_def IsRegistrationEnabled_def)

lemma userSeq_later [simp]: "userSeq (later n w) = userSeq w"
  by (simp add: later_def)

lemma find_snoc: "find p (xs @ [x]) = (case find p xs of None \<Rightarrow> if p x then Some x else None | Some y \<Rightarrow> Some y)"
  by (induction xs) auto

lemma register_run:
  "\<exists>w'. run_state (Register openEnv (bound (bindRegister sampleBindings) (sampleRequest 9 ''pw''))) (later n (sampleWorld ''active'' [] []))
     = ((RespondSuccess (Some (PUser 8 ''pw'')), SessionUser 8), w')"
  by (simp add: Register_def bound_def sampleBindings_def sampleRequest_def First_def HashPassword_def CreateUser_def
      openSession_def run_simps openEnv_calm openEnv_fields byEmail_def Let_def sampleUser_def)
    (simp add: sampleWorld_def)

lemma session_needs_credentials_witness:
  "entitled openEnv sampleBindings (sampleRequest 9 ''pw'') (sampleWorld ''active'' [] []) HRegister 8"
proof -
  let ?k = "(sampleCall None registerRoute)\<lparr>callRequest := sampleRequest 9 ''pw''\<rparr>"
  obtain w' where w': "run_state (Register openEnv (bound (bindRegister sampleBindings) (sampleRequest 9 ''pw'')))
      (later 1 (sampleWorld ''active'' [] [])) = ((RespondSuccess (Some (PUser 8 ''pw'')), SessionUser 8), w')"
    using register_run by blast
  have "run_state (serve openEnv sampleLib sampleBindings ?k noLimits) (sampleWorld ''active'' [] [])
      = ((([], Some (Json (RespondSuccess (Some (PUser 8 ''pw''))), SessionUser 8)), noLimits), w')"
    using w' openEnv_calm
    by (simp add: serve_def RateLimitMiddleware_def noLimits_def CORSMiddleware_def sampleCall_def registerRoute_def
        publicRoute_def serveRoute_def withSession_def run_Now run_simps)
  from session_needs_credentials [OF openEnv_calm(2) this] show ?thesis
    by (simp add: sampleCall_def registerRoute_def publicRoute_def)
qed

lemma fresh_user:
  "\<forall>x \<in> set us. uEmail x \<noteq> m \<Longrightarrow>
     \<lparr>uID = i, uEmail = m, uPassword = p, uCreatedAt = t, uUpdatedAt = t'\<rparr> \<notin> set us"
  by (metis UserRow.select_convs(2))

text \<open>
  Registering and logging in fit together (no interference, no faults, a working session
  store, and a hash that matches its own password): whoever registered is logged in as that user by the
  same address and password.
\<close>

theorem register_then_login:
  assumes "calm e" and "\<forall>n p h. bcryptHash e n p = Inr h \<longrightarrow> bcryptMatch e p h" and "\<forall>n. sessionSaves e n"
    and "run_state (Register e c) w = ((r, s), w')" and "succeeded r"
  shows "\<exists>u. u \<in> set (users w') - set (users w) \<and> s = SessionUser (uID u)
    \<and> fst (run_state (Login e c) w') = (RespondSuccess (Some (PUser (uID u) (uEmail u))), SessionUser (uID u))"
proof -
  obtain input where c: "body c = Inr input"
    using assms(4,5) by (auto simp: Register_def split: sum.splits if_splits)
  let ?u = "\<lparr>uID = Suc (userSeq w), uEmail = inEmail input,
    uPassword = projr (bcryptHash e (Suc (Suc (tick w))) (inPassword input)), uCreatedAt = clock w, uUpdatedAt = clock w\<rparr>"
  show ?thesis
    using assms c
    by (intro exI [of _ ?u])
      (auto simp: Register_def Login_def CheckPasswordHash_def First_def HashPassword_def CreateUser_def
        openSession_def run_simps list_ex_iff byEmail_def Let_def find_snoc
        split: if_splits option.splits sum.splits dest: fresh_user)
qed

lemma register_then_login_witness:
  "\<exists>w' u. snd (run_state (Register openEnv (bound (bindRegister sampleBindings) (sampleRequest 9 ''pw'')))
       (later 0 (sampleWorld ''active'' [] []))) = w'
     \<and> snd (fst (run_state (Login openEnv (bound (bindRegister sampleBindings) (sampleRequest 9 ''pw''))) w')) = SessionUser u"
proof -
  obtain w' where w': "run_state (Register openEnv (bound (bindRegister sampleBindings) (sampleRequest 9 ''pw'')))
      (later 0 (sampleWorld ''active'' [] [])) = ((RespondSuccess (Some (PUser 8 ''pw'')), SessionUser 8), w')"
    using register_run by blast
  show ?thesis
    using register_then_login [OF openEnv_calm(1) _ _ w'] w' by (auto simp: openEnv_fields)
qed

section \<open>Names\<close>

text \<open>
  Property C24. A name that is accepted is a host name in normal form: at most 253 bytes, at least two
  labels of 1 to 63 lower-case letters, digits and inner hyphens, and no IP address; and entering
  it again (it is its own ASCII form) yields the same name, so one domain has one row.
\<close>

theorem accepted_names:
  assumes "ValidateDomainName nm raw = Inr d"
  shows "valid_fqdn d \<and> \<not> ParseIP nm d \<and> (toASCII nm d = Some d \<longrightarrow> ValidateDomainName nm d = Inr d)"
  using ValidateDomainName_fqdn [OF assms] ValidateDomainName_stable [of d nm] by blast

lemma accepted_names_witness:
  "valid_fqdn ''example.com'' \<and> ValidateDomainName (namesOf idleEnv) ''example.com'' = Inr ''example.com''"
proof -
  have "ValidateDomainName (namesOf idleEnv) ''Example.com'' = Inr ''example.com''"
    using exampleName by (simp add: domainNameFromInput_def)
  from accepted_names [OF this] show ?thesis by (simp add: namesOf_def)
qed

section \<open>Start\<close>

lemma dedup_keeps_newest:
  assumes "distinct (map cID cs)"
  defines "cs' \<equiv> filter (\<lambda>a. \<not> olderDuplicate cs a) cs"
  shows "distinct (map cDomainID cs')"
    and "\<forall>c \<in> set cs. \<exists>c' \<in> set cs'. cDomainID c' = cDomainID c \<and> cID c \<le> cID c'"
proof -
  have newest: "a \<in> set cs' \<longleftrightarrow> a \<in> set cs \<and> (\<forall>b \<in> set cs. cDomainID b = cDomainID a \<longrightarrow> cID b \<le> cID a)" for a
    by (auto simp: cs'_def olderDuplicate_def list_ex_iff not_less)
  have "inj_on cDomainID (set cs')"
  proof (rule inj_onI)
    fix a b assume "a \<in> set cs'" "b \<in> set cs'" "cDomainID a = cDomainID b"
    then have "a \<in> set cs" "b \<in> set cs" "cID a = cID b" by (auto simp: newest intro: order_antisym)
    then show "a = b" using assms(1) by (metis distinct_key_unique)
  qed
  moreover have "distinct cs'" using assms(1) by (simp add: cs'_def distinct_map)
  ultimately show "distinct (map cDomainID cs')" by (simp add: distinct_map)
  show "\<forall>c \<in> set cs. \<exists>c' \<in> set cs'. cDomainID c' = cDomainID c \<and> cID c \<le> cID c'"
  proof
    fix c assume c: "c \<in> set cs"
    let ?S = "{x \<in> set cs. cDomainID x = cDomainID c}"
    have "Max (cID ` ?S) \<in> cID ` ?S" using c by (intro Max_in) auto
    then obtain m where m: "m \<in> ?S" and max: "cID m = Max (cID ` ?S)" by auto
    have "cID x \<le> cID m" if "x \<in> ?S" for x
      unfolding max using that by (intro Max_ge) auto
    then have "m \<in> set cs'" "cID c \<le> cID m" using m c by (auto simp: newest)
    then show "\<exists>c' \<in> set cs'. cDomainID c' = cDomainID c \<and> cID c \<le> cID c'" using m by auto
  qed
qed

text \<open>The bookkeeping of the jobs.\<close>

definition booksOf ::
  "world \<Rightarrow> nat \<times> jobArgs list \<times> nat \<times> (uint \<times> token) list \<times> token \<times> (uint \<Rightarrow> nat option) \<times> token set" where
  "booksOf w = (slots w, spawned w, jobWG w, jobs w, tokenSeq w, workers w, dom (ctxs w))"

lemma defaults_invalid: "Validate os setDefaults \<noteq> Inr ()"
  by (simp add: Validate_def setDefaults_def Let_def split: sum.splits)

lemma map_sum_eq_Inl: "map_sum f g m = Inl y \<longleftrightarrow> (\<exists>x. m = Inl x \<and> y = f x)"
  by (cases m) auto

lemma map_sum_eq_Inr: "map_sum f g m = Inr y \<longleftrightarrow> (\<exists>x. m = Inr x \<and> y = g x)"
  by (cases m) auto

lemma startUp_valid:
  assumes "Validate (osenv e) (cfg e) = Inr ()"
  obtains v where "run_state (startUp e openPG) (ready, w) = run_state (InitDB e openPG) (ready, v)"
    and "v = w\<lparr>encryptionKey := encryptionKey v\<rparr>"
    and "\<not> IsDevMode (osenv e) (Security (cfg e)) \<longrightarrow> length (encryptionKey v) = 32"
proof -
  obtain v where v: "run_state (InitCrypto e) w = (Inr (), v)" "v = w\<lparr>encryptionKey := encryptionKey v\<rparr>"
      "\<not> IsDevMode (osenv e) (Security (cfg e)) \<longrightarrow> length (encryptionKey v) = 32"
    using InitCrypto_after_Validate [OF assms, of w] by auto
  show ?thesis
    by (rule that [OF _ v(2,3)]) (simp add: startUp_def assms onWorld_def v(1))
qed

text \<open>What InitDB leaves: the same database without the older duplicates, with its unique indexes.\<close>

lemma InitDB_ok:
  assumes "quiet e" and "run_state (InitDB e openPG) (ready, v) = (Inr (), (ready', w'))"
  shows "ready \<and> ready' \<and> indexable w' \<and> encryptionKey w' = encryptionKey v \<and> clock w' = clock v
    \<and> certs w' = filter (\<lambda>a. \<not> olderDuplicate (certs v) a) (certs v) \<and> domains w' = domains v
    \<and> users w' = users v \<and> booksOf w' = booksOf v"
  using assms
  by (auto simp: InitDB_def onTables_def AutoMigrate_def removeDuplicateCertificates_def run_simps settle_quiet
      Let_def booksOf_def split: sum.splits if_splits option.splits prod.splits)

text \<open>
  Property C31. What a server that starts has checked (nothing else runs yet, any faults): a
  configuration that passes validation never fails in the set-up of encryption; and when the start
  succeeds, the configuration that was read is valid, outside dev mode a key of 32 bytes is loaded, the
  tables and their unique indexes are there, no domain has two certificates, and of the ones it
  had, the newest is kept.
\<close>

theorem start_up_outcome:
  assumes "quiet e" and "distinct (map cID (certs w))"
    and "run_state (boot fs e openPG) (ready, w) = (r, (ready', w'))"
  shows "(\<forall>err. r \<noteq> Inl (CryptoFailed err))
    \<and> (\<forall>cf. r = Inr cf \<longrightarrow> initConfig fs = Inr cf \<and> Validate (osenv e) cf = Inr ()
         \<and> (\<not> IsDevMode (osenv e) (Security cf) \<longrightarrow> length (encryptionKey w') = 32)
         \<and> ready' \<and> indexable w' \<and> set (certs w') \<subseteq> set (certs w)
         \<and> (\<forall>c \<in> set (certs w). \<exists>c' \<in> set (certs w'). cDomainID c' = cDomainID c \<and> cID c \<le> cID c'))"
proof (cases "\<exists>cf. initConfig fs = Inr cf \<and> Validate (osenv e) cf = Inr ()")
  case False
  then show ?thesis
    using assms(3) by (auto simp: boot_def startUp_def split: sum.splits)
next
  case True
  then obtain cf where cf: "initConfig fs = Inr cf" "Validate (osenv e) cf = Inr ()" by blast
  let ?e = "e\<lparr>cfg := cf\<rparr>"
  have q: "quiet ?e" using assms(1) by (simp add: quiet_def)
  obtain v where v: "run_state (startUp ?e openPG) (ready, w) = run_state (InitDB ?e openPG) (ready, v)"
      "v = w\<lparr>encryptionKey := encryptionKey v\<rparr>" "\<not> IsDevMode (osenv e) (Security cf) \<longrightarrow> length (encryptionKey v) = 32"
    using startUp_valid [of ?e openPG ready w] cf(2) by auto
  have cv: "certs v = certs w" by (subst v(2)) simp
  have "r \<noteq> Inl (CryptoFailed err)" for err
    using assms(3) cf v(1) by (auto simp: boot_def InitDB_def map_sum_eq_Inl split: sum.splits prod.splits)
  moreover have "initConfig fs = Inr cf' \<and> run_state (InitDB ?e openPG) (ready, v) = (Inr (), (ready', w'))"
    if "r = Inr cf'" for cf'
    using assms(3) cf v(1) that by (auto simp: boot_def map_sum_eq_Inr split: sum.splits prod.splits)
  ultimately show ?thesis
    using InitDB_ok [OF q, of openPG ready v ready' w'] cf v(3) dedup_keeps_newest [OF assms(2)] cv
    by auto
qed

lemma applyDefaults_prod: "applyDefaults prodCfg = prodCfg"
  by (simp add: prodCfg_def applyDefaults_def setDefaults_def dflt_def dflti_def defaultSessionSecret_def
      letsEncryptURL_def)

definition sampleFiles :: files where
  "sampleFiles = \<lparr>CONFIG_PATH = [], Abs = Inr, decodeFile = (\<lambda>_. (prodCfg, None)), IsNotExist = (\<lambda>_. True)\<rparr>"

lemma sampleFiles_Load: "initConfig sampleFiles = Inr prodCfg"
  by (simp add: initConfig_def Load_def sampleFiles_def applyDefaults_prod)

lemma idleEnv_cfg: "cfg idleEnv = prodCfg"
  by (simp add: idleEnv_def)

lemma boot_started:
  assumes "calm e" and "initConfig fs = Inr cf" and "cfg e = cf" and "Validate (osenv e) cf = Inr ()"
    and "openPG (dataSource (Database cf)) = Inr ()"
    and "indexable (w\<lparr>certs := filter (\<lambda>a. \<not> olderDuplicate (certs w) a) (certs w)\<rparr>)"
  shows "\<exists>w'. run_state (boot fs e openPG) (True, w) = (Inr cf, (True, w'))"
proof -
  have same: "e\<lparr>cfg := cf\<rparr> = e" using assms(3) by auto
  obtain v where v: "run_state (InitCrypto e) w = (Inr (), v)" "v = w\<lparr>encryptionKey := encryptionKey v\<rparr>"
    using InitCrypto_after_Validate [of e w] assms(3,4) by auto
  have same_rows: "users v = users w" "domains v = domains w" "certs v = certs w" "accounts v = accounts w"
    by (subst v(2), simp)+
  show ?thesis
    unfolding boot_def assms(2) sum.case same startUp_def assms(3)
    using assms(1,4,5,6) v(1)
    by (auto simp: assms(3) onWorld_def InitDB_def onTables_def removeDuplicateCertificates_def AutoMigrate_def
        run_simps Let_def indexable_def later_def same_rows)
qed

lemma start_up_outcome_witness:
  "\<exists>w' :: world. run_state (boot sampleFiles idleEnv (\<lambda>_. Inr ()))
       (True, sampleWorld ''active'' [sampleCert, sampleCert\<lparr>cID := 2\<rparr>] []) = (Inr prodCfg, (True, w'))
     \<and> indexable w' \<and> length (encryptionKey w') = 32"
proof -
  let ?w = "sampleWorld ''active'' [sampleCert, sampleCert\<lparr>cID := 2\<rparr>] []"
  have "indexable (?w\<lparr>certs := filter (\<lambda>a. \<not> olderDuplicate (certs ?w) a) (certs ?w)\<rparr>)"
    by (simp add: indexable_def sampleWorld_def olderDuplicate_def sampleCert_def)
  from boot_started [OF calm_idleEnv sampleFiles_Load idleEnv_cfg _ _ this, of "\<lambda>_. Inr ()"] prodCfg_valid
  obtain w' where run: "run_state (boot sampleFiles idleEnv (\<lambda>_. Inr ())) (True, ?w) = (Inr prodCfg, (True, w'))"
    by auto
  have "quiet idleEnv" using calm_idleEnv by (simp add: calm_def)
  then show ?thesis
    using start_up_outcome [OF _ _ run] run prodCfg_fields(6) by (auto simp: sampleWorld_def sampleCert_def)
qed

text \<open>
  Property C32. Two servers that cannot be started. Without a configuration file (the path is CONFIG_PATH,
  or config.toml in the working directory, and reading it fails because it does not exist) the defaults
  are used, as the log says, and they never pass validation, not even in dev mode. And a database without
  tables is refused, whatever the configuration: the certificates are deduplicated before the tables are
  created, so the first start on an empty database fails there.
\<close>

theorem start_refusals:
  "(\<forall>path err. Abs fs (if CONFIG_PATH fs = [] then ''./config.toml'' else CONFIG_PATH fs) = Inr path
        \<longrightarrow> snd (decodeFile fs path) = Some err \<longrightarrow> IsNotExist fs err
        \<longrightarrow> initConfig fs = Inr setDefaults \<and> (\<exists>x. fst (run_state (boot fs e openPG) s) = Inl (InvalidConfig x)))
   \<and> (\<forall>cf. fst (run_state (boot fs e openPG) (False, w)) \<noteq> Inr cf)
   \<and> (\<forall>cf. initConfig fs = Inr cf \<longrightarrow> Validate (osenv e) cf = Inr () \<longrightarrow> openPG (dataSource (Database cf)) = Inr ()
        \<longrightarrow> fst (run_state (boot fs e openPG) (False, w)) = Inl (DedupFailed (dbErr DriverError)))"
proof (intro conjI allI impI)
  fix path err
  assume missing: "Abs fs (if CONFIG_PATH fs = [] then ''./config.toml'' else CONFIG_PATH fs) = Inr path"
    "snd (decodeFile fs path) = Some err" "IsNotExist fs err"
  show "initConfig fs = Inr setDefaults"
    using missing by (cases "decodeFile fs path") (simp add: initConfig_def Load_def split: if_splits)
  then show "\<exists>x. fst (run_state (boot fs e openPG) s) = Inl (InvalidConfig x)"
    using defaults_invalid [of "osenv e"] by (cases "Validate (osenv e) setDefaults") (simp_all add: boot_def startUp_def)
next
  fix cf show "fst (run_state (boot fs e openPG) (False, w)) \<noteq> Inr cf"
    by (auto simp: boot_def startUp_def onWorld_def InitDB_def onTables_def split: sum.splits prod.splits)
next
  fix cf assume cf: "initConfig fs = Inr cf" "Validate (osenv e) cf = Inr ()" "openPG (dataSource (Database cf)) = Inr ()"
  obtain v where v: "run_state (startUp (e\<lparr>cfg := cf\<rparr>) openPG) (False, w) = run_state (InitDB (e\<lparr>cfg := cf\<rparr>) openPG) (False, v)"
    using startUp_valid [of "e\<lparr>cfg := cf\<rparr>" openPG False w] cf(2) by auto
  then show "fst (run_state (boot fs e openPG) (False, w)) = Inl (DedupFailed (dbErr DriverError))"
    using cf by (simp add: boot_def InitDB_def onTables_def)
qed

lemma start_refusals_witness:
  "fst (run_state (boot sampleFiles idleEnv (\<lambda>_. Inr ())) (False, sampleWorld ''active'' [] []))
     = Inl (DedupFailed (dbErr DriverError))
   \<and> (\<exists>x. fst (run_state (boot (sampleFiles\<lparr>decodeFile := \<lambda>_. (prodCfg, Some (dbErr DriverError))\<rparr>) idleEnv (\<lambda>_. Inr ()))
        (True, sampleWorld ''active'' [] [])) = Inl (InvalidConfig x))"
proof -
  let ?fs = "sampleFiles\<lparr>decodeFile := \<lambda>_. (prodCfg, Some (dbErr DriverError))\<rparr>"
  have "IsNotExist ?fs (dbErr DriverError)" "Abs ?fs = Inr" by (simp_all add: sampleFiles_def)
  then show ?thesis
    using start_refusals [of sampleFiles idleEnv "\<lambda>_. Inr ()" "(True, sampleWorld ''active'' [] [])" "sampleWorld ''active'' [] []"]
      start_refusals [of ?fs idleEnv "\<lambda>_. Inr ()" "(True, sampleWorld ''active'' [] [])"]
      prodCfg_valid sampleFiles_Load by simp
qed

section \<open>Shutdown\<close>

lemma domains_cancelEntries: "domains (cancelEntries js w) = domains w"
  by (induction js arbitrary: w) (auto simp: cancelEntries_def cancelCtx_def)

lemma keeps_rollbackAll:
  assumes "stable e I" and "tableFree I"
  shows "keeps I (RollbackAllGeneratingDomains e)"
  unfolding RollbackAllGeneratingDomains_def rollbackStuckGenerating_def
  by (intro keeps_intros keeps_queries keeps_registry_reads keeps_wf_reads keeps_frame_status assms)

text \<open>
  What a stopped server leaves behind (no interference, no faults): after the shutdown
  no job of any domain is active, so none can write a result any more, no live domain is
  generating, and every domain that was not generating is unchanged.
\<close>

theorem shutdown_outcome:
  assumes "calm e" and "registry_ok w" and "run_state (shutdown e) w = (finished, w')"
  shows "(\<forall>i t. \<not> activeJob w' i t) \<and> (\<forall>i d. rowOf i w' = Some d \<longrightarrow> dStatus d \<noteq> ''generating'')
    \<and> (\<forall>i. settled i w \<longrightarrow> rowOf i w' = rowOf i w)"
proof -
  let ?v = "snd (run_state (CancelAllCertJobs e) w)"
  let ?u = "later 1 ?v"
  have reg: "registry_ok (settle e w)" using assms(1,2) by (simp add: settle_calm registry_ok_def)
  note cancel = CancelAllCertJobs_cancels [OF reg refl]
  have dom: "domains ?v = domains w"
    using assms(1) by (simp add: CancelAllCertJobs_def run_simps domains_cancelEntries)
  have w': "w' = snd (run_state (RollbackAllGeneratingDomains e) ?u)"
    using assms(1,3) by (simp add: shutdown_def WaitCertJobs_def run_simps split: prod.splits)
  note roll = shutdown_clears_generating [OF assms(1) w']
  let ?I = "\<lambda>x. \<forall>i t. \<not> activeJob x i t"
  have frame: "stable e ?I" "tableFree ?I"
    by (rule stable_calm_env [OF assms(1)]) (simp_all add: tableFree_def restoreTables_def activeJob_def ctxErr_def cong: option.case_cong if_cong)
  have "?I w'"
    unfolding w' by (rule keepsD [OF keeps_rollbackAll [OF frame]]) (use cancel in simp)
  then have "\<not> activeJob w' i t" for i t by blast
  moreover have "settled i w = settled i ?u" "rowOf i ?u = rowOf i w" for i
    using dom by (simp_all add: settled_def rowOf_def)
  ultimately show ?thesis using roll by simp
qed

lemma shutdown_outcome_witness:
  "let w' = snd (run_state (shutdown idleEnv) (sampleWorld ''generating'' [] [(1, 1)]))
   in \<not> activeJob w' 1 1 \<and> (\<forall>d. rowOf 1 w' = Some d \<longrightarrow> dStatus d \<noteq> ''generating'')"
proof -
  obtain b w' where run: "run_state (shutdown idleEnv) (sampleWorld ''generating'' [] [(1, 1)]) = (b, w')"
    by fastforce
  show ?thesis using shutdown_outcome [OF calm_idleEnv sample_registry_ok(2) run] run by simp
qed

end
