(* ===== verification/Job_Books.thy ===== *)
theory Job_Books
  imports Server_Props
begin

text \<open>
  The books of the certificate jobs: the slots, the wait group, the worker counters and the registry.
  \<open>job_books\<close> is the contract of an invariant that looks at nothing else: everything but the
  start of a job and the steps of its goroutine keeps it.
\<close>

section \<open>The contract\<close>

locale job_books =
  fixes e :: env and I :: "world \<Rightarrow> bool"
  assumes stab: "stable e I" and only_books: "booksOf v = booksOf w \<Longrightarrow> I w \<Longrightarrow> I v"
begin

lemma frames: "tableFree I" "accountFree I" "I w \<Longrightarrow> I (cancelEntry d w)"
proof -
  have same: "I v = I w" if "booksOf v = booksOf w" for v w using only_books that by metis
  have "I (restoreTables v w) = I w" for v w by (rule same) (simp add: booksOf_def restoreTables_def)
  moreover have "I (w\<lparr>domains := ds\<rparr>) = I w" "I (w\<lparr>certs := cs\<rparr>) = I w" "I (w\<lparr>certSeq := n\<rparr>) = I w" for w ds cs n
    by (rule same; simp add: booksOf_def)+
  ultimately show "tableFree I" by (simp add: tableFree_def)
  show "accountFree I"
    unfolding accountFree_def by (intro conjI allI; rule same; simp add: booksOf_def)
  have "booksOf (cancelEntry d w) = booksOf w"
    by (auto simp: booksOf_def cancelEntry_def cancelCtx_def split: option.split)
  then show "I w \<Longrightarrow> I (cancelEntry d w)" by (rule only_books)
qed

lemma statement: "(\<And>w. booksOf (snd (f w)) = booksOf w) \<Longrightarrow> keeps I (db e f)"
  by (intro keeps_db stab) (metis only_books)

lemma rows:
  "keeps I (Updates e domains domains_update p g)" "keeps I (DeleteRows e domains domains_update p)"
  "keeps I (DeleteRows e certs certs_update q)"
  "keeps I (CreateDomain e d)" "keeps I (SoftDeleteDomain e i)" "keeps I (CreateUser e m h)"
  unfolding Updates_def DeleteRows_def CreateDomain_def SoftDeleteDomain_def CreateUser_def Let_def
  by (intro statement; simp add: booksOf_def table_update)+

lemma other_tables: "deployFree I"
  unfolding deployFree_def by (intro conjI allI impI; erule only_books [rotated]; simp add: booksOf_def)

lemma dependents: "keeps I (deleteDependents e i)"
  by (intro keeps_dependents stab other_tables rows)

lemma rolled_back: "keeps I (rollbackGeneratingDomain e i msg rv)"
  unfolding UpdatesDomain_def by (rule keeps_rollback [OF stab]) (simp add: UpdatesDomain_def rows)

end

sublocale job_books \<subseteq> scope: table_scope e I i for i
  by (rule table_scope.intro) (auto intro!: stab rows rolled_back other_tables dependents keeps_bind)

sublocale job_books \<subseteq> request: table_request e I i u for i u
  by (rule table_request.intro) (rule stab, rule scope.table_scope_axioms)

section \<open>What keeps the books\<close>

context job_books
begin

lemma add: "keeps I (AddDomain e c)"
proof -
  note base = keeps_intros keeps_queries keeps_wf_reads scope.reads dependents rows stab
  have "keeps I (isUnclaimedDomain e d)" for d
    unfolding isUnclaimedDomain_def by (intro base)
  moreover have "keeps I (assignUnclaimedDomainToUser e i u)" for i u
    unfolding assignUnclaimedDomainToUser_def UpdatesDomain_def by (intro base)
  ultimately have live: "keeps I (addLive e d u)" for d u
    unfolding addLive_def claimUnclaimedDomain_def UpdatesDomain_def Let_def by (intro base)
  have restored: "keeps I (addRestored e d)" for d
    unfolding addRestored_def restoreDeletedDomain_def by (intro base)
  have new: "keeps I (addNew e u n)" for u n
    unfolding addNew_def createDomainRecord_def UpdatesDomain_def Let_def by (intro base)
  have remove: "keeps I (permanentlyRemoveDomain e i)" for i
    unfolding permanentlyRemoveDomain_def by (intro base)
  have "keeps I (addNamed e u n)" for u n
    unfolding addNamed_def by (intro base live restored new remove)
  then show ?thesis
    unfolding AddDomain_def by (auto intro: keeps_return split: sum.split)
qed

lemma register: "keeps I (Register e c)"
  unfolding Register_def HashPassword_def openSession_def
  by (intro keeps_intros keeps_queries keeps_read rows stab)

lemma lock: "keeps I (lockDomainForCertJob e row renew)"
  by (intro keeps_lock frames stab)

lemma job: "keeps I (runCertJob e c domain user renew ar t)"
  by (intro keeps_frame_job frames stab)

lemma rollback_stuck: "keeps I (rollbackStuckGenerating e d force)"
  unfolding rollbackStuckGenerating_def
  by (intro keeps_intros keeps_registry_reads keeps_wf_reads scope.rollback stab)

lemma cleanup: "keeps I (runStuckGeneratingCleanup e timeout)"
  unfolding runStuckGeneratingCleanup_def Let_def
  by (intro keeps_intros keeps_queries keeps_registry_reads keeps_cancel keeps_wait rollback_stuck frames stab)

lemma not_issuing:
  assumes "h \<notin> issuing"
  shows "keeps I (handle e b c h)"
proof (cases "h \<in> {HAddDomain, HRegister}")
  case True
  then show ?thesis using add register keeps_wrappers by auto
next
  case False
  obtain i where i: "parseDomainID (pathID c) \<in> {None, Some i}" by (cases "parseDomainID (pathID c)") auto
  obtain u where u: "GetUserID c \<in> {None, Some u}" by (cases "GetUserID c") auto
  show ?thesis by (rule request.table_handlers [OF False assms i u])
qed

end

end
