(* ===== verification/Job_Phases.thy ===== *)
theory Job_Phases
  imports Job_Books
begin

text \<open>
  Where the goroutines of the certificate jobs stand, and the books as a count of them. A job is
  a position in the list of started goroutines; its phase says which of the deferred calls of
  its goroutine have run. \<open>books\<close> is the accounting that ties the counters of the server to the
  phases, with \<open>n\<close> slots taken by an operation that has not started its goroutine yet.
\<close>

section \<open>Counting\<close>

fun tally :: "nat \<Rightarrow> (nat \<Rightarrow> bool) \<Rightarrow> nat" where
  "tally 0 A = 0"
| "tally (Suc n) A = tally n A + (if A n then 1 else 0)"

lemma tally_cong [fundef_cong]: "m = n \<Longrightarrow> (\<And>k. k < n \<Longrightarrow> A k = B k) \<Longrightarrow> tally m A = tally n B"
  by (induction n arbitrary: m) auto

lemma tally_flip:
  assumes "k < n" and "A k" and "\<not> B k" and "\<And>j. j \<noteq> k \<Longrightarrow> A j = B j"
  shows "tally n A = Suc (tally n B)"
  using assms(1)
proof (induction n)
  case (Suc n)
  then show ?case
    using assms(2-4) tally_cong [of n n A B] by (cases "k = n") auto
qed simp

lemma tally_pos: "k < n \<Longrightarrow> A k \<Longrightarrow> 0 < tally n A"
  by (induction n) (auto simp: less_Suc_eq)

lemma tally_none: "tally n A = 0 \<longleftrightarrow> (\<forall>k < n. \<not> A k)"
  by (induction n) (auto simp: less_Suc_eq)

section \<open>Phases\<close>

datatype phase = Spawned | Working | Returned | SlotFreed | Unregistered | Counted | Ended

definition holdsSlot :: "phase \<Rightarrow> bool" where
  "holdsSlot p \<longleftrightarrow> p \<in> {Spawned, Working, Returned}"

definition mayBeRegistered :: "phase \<Rightarrow> bool" where
  "mayBeRegistered p \<longleftrightarrow> holdsSlot p \<or> p = SlotFreed"

definition inWaitGroup :: "phase \<Rightarrow> bool" where
  "inWaitGroup p \<longleftrightarrow> mayBeRegistered p \<or> p = Unregistered"

definition isTracked :: "phase \<Rightarrow> bool" where
  "isTracked p \<longleftrightarrow> p \<noteq> Spawned \<and> (inWaitGroup p \<or> p = Counted)"

lemmas phase_defs = holdsSlot_def mayBeRegistered_def inWaitGroup_def isTracked_def

lemma phase_spawned: "holdsSlot Spawned" "mayBeRegistered Spawned" "inWaitGroup Spawned" "\<not> isTracked Spawned"
  by (simp_all add: phase_defs)

definition jobDom :: "world \<Rightarrow> nat \<Rightarrow> uint" where
  "jobDom w k = dID (jobDomain (spawned w ! k))"

definition jobTok :: "world \<Rightarrow> nat \<Rightarrow> token" where
  "jobTok w k = jobToken (spawned w ! k)"

definition workerCount :: "world \<Rightarrow> uint \<Rightarrow> nat" where
  "workerCount w d = (case workers w d of None \<Rightarrow> 0 | Some n \<Rightarrow> n)"

definition books :: "env \<Rightarrow> nat \<Rightarrow> (nat \<Rightarrow> phase) \<Rightarrow> world \<Rightarrow> bool" where
  "books e n ph w \<longleftrightarrow>
     (\<forall>k \<ge> length (spawned w). ph k = Spawned)
     \<and> slots w = n + tally (length (spawned w)) (\<lambda>k. holdsSlot (ph k)) \<and> slots w \<le> certJobSlotsCap e
     \<and> jobWG w = tally (length (spawned w)) (\<lambda>k. inWaitGroup (ph k))
     \<and> (\<forall>d. workerCount w d = tally (length (spawned w)) (\<lambda>k. isTracked (ph k) \<and> jobDom w k = d))
     \<and> tokenSeq w = of_nat (length (spawned w))
     \<and> (\<forall>k < length (spawned w). jobTok w k = of_nat (Suc k))
     \<and> (\<forall>d t. entry w d = Some t \<longrightarrow>
          (\<exists>k < length (spawned w). mayBeRegistered (ph k) \<and> jobDom w k = d \<and> jobTok w k = t))
     \<and> (\<forall>d t. entry w d = Some t \<longrightarrow> t \<in> dom (ctxs w))"

lemma books_cong: "booksOf v = booksOf w \<Longrightarrow> books e n ph w \<Longrightarrow> books e n ph v"
  by (simp add: booksOf_def books_def workerCount_def jobDom_def jobTok_def)

interpretation bookkeeping: job_books "alone e" "books e n ph" for e n ph
proof
  show "stable (alone e) (books e n ph)"
    by (rule stable_alone) (auto elim!: books_cong [rotated] simp: booksOf_def)
qed (rule books_cong)

lemma alone_fields [simp]: "cfg (alone e) = cfg e" "certJobSlotsCap (alone e) = certJobSlotsCap e"
  by (simp_all add: alone_def certJobSlotsCap_def)

lemma settle_alone: "settle (alone e) w = later 1 w"
  by (simp add: settle_def alone_def later_def)

lemma books_later: "books e n ph w \<Longrightarrow> books e n ph (later m w)"
  by (rule books_cong) (simp_all add: booksOf_def)

section \<open>Pre- and postconditions\<close>

text \<open>\<open>takes I m Q\<close>: from a state with \<open>I\<close>, \<open>m\<close> ends in a result and a state with \<open>Q\<close>.\<close>

definition takes :: "('s \<Rightarrow> bool) \<Rightarrow> ('s, 'a) state \<Rightarrow> ('a \<Rightarrow> 's \<Rightarrow> bool) \<Rightarrow> bool" where
  "takes I m Q \<longleftrightarrow> (\<forall>s. I s \<longrightarrow> (case run_state m s of (x, s') \<Rightarrow> Q x s'))"

lemma takes_keeps: "keeps I m \<Longrightarrow> takes I m (\<lambda>_. I)"
  by (simp add: takes_def keeps_def split_beta)

lemma keeps_takes: "takes I m (\<lambda>_. I) \<Longrightarrow> keeps I m"
  by (simp add: takes_def keeps_def split_beta)

lemma takes_bind: "takes I m R \<Longrightarrow> (\<And>x. takes (R x) (f x) Q) \<Longrightarrow> takes I (State_Monad.bind m f) Q"
  by (fastforce simp: takes_def split: prod.splits)

lemma takes_return: "(\<And>s. I s \<Longrightarrow> Q x s) \<Longrightarrow> takes I (State_Monad.return x) Q"
  by (simp add: takes_def)

section \<open>Starting a job\<close>

lemma acquire_books:
  "takes (books e 0 ph) (tryAcquireCertJobSlot (alone e)) (\<lambda>b. books e (if b then 1 else 0) ph)"
  by (auto simp: takes_def run_simps settle_alone sendSlot_def books_def workerCount_def jobDom_def jobTok_def)

text \<open>An operation that is granted holds a slot.\<close>

abbreviation granting :: "env \<Rightarrow> (nat \<Rightarrow> phase) \<Rightarrow> ('r + UserRow) option \<Rightarrow> world \<Rightarrow> bool" where
  "granting e ph r \<equiv> books e (case r of Some (Inr _) \<Rightarrow> 1 | _ \<Rightarrow> 0) ph"

lemma lockAndAcquire_books: "takes (books e 0 ph) (lockAndAcquire (alone e) d renew) (granting e ph)"
  unfolding lockAndAcquire_def
  by (rule takes_bind [OF takes_keeps [OF bookkeeping.lock]])
    (auto intro!: takes_return takes_bind [OF acquire_books] takes_bind [OF takes_keeps [OF bookkeeping.scope.rollback]]
      split: option.split sum.split)

lemma begin_books: "takes (books e 0 ph) (beginCertOperation (alone e) d renew) (granting e ph)"
proof -
  have mark: "keeps (books e 0 ph) (markIfFirst (alone e) d renew)"
    unfolding markIfFirst_def by (intro keeps_intros keeps_wf_reads bookkeeping.scope.mark bookkeeping.stab)
  show ?thesis
    unfolding beginCertOperation_def
    by (auto intro!: takes_return takes_bind [OF takes_keeps [OF keeps_Verify [OF bookkeeping.stab]]]
        takes_bind [OF takes_keeps [OF mark]] lockAndAcquire_books split: sum.split)
qed

text \<open>Registering the job and starting its goroutine turn the taken slot into a slot of the job.\<close>

lemma started_books:
  assumes "books e 1 ph w" and "dID (jobDomain j) = d" and "jobToken j = tokenSeq w + 1"
    and "v = (registerJob d dl w)\<lparr>tick := m, jobWG := Suc (jobWG (registerJob d dl w)), spawned := spawned w @ [j]\<rparr>"
  shows "books e 0 ph v"
proof -
  let ?n = "length (spawned w)"
  have eqs: "spawned v = spawned w @ [j]" "slots v = slots w" "jobWG v = Suc (jobWG w)"
    "tokenSeq v = tokenSeq w + 1" "entry v = (entry w)(d \<mapsto> tokenSeq w + 1)" "workerCount v = workerCount w"
    by (simp_all add: assms(4) registerJob_def Let_def update_conv' workerCount_def fun_eq_iff)
  have ctx: "t \<in> dom (ctxs v)" if "entry v c = Some t" for c t
  proof (cases "t = tokenSeq w + 1")
    case False
    then have "entry w c = Some t" using that by (auto simp: eqs split: if_splits)
    then have "t \<in> dom (ctxs w)" using assms(1) unfolding books_def by blast
    then show ?thesis by (auto simp: assms(4) registerJob_def Let_def)
  qed (simp add: assms(4) registerJob_def Let_def)
  have old: "jobDom v k = jobDom w k" "jobTok v k = jobTok w k" if "k < ?n" for k
    using that by (simp_all add: jobDom_def jobTok_def eqs nth_append)
  have new: "jobDom v ?n = d" "jobTok v ?n = tokenSeq w + 1" "ph ?n = Spawned"
    using assms by (simp_all add: jobDom_def jobTok_def eqs books_def)
  have tracked: "tally ?n (\<lambda>k. isTracked (ph k) \<and> jobDom v k = c) = tally ?n (\<lambda>k. isTracked (ph k) \<and> jobDom w k = c)"
    for c by (rule tally_cong) (simp_all add: old)
  have entries: "\<exists>k < Suc ?n. mayBeRegistered (ph k) \<and> jobDom v k = c \<and> jobTok v k = t"
    if "entry v c = Some t" for c t
  proof (cases "c = d")
    case True
    then show ?thesis using that new phase_spawned eqs by auto
  next
    case False
    then have "entry w c = Some t" using that eqs by simp
    then obtain k where "k < ?n" "mayBeRegistered (ph k)" "jobDom w k = c" "jobTok w k = t"
      using assms(1) unfolding books_def by blast
    then show ?thesis using old by (metis less_SucI)
  qed
  have "\<forall>k < Suc ?n. jobTok v k = of_nat (Suc k)"
    using assms(1) old new by (auto simp: books_def less_Suc_eq)
  then show ?thesis
    using assms(1) entries ctx new tracked
    by (simp add: books_def eqs phase_spawned del: fun_upd_apply)
qed

lemma start_books:
  assumes "0 < generatingTimeout e"
  shows "takes (books e 1 ph) (StartCertJob (alone e) d u renew ar) (\<lambda>_. books e 0 ph)"
proof -
  have "takes (books e 1 ph) (beginCertJob (alone e) (dID d))
    (\<lambda>r v. \<exists>w dl. books e 1 ph w \<and> r = Some (tokenSeq w + 1) \<and> v = registerJob (dID d) dl w)" (is "takes _ _ ?registered")
  proof -
    have cancel: "keeps (books e 1 ph) (act (alone e) (\<lambda>w. ((), cancelEntry i w)))" for i
      by (intro keeps_act bookkeeping.stab) (simp add: bookkeeping.frames)
    have wait: "takes (books e 1 ph) (waitDomainWorker (alone e) i (generatingTimeout e))
        (\<lambda>r w. r \<noteq> None \<and> books e 1 ph w)" for i
      unfolding takes_def split_beta
    proof (intro allI impI conjI)
      fix s assume "books e 1 ph s"
      then show "books e 1 ph (snd (run_state (waitDomainWorker (alone e) i (generatingTimeout e)) s))"
        by (rule keepsD [OF keeps_wait [OF bookkeeping.stab]])
      show "fst (run_state (waitDomainWorker (alone e) i (generatingTimeout e)) s) \<noteq> None"
        using wait_returns [OF assms, of "alone e" i s] by force
    qed
    have register: "takes (books e 1 ph) (act (alone e) (\<lambda>w.
         (let w' = registerJob (dID d) (clock w + generatingTimeout e) w in (Some (tokenSeq w'), w')))) ?registered"
      unfolding takes_def run_act settle_alone Let_def prod.case registerJob_token
      by (intro allI impI exI conjI, erule books_later) (rule refl)+
    show ?thesis
      unfolding beginCertJob_def alone_fields
      by (rule takes_bind [OF takes_keeps [OF cancel]], rule takes_bind [OF wait])
        (use register in \<open>auto simp: takes_def split: option.split\<close>)
  qed
  then show ?thesis
    unfolding StartCertJob_def
    by (rule takes_bind)
      (auto simp: takes_def run_simps settle_alone later_def intro!: started_books [OF _ _ _ refl])
qed

section \<open>Every operation keeps the books\<close>

lemma issue_books:
  assumes "0 < generatingTimeout e"
  shows "keeps (books e 0 ph) (issueCertificateInternal (alone e) c i renew)"
proof -
  have start: "takes (books e (Suc 0) ph) (State_Monad.bind (StartCertJob (alone e) d u f ar) (\<lambda>s. State_Monad.return (h s)))
      (\<lambda>_. books e 0 ph)" for d u f ar and h :: "unit option \<Rightarrow> 'b"
    by (rule takes_bind [OF start_books [OF assms, unfolded One_nat_def]]) (simp add: takes_return)
  have op: "keeps (books e 0 ph) (State_Monad.bind (beginCertOperation (alone e) d f) k)"
    if "\<And>r. takes (granting e ph r) (k r) (\<lambda>_. books e 0 ph)" for d f k
    by (rule keeps_takes) (rule takes_bind [OF begin_books that])
  show ?thesis
    unfolding issueCertificateInternal_def
    by (intro keeps_intros keeps_wf_reads keeps_queries bookkeeping.stab op)
      (auto intro: takes_return start split: option.split sum.split)
qed

lemma renewal_books:
  assumes "0 < generatingTimeout e"
  shows "keeps (books e 0 ph) (tryAutoRenewDomain (alone e) d)"
proof -
  have "takes (books e 0 ph) (lockAndStartRenewal (alone e) d) (\<lambda>_. books e 0 ph)"
    unfolding lockAndStartRenewal_def
    by (rule takes_bind [OF takes_keeps [OF bookkeeping.lock]])
      (auto intro!: takes_return takes_bind [OF acquire_books] takes_bind [OF takes_keeps [OF bookkeeping.scope.rollback]]
        start_books [OF assms, unfolded One_nat_def] split: option.split sum.split)
  then have "keeps (books e 0 ph) (lockAndStartRenewal (alone e) d)" by (rule keeps_takes)
  then show ?thesis
    unfolding tryAutoRenewDomain_def inBackoff_def
    by (intro keeps_intros keeps_queries bookkeeping.stab)
qed

lemma scan_books: "0 < generatingTimeout e \<Longrightarrow> keeps (books e 0 ph) (runRenewalScan (alone e))"
  unfolding runRenewalScan_def Let_def
  by (intro keeps_intros keeps_queries bookkeeping.stab renewal_books)

lemma handle_books:
  assumes "0 < generatingTimeout e"
  shows "keeps (books e 0 ph) (handle (alone e) b c h)"
proof (cases "h \<in> issuing")
  case True
  have "keeps (books e 0 ph) (IssueCertificate (alone e) c)" for c
    unfolding IssueCertificate_def
    by (intro keeps_intros bookkeeping.stab) (auto intro: keeps_return issue_books [OF assms] split: sum.split bindError.split)
  moreover have "keeps (books e 0 ph) (startByBody (alone e) c renew)" for c renew
    unfolding startByBody_def by (auto intro: keeps_return issue_books [OF assms] split: sum.split)
  ultimately show ?thesis
    using True keeps_wrappers(2) by (auto simp: issuing_def GenerateCertificate_def RenewCertificate_def)
qed (rule bookkeeping.not_issuing)

lemma serve_books:
  assumes "0 < generatingTimeout e"
  shows "keeps (books e 0 ph) (serve (alone e) lib b k g)"
proof -
  obtain rt where "\<And>rt'. callRoute k = Some rt' \<Longrightarrow> rt' = rt" by (cases "callRoute k") auto
  then show ?thesis by (intro keeps_serve handle_books assms bookkeeping.stab)
qed

lemma shutdown_books:
  shows "keeps (books e n ph) (CancelAllCertJobs (alone e))" and "keeps (books e n ph) (WaitCertJobs (alone e) timeout)"
    and "keeps (books e n ph) (RollbackAllGeneratingDomains (alone e))"
proof -
  have "booksOf (cancelEntries es w) = booksOf w" for es w
  proof (induction es arbitrary: w)
    case (Cons x es)
    have "booksOf (cancelCtx (snd x) w) = booksOf w" by (auto simp: cancelCtx_def booksOf_def split: if_splits)
    then show ?case using Cons by (cases x) (simp add: cancelEntries_def)
  qed (simp add: cancelEntries_def)
  then show "keeps (books e n ph) (CancelAllCertJobs (alone e))"
    unfolding CancelAllCertJobs_def
    by (intro keeps_act bookkeeping.stab) (metis bookkeeping.only_books snd_conv)
  show "keeps (books e n ph) (WaitCertJobs (alone e) timeout)"
    unfolding WaitCertJobs_def by (intro keeps_read bookkeeping.stab)
  show "keeps (books e n ph) (RollbackAllGeneratingDomains (alone e))"
    unfolding RollbackAllGeneratingDomains_def
    by (intro keeps_intros keeps_queries bookkeeping.rollback_stuck bookkeeping.stab)
qed

end
