(* ===== verification/Lifecycle.thy ===== *)
theory Lifecycle
  imports Job_Phases
begin

text \<open>
  The server as a state machine: requests, the scheduler, the clock and the goroutines of the jobs
  take turns. A request, a cleanup, a scan and the body of a job are one step each, the deferred
  calls of a goroutine and the three calls of the shutdown are a step each, so the goroutines of
  different jobs interleave between them. The properties are the accounting of the jobs in every reachable state.
\<close>

section \<open>The steps\<close>

type_synonym 'l sys = "world \<times> (nat \<Rightarrow> phase) \<times> 'l gateway"

inductive step :: "env \<Rightarrow> 'l bucketLib \<Rightarrow> bindings \<Rightarrow> 'l sys \<Rightarrow> 'l sys \<Rightarrow> bool" for e lib b where
  Request: "run_state (serve (alone e) lib b c g) w = ((r, g'), w') \<Longrightarrow> step e lib b (w, ph, g) (w', ph, g')"
| Cleanup: "run_state (runStuckGeneratingCleanup (alone e) (generatingTimeout e)) w = (r, w') \<Longrightarrow>
    step e lib b (w, ph, g) (w', ph, g)"
| Scan: "run_state (runRenewalScan (alone e)) w = (r, w') \<Longrightarrow> step e lib b (w, ph, g) (w', ph, g)"
| CancelJobs: "run_state (CancelAllCertJobs (alone e)) w = (r, w') \<Longrightarrow> step e lib b (w, ph, g) (w', ph, g)"
| WaitJobs: "run_state (WaitCertJobs (alone e) timeout) w = (r, w') \<Longrightarrow> step e lib b (w, ph, g) (w', ph, g)"
| Rollback: "run_state (RollbackAllGeneratingDomains (alone e)) w = (r, w') \<Longrightarrow> step e lib b (w, ph, g) (w', ph, g)"
| Elapse: "step e lib b (w, ph, g) (w\<lparr>clock := clock w + int n\<rparr>, ph, g)"
| Begin: "k < length (spawned w) \<Longrightarrow> ph k = Spawned \<Longrightarrow>
    run_state (beginDomainWorker (alone e) (jobDom w k)) w = (r, w') \<Longrightarrow>
    step e lib b (w, ph, g) (w', ph(k := Working), g)"
| Body: "k < length (spawned w) \<Longrightarrow> ph k = Working \<Longrightarrow> j = spawned w ! k \<Longrightarrow>
    run_state (runCertJob (alone e) (JobCtx (jobToken j)) (jobDomain j) (jobUser j) (jobRenew j)
      (jobAutoRenew j) (jobToken j)) w = (True, w') \<Longrightarrow>
    step e lib b (w, ph, g) (w', ph(k := Returned), g)"
| FreeSlot: "k < length (spawned w) \<Longrightarrow> ph k = Returned \<Longrightarrow>
    run_state (releaseCertJobSlot (alone e)) w = (r, w') \<Longrightarrow> step e lib b (w, ph, g) (w', ph(k := SlotFreed), g)"
| Unregister: "k < length (spawned w) \<Longrightarrow> ph k = SlotFreed \<Longrightarrow>
    run_state (releaseCertJob (alone e) (jobDom w k) (jobTok w k)) w = (r, w') \<Longrightarrow>
    step e lib b (w, ph, g) (w', ph(k := Unregistered), g)"
| CountDown: "k < length (spawned w) \<Longrightarrow> ph k = Unregistered \<Longrightarrow>
    run_state (act (alone e) (\<lambda>w. ((), doneJob w))) w = (r, w') \<Longrightarrow>
    step e lib b (w, ph, g) (w', ph(k := Counted), g)"
| End: "k < length (spawned w) \<Longrightarrow> ph k = Counted \<Longrightarrow>
    run_state (endDomainWorker (alone e) (jobDom w k)) w = (r, w') \<Longrightarrow>
    step e lib b (w, ph, g) (w', ph(k := Ended), g)"

text \<open>A server that has just started has no job.\<close>

definition fresh :: "world \<Rightarrow> bool" where
  "fresh w \<longleftrightarrow> slots w = 0 \<and> spawned w = [] \<and> jobWG w = 0 \<and> jobs w = [] \<and> tokenSeq w = 0 \<and> workers w = Map.empty"

definition reachable :: "env \<Rightarrow> 'l bucketLib \<Rightarrow> bindings \<Rightarrow> 'l sys \<Rightarrow> bool" where
  "reachable e lib b s \<longleftrightarrow> (\<exists>w0 g0. fresh w0 \<and> (step e lib b)\<^sup>*\<^sup>* (w0, \<lambda>_. Spawned, g0) s)"

section \<open>The books balance\<close>

lemma books_fresh: "fresh w \<Longrightarrow> books e 0 (\<lambda>_. Spawned) w"
  by (simp add: fresh_def booksOf_def books_def workerCount_def)

text \<open>One goroutine moves on: a count changes when its phase leaves or enters what is counted.\<close>

lemma tally_moved:
  assumes "k < n" and "ph k = p"
  shows "tally n (\<lambda>j. P j ((ph(k := q)) j)) + of_bool (P k p) = tally n (\<lambda>j. P j (ph j)) + of_bool (P k q)"
proof -
  define A B where "A j = P j (ph j)" and "B j = P j ((ph(k := q)) j)" for j
  have other: "A j = B j" if "j \<noteq> k" for j using that by (simp add: A_def B_def)
  have at: "A k = P k p" "B k = P k q" using assms(2) by (simp_all add: A_def B_def)
  have "tally n B + of_bool (A k) = tally n A + of_bool (B k)"
  proof (cases "A k = B k")
    case True
    then have "tally n A = tally n B" by (intro tally_cong refl) (metis other)
    with True show ?thesis by simp
  next
    case False
    then show ?thesis
      using tally_flip [OF assms(1), of A B] tally_flip [OF assms(1), of B A] other by (cases "A k") auto
  qed
  then have "tally n B + of_bool (P k p) = tally n A + of_bool (P k q)" unfolding at .
  then show ?thesis unfolding A_def B_def .
qed

lemma books_move:
  assumes "books e n ph w" and "k < length (spawned w)" and "ph k = p"
    and "spawned v = spawned w" and "tokenSeq v = tokenSeq w"
    and "slots v + of_bool (holdsSlot p) = slots w + of_bool (holdsSlot q)" and "slots v \<le> slots w"
    and "jobWG v + of_bool (inWaitGroup p) = jobWG w + of_bool (inWaitGroup q)"
    and "\<And>d. workerCount v d + of_bool (isTracked p \<and> jobDom w k = d)
      = workerCount w d + of_bool (isTracked q \<and> jobDom w k = d)"
    and "\<And>d t. entry v d = Some t \<Longrightarrow>
      entry w d = Some t \<and> (mayBeRegistered p \<longrightarrow> mayBeRegistered q \<or> (d, t) \<noteq> (jobDom w k, jobTok w k))"
    and "dom (ctxs w) \<subseteq> dom (ctxs v)"
  shows "books e n (ph(k := q)) v"
proof -
  note moved = tally_moved [where ph = ph and q = q, OF assms(2,3)]
  have same: "jobDom v = jobDom w" "jobTok v = jobTok w"
    by (simp_all add: jobDom_def jobTok_def fun_eq_iff assms(4))
  have tracked: "workerCount v d
      = tally (length (spawned w)) (\<lambda>j. isTracked ((ph(k := q)) j) \<and> jobDom w j = d)" for d
    using moved [of "\<lambda>j p. isTracked p \<and> jobDom w j = d"] assms(1) assms(9) [of d] unfolding books_def by force
  have entries: "\<exists>j < length (spawned w). mayBeRegistered ((ph(k := q)) j) \<and> jobDom w j = d \<and> jobTok w j = t"
    if v: "entry v d = Some t" for d t
  proof -
    obtain j where "j < length (spawned w)" "mayBeRegistered (ph j)" "jobDom w j = d" "jobTok w j = t"
      using assms(1) assms(10) [OF v] unfolding books_def by blast
    then show ?thesis using assms(3) assms(10) [OF v] by (intro exI [of _ j]) auto
  qed
  have "slots v = n + tally (length (spawned w)) (\<lambda>j. holdsSlot ((ph(k := q)) j))"
    "jobWG v = tally (length (spawned w)) (\<lambda>j. inWaitGroup ((ph(k := q)) j))"
    using moved [of "\<lambda>j. holdsSlot"] moved [of "\<lambda>j. inWaitGroup"] assms(1,6,8) unfolding books_def by linarith+
  moreover have "t \<in> dom (ctxs v)" if "entry v d = Some t" for d t
    using assms(1,11) assms(10) [OF that] unfolding books_def by blast
  ultimately show ?thesis
    using assms(1,2,7) tracked entries unfolding books_def assms(4,5) same by auto
qed

text \<open>Every step keeps the books.\<close>

lemma track_worker:
  "workerCount (workerAdd d (domainWorkerTrackerFor d w)) c = workerCount w c + of_bool (d = c)"
  "workerCount (later m w) = workerCount w"
  "\<exists>f. workerAdd d (domainWorkerTrackerFor d w) = w\<lparr>workers := f\<rparr>"
  by (auto simp: workerAdd_def domainWorkerTrackerFor_def workerCount_def booksOf_def fun_eq_iff
      split: option.split)

lemma begin_moves:
  assumes "books e n ph w" and "k < length (spawned w)" and "ph k = Spawned"
    and "run_state (beginDomainWorker (alone e) (jobDom w k)) w = (r, w')"
  shows "books e n (ph(k := Working)) w'"
proof -
  have w': "w' = workerAdd (jobDom w k) (domainWorkerTrackerFor (jobDom w k) (later 1 w))"
    using assms(4) by (simp add: run_simps settle_alone)
  obtain f where f: "w' = (later 1 w)\<lparr>workers := f\<rparr>" using track_worker(3) w' by blast
  show ?thesis
  proof (rule books_move [OF assms(1-3)])
    show "workerCount w' d + of_bool (isTracked Spawned \<and> jobDom w k = d)
        = workerCount w d + of_bool (isTracked Working \<and> jobDom w k = d)" for d
      unfolding w' track_worker(1) by (simp add: phase_defs track_worker(2) del: One_nat_def)
  qed (simp_all add: f phase_defs)
qed

lemma body_moves:
  assumes "books e n ph w" and "k < length (spawned w)" and "ph k = Working"
    and "run_state (runCertJob (alone e) c d u renew ar t) w = (r, w')"
  shows "books e n (ph(k := Returned)) w'"
proof -
  let ?I = "\<lambda>v. booksOf v = booksOf w"
  have st: "stable (alone e) ?I" by (rule stable_alone) (simp add: booksOf_def)
  have "keeps ?I (runCertJob (alone e) c d u renew ar t)"
    by (rule keeps_frame_job [OF st]) (simp_all add: tableFree_def accountFree_def booksOf_def restoreTables_def)
  then have "booksOf w' = booksOf w" using keepsD [of ?I _ w] assms(4) by fastforce
  then show ?thesis
    by (intro books_move [OF assms(1-3)]) (auto simp: booksOf_def workerCount_def phase_defs)
qed

lemma slot_moves:
  assumes "books e n ph w" and "k < length (spawned w)" and "ph k = Returned"
    and "run_state (releaseCertJobSlot (alone e)) w = (r, w')"
  shows "books e n (ph(k := SlotFreed)) w'"
proof -
  have "0 < slots w"
    using assms(1) tally_pos [OF assms(2), of "\<lambda>j. holdsSlot (ph j)"] assms(3)
    by (simp add: books_def phase_defs)
  then show ?thesis
    using assms(4) by (intro books_move [OF assms(1-3)])
      (auto simp: run_simps settle_alone recvSlot_def workerCount_def phase_defs)
qed

lemma release_moves:
  assumes "books e n ph w" and "k < length (spawned w)" and "ph k = SlotFreed"
    and "run_state (releaseCertJob (alone e) (jobDom w k) (jobTok w k)) w = (r, w')"
  shows "books e n (ph(k := Unregistered)) w'"
proof -
  have w': "w' = endJob (jobDom w k) (jobTok w k) (later 1 w)" using assms(4) by (simp add: run_simps settle_alone)
  have "booksOf w' = (slots w, spawned w, jobWG w, jobs w', tokenSeq w, workers w, dom (ctxs w))"
    by (simp add: w' endJob_def booksOf_def split: option.split)
  then show ?thesis
    by (intro books_move [OF assms(1-3)])
      (auto simp: booksOf_def workerCount_def phase_defs w' registry.reg_finish split: if_splits)
qed

lemma count_moves:
  assumes "books e n ph w" and "k < length (spawned w)" and "ph k = Unregistered"
    and "run_state (act (alone e) (\<lambda>w. ((), doneJob w))) w = (r, w')"
  shows "books e n (ph(k := Counted)) w'"
proof -
  have "0 < jobWG w"
    using assms(1) tally_pos [OF assms(2), of "\<lambda>j. inWaitGroup (ph j)"] assms(3)
    by (simp add: books_def phase_defs)
  then show ?thesis
    using assms(4) by (intro books_move [OF assms(1-3)])
      (auto simp: run_simps settle_alone doneJob_def workerCount_def phase_defs)
qed

lemma end_moves:
  assumes "books e n ph w" and "k < length (spawned w)" and "ph k = Counted"
    and "run_state (endDomainWorker (alone e) (jobDom w k)) w = (r, w')"
  shows "books e n (ph(k := Ended)) w'"
proof -
  have "0 < workerCount w (jobDom w k)"
    using assms(1) tally_pos [OF assms(2), of "\<lambda>j. isTracked (ph j) \<and> jobDom w j = jobDom w k"] assms(3)
    by (simp add: books_def phase_defs)
  then show ?thesis
    using assms(4) by (intro books_move [OF assms(1-3)])
      (auto simp: run_simps settle_alone workerDone_def workerCount_def phase_defs split: option.splits)
qed

lemma step_books:
  assumes "0 < generatingTimeout e" and "books e 0 ph w" and "step e lib b (w, ph, g) (w', ph', g')"
  shows "books e 0 ph' w'"
proof -
  have op: "run_state m w = (x, v) \<Longrightarrow> keeps (books e 0 ph) m \<Longrightarrow> books e 0 ph v" for m :: "(world, 'x) state" and x v
    using keepsD [of "books e 0 ph" m w] assms(2) by simp
  have elapse: "books e 0 ph (w\<lparr>clock := t\<rparr>)" for t
    by (rule books_cong [OF _ assms(2)]) (simp add: booksOf_def)
  show ?thesis
    using assms(3)
  proof (cases rule: step.cases)
    case Request
    then show ?thesis using op [OF _ serve_books [OF assms(1)]] by blast
  next
    case Cleanup
    then show ?thesis using op [OF _ bookkeeping.cleanup] by blast
  next
    case Scan
    then show ?thesis using op [OF _ scan_books [OF assms(1)]] by blast
  next
    case CancelJobs
    then show ?thesis using op [OF _ shutdown_books(1)] by blast
  next
    case WaitJobs
    then show ?thesis using op [OF _ shutdown_books(2)] by blast
  next
    case Rollback
    then show ?thesis using op [OF _ shutdown_books(3)] by blast
  next
    case Elapse
    then show ?thesis using elapse by blast
  next
    case Begin
    then show ?thesis using begin_moves [OF assms(2)] by blast
  next
    case Body
    then show ?thesis using body_moves [OF assms(2)] by blast
  next
    case FreeSlot
    then show ?thesis using slot_moves [OF assms(2)] by blast
  next
    case Unregister
    then show ?thesis using release_moves [OF assms(2)] by blast
  next
    case CountDown
    then show ?thesis using count_moves [OF assms(2)] by blast
  next
    case End
    then show ?thesis using end_moves [OF assms(2)] by blast
  qed
qed

lemma reachable_books:
  assumes "0 < generatingTimeout e" and "reachable e lib b (w, ph, g)"
  shows "books e 0 ph w"
proof -
  have "books e 0 (fst (snd s)) (fst s)" if "(step e lib b)\<^sup>*\<^sup>* (w0, \<lambda>_. Spawned, g0) s" and "fresh w0" for w0 g0 s
    using that
  proof (induction rule: rtranclp_induct)
    case base
    then show ?case by (simp add: books_fresh)
  next
    case (step s s')
    then show ?case
      by (cases s; cases s') (auto intro: step_books [OF assms(1)])
  qed
  then show ?thesis using assms(2) unfolding reachable_def by fastforce
qed

section \<open>Every job can end\<close>

text \<open>A library that does not panic while it obtains or renews; a panic while it registers is recovered.\<close>

definition sturdy :: "env \<Rightarrow> bool" where
  "sturdy e \<longleftrightarrow> (\<forall>n d. \<exists>x. legoObtain e n d = Returns x) \<and> (\<forall>n r. \<exists>x. legoRenew e n r = Returns x)
     \<and> (\<forall>n. legoRegister e n \<noteq> Exits)"

abbreviation noExit :: "(world, 'a outcome) state \<Rightarrow> bool" where
  "noExit m \<equiv> post (\<lambda>r _. r \<noteq> Exits) m"

lemma post_bind_result:
  "post P m \<Longrightarrow> (\<And>x s. P x s \<Longrightarrow> post Q (f x)) \<Longrightarrow> post Q (State_Monad.bind m f)"
  by (simp add: post_def split_beta) blast

lemma map_Exits [simp]: "map_outcome h x = Exits \<longleftrightarrow> x = Exits"
  by (cases x) simp_all

lemma noExit_checkedO: "noExit m \<Longrightarrow> (\<And>x. noExit (f x)) \<Longrightarrow> noExit (checkedO m f)"
  unfolding checkedO_def
  by (erule post_bind_result) (auto intro!: post_return split: outcome.split sum.split)

lemma noExit_returns [simp]: "noExit (returns m)"
  unfolding returns_def by (intro post_intros) simp

lemma noExit_runACME:
  assumes "\<And>w. \<exists>x. fst (run_state run w) = Returns x"
  shows "noExit (runACMEWithContext e c run)"
proof -
  have "post (\<lambda>r _. \<exists>x. r = Returns x) (checkedO (returns (requireACMEActive e c)) (\<lambda>_. run))"
    using assms by (auto simp: post_def run_simps split: prod.split sum.split)
  then show ?thesis
    unfolding runACMEWithContext_def
    by (intro noExit_checkedO noExit_returns; elim post_bind_result)
      (auto intro!: post_intros noExit_checkedO)
qed

lemma noExit_acme:
  assumes "sturdy e"
  shows "noExit (prepareACME e c u m)" and "noExit (ObtainCertificate e c u d m)"
    and "noExit (RenewExistingCertificate e c u m x)"
proof -
  have adopt: "noExit (adoptRegistration e user u err)" for user err
    unfolding adoptRegistration_def by (intro post_intros) simp
  have register: "post (\<lambda>r _. r \<noteq> Exits) (act e (\<lambda>w. (legoRegister e (tick w), w)))"
    using assms by (simp add: post_def run_simps sturdy_def)
  have "noExit (ensureRegistered e c user u)" for user
    unfolding ensureRegistered_def
    by (intro noExit_checkedO noExit_returns post_if post_case_option post_return; (rule post_bind_result [OF register])?)
      (auto intro!: post_return post_bind adopt split: outcome.split sum.split)
  then show prep: "noExit (prepareACME e c u m)"
    unfolding prepareACME_def by (intro noExit_checkedO noExit_returns)
  have obtain_: "noExit (obtainWithContext e c d)" for d
    unfolding obtainWithContext_def
    using assms by (intro noExit_runACME) (simp add: run_simps sturdy_def)
  show obt: "noExit (ObtainCertificate e c u d m)" for d
    unfolding ObtainCertificate_def by (intro noExit_checkedO prep obtain_)
  have renew: "noExit (renewWithContext e c x)"
    unfolding renewWithContext_def
    using assms by (intro noExit_runACME) (simp add: run_simps sturdy_def)
  show "noExit (RenewExistingCertificate e c u m x)"
    unfolding RenewExistingCertificate_def
    by (intro noExit_checkedO prep post_if obt, rule post_bind_result [OF renew])
      (auto intro!: post_return split: outcome.split sum.split)
qed

lemma sturdy_job:
  assumes "sturdy e"
  shows "fst (run_state (runCertJob e c d u renew ar t) w)"
proof -
  have "noExit (acquireCertificate e c d u renew ar t)"
    unfolding acquireCertificate_def Let_def
    by (intro post_bind_result [OF noExit_acme(2) [OF assms]] post_bind_result [OF noExit_acme(3) [OF assms]]
        post_bind post_case_sum post_if post_return) auto
  note acquire = post_bind_result [OF this]
  have "noExit (certJobBody e c d u renew ar t)"
    unfolding certJobBody_def
    by (intro acquire post_bind post_case_option post_case_sum post_if noExit_returns)
      (auto intro!: post_return split: outcome.split acquired.split sum.split)
  then have "post (\<lambda>r _. r) (runCertJob e c d u renew ar t)"
    unfolding runCertJob_def
    by (elim post_bind_result) (auto intro!: post_return post_bind split: outcome.split)
  then show ?thesis by (simp add: post_def)
qed

lemma tally_all: "(\<And>k. k < n \<Longrightarrow> A k) \<Longrightarrow> tally n A = n"
  by (induction n) auto

lemma unit_run: "\<exists>v. run_state m w = ((), v)"
  by (metis old.unit.exhaust surj_pair)

text \<open>The steps of a goroutine leave the list of started goroutines alone.\<close>

lemma goroutine_spawned:
  "spawned (snd (run_state (beginDomainWorker (alone e) d) w)) = spawned w"
  "spawned (snd (run_state (runCertJob (alone e) c row u renew ar t) w)) = spawned w"
  "spawned (snd (run_state (releaseCertJobSlot (alone e)) w)) = spawned w"
  "spawned (snd (run_state (releaseCertJob (alone e) d t) w)) = spawned w"
  "spawned (snd (run_state (act (alone e) (\<lambda>w. ((), doneJob w))) w)) = spawned w"
  "spawned (snd (run_state (endDomainWorker (alone e) d) w)) = spawned w"
proof -
  let ?I = "\<lambda>v. spawned v = spawned w"
  have "stable (alone e) ?I" by (rule stable_alone) simp
  then have "keeps ?I (runCertJob (alone e) c row u renew ar t)"
    by (rule keeps_frame_job) (simp_all add: tableFree_def accountFree_def restoreTables_def)
  then show "spawned (snd (run_state (runCertJob (alone e) c row u renew ar t) w)) = spawned w"
    using keepsD [of ?I _ w] by simp
  show "spawned (snd (run_state (beginDomainWorker (alone e) d) w)) = spawned w"
    using track_worker(3) [of d "later 1 w"] by (auto simp: run_simps settle_alone)
qed (auto simp: run_simps settle_alone recvSlot_def endJob_def doneJob_def workerDone_def split: option.split)

lemma goroutine_kept:
  "run_state (beginDomainWorker (alone e) d) w = (r1, v) \<Longrightarrow> spawned v = spawned w"
  "run_state (runCertJob (alone e) c row u renew ar t) w = (r2, v) \<Longrightarrow> spawned v = spawned w"
  "run_state (releaseCertJobSlot (alone e)) w = (r3, v) \<Longrightarrow> spawned v = spawned w"
  "run_state (releaseCertJob (alone e) d t) w = (r4, v) \<Longrightarrow> spawned v = spawned w"
  "run_state (act (alone e) (\<lambda>w. ((), doneJob w))) w = (r5, v) \<Longrightarrow> spawned v = spawned w"
  "run_state (endDomainWorker (alone e) d) w = (r6, v) \<Longrightarrow> spawned v = spawned w"
  using goroutine_spawned by (metis snd_conv)+

lemma same_jobs: "spawned v = spawned w \<Longrightarrow> jobDom v = jobDom w \<and> jobTok v = jobTok w"
  by (simp add: jobDom_def jobTok_def fun_eq_iff)

text \<open>A goroutine that has not ended can take its next step.\<close>

fun rank :: "phase \<Rightarrow> nat" where
  "rank Spawned = 6" | "rank Working = 5" | "rank Returned = 4" | "rank SlotFreed = 3"
| "rank Unregistered = 2" | "rank Counted = 1" | "rank Ended = 0"

lemma next_step:
  assumes "sturdy e" and "k < length (spawned w)" and "ph k \<noteq> Ended"
  shows "\<exists>w' q. step e lib b (w, ph, g) (w', ph(k := q), g) \<and> spawned w' = spawned w \<and> rank q < rank (ph k)"
proof (cases "ph k")
  case Spawned
  obtain w' where "run_state (beginDomainWorker (alone e) (jobDom w k)) w = ((), w')" by (rule exE [OF unit_run])
  from step.Begin [of k w ph, OF assms(2) Spawned this] goroutine_kept(1) [OF this] Spawned show ?thesis
    by (intro exI [of _ w'] exI [of _ Working]) simp
next
  case Working
  let ?j = "spawned w ! k"
  have "fst (run_state (runCertJob (alone e) (JobCtx (jobToken ?j)) (jobDomain ?j) (jobUser ?j)
      (jobRenew ?j) (jobAutoRenew ?j) (jobToken ?j)) w)"
    by (rule sturdy_job) (use assms(1) in \<open>simp add: sturdy_def alone_def\<close>)
  then obtain w' where run: "run_state (runCertJob (alone e) (JobCtx (jobToken ?j)) (jobDomain ?j) (jobUser ?j)
      (jobRenew ?j) (jobAutoRenew ?j) (jobToken ?j)) w = (True, w')" by (metis (full_types) prod.collapse)
  from step.Body [of k w ph, OF assms(2) Working refl this] goroutine_kept(2) [OF this] Working show ?thesis
    by (intro exI [of _ w'] exI [of _ Returned]) simp
next
  case Returned
  obtain w' where "run_state (releaseCertJobSlot (alone e)) w = ((), w')" by (rule exE [OF unit_run])
  from step.FreeSlot [of k w ph, OF assms(2) Returned this] goroutine_kept(3) [OF this] Returned show ?thesis
    by (intro exI [of _ w'] exI [of _ SlotFreed]) simp
next
  case SlotFreed
  obtain w' where "run_state (releaseCertJob (alone e) (jobDom w k) (jobTok w k)) w = ((), w')"
    by (rule exE [OF unit_run])
  from step.Unregister [of k w ph, OF assms(2) SlotFreed this] goroutine_kept(4) [OF this] SlotFreed show ?thesis
    by (intro exI [of _ w'] exI [of _ Unregistered]) simp
next
  case Unregistered
  obtain w' where "run_state (act (alone e) (\<lambda>w. ((), doneJob w))) w = ((), w')" by (rule exE [OF unit_run])
  from step.CountDown [of k w ph, OF assms(2) Unregistered this] goroutine_kept(5) [OF this] Unregistered show ?thesis
    by (intro exI [of _ w'] exI [of _ Counted]) simp
next
  case Counted
  obtain w' where "run_state (endDomainWorker (alone e) (jobDom w k)) w = ((), w')" by (rule exE [OF unit_run])
  from step.End [of k w ph, OF assms(2) Counted this] goroutine_kept(6) [OF this] Counted show ?thesis
    by (intro exI [of _ w'] exI [of _ Ended]) simp
qed (use assms(3) in simp)

text \<open>
  The steps in which a goroutine moves on, and how many a state has left at most: every move
  lowers \<open>remaining\<close>, and none is possible only when every goroutine has ended.
\<close>

definition goroutine :: "env \<Rightarrow> 'l bucketLib \<Rightarrow> bindings \<Rightarrow> 'l sys \<Rightarrow> 'l sys \<Rightarrow> bool" where
  "goroutine e lib b s s' \<longleftrightarrow> step e lib b s s' \<and> fst (snd s') \<noteq> fst (snd s)"

definition remaining :: "'l sys \<Rightarrow> nat" where
  "remaining s = (\<Sum>k < length (spawned (fst s)). rank (fst (snd s) k))"

lemma remaining_moved:
  assumes "k < length (spawned w)" and "rank q < rank (ph k)" and "spawned w' = spawned w"
  shows "remaining (w', ph(k := q), g') < remaining (w, ph, g)"
proof -
  have "(\<Sum>j < length (spawned w). rank ((ph(k := q)) j)) < (\<Sum>j < length (spawned w). rank (ph j))"
    by (rule sum_strict_mono_ex1) (use assms(1,2) in auto)
  then show ?thesis using assms(3) by (simp add: remaining_def)
qed

lemma goroutine_lowers:
  assumes "goroutine e lib b s s'"
  shows "remaining s' < remaining s \<and> spawned (fst s') = spawned (fst s)"
proof -
  have "step e lib b s s'" and other: "fst (snd s') \<noteq> fst (snd s)" using assms by (simp_all add: goroutine_def)
  then show ?thesis
  proof (cases rule: step.cases)
    case (Begin k w ph r w' g)
    then show ?thesis using goroutine_kept(1) remaining_moved [of k w Working ph w'] by simp
  next
    case (Body k w ph j w' g)
    then show ?thesis using goroutine_kept(2) remaining_moved [of k w Returned ph w'] by simp
  next
    case (FreeSlot k w ph r w' g)
    then show ?thesis using goroutine_kept(3) remaining_moved [of k w SlotFreed ph w'] by simp
  next
    case (Unregister k w ph r w' g)
    then show ?thesis using goroutine_kept(4) remaining_moved [of k w Unregistered ph w'] by simp
  next
    case (CountDown k w ph r w' g)
    then show ?thesis using goroutine_kept(5) remaining_moved [of k w Counted ph w'] by simp
  next
    case (End k w ph r w' g)
    then show ?thesis using goroutine_kept(6) remaining_moved [of k w Ended ph w'] by simp
  qed (use other in simp_all)
qed

lemma goroutines_bounded:
  "(goroutine e lib b ^^ n) s s' \<Longrightarrow> n + remaining s' \<le> remaining s \<and> spawned (fst s') = spawned (fst s)"
proof (induction n arbitrary: s')
  case (Suc n)
  then obtain v where "(goroutine e lib b ^^ n) s v" "goroutine e lib b v s'" by auto
  then show ?case using Suc.IH [of v] goroutine_lowers [of e lib b v s'] by auto
qed simp

lemma goroutine_stuck:
  assumes "sturdy e" and "\<And>s. \<not> goroutine e lib b (w, ph, g) s" and "k < length (spawned w)"
  shows "ph k = Ended"
proof (rule ccontr)
  assume "ph k \<noteq> Ended"
  from next_step [where ph = ph, OF assms(1,3) this] obtain w' q where "step e lib b (w, ph, g) (w', ph(k := q), g)" "rank q < rank (ph k)"
    by blast
  then have "goroutine e lib b (w, ph, g) (w', ph(k := q), g)"
    by (auto simp: goroutine_def dest: fun_cong [where x = k])
  then show False using assms(2) by blast
qed

lemma goroutines_end: "\<exists>s'. (goroutine e lib b)\<^sup>*\<^sup>* s s' \<and> (\<forall>s''. \<not> goroutine e lib b s' s'')"
proof (induction "remaining s" arbitrary: s rule: less_induct)
  case less
  show ?case
  proof (cases "\<exists>v. goroutine e lib b s v")
    case True
    then obtain v where v: "goroutine e lib b s v" by blast
    from less [of v] goroutine_lowers [OF v] obtain s' where
      "(goroutine e lib b)\<^sup>*\<^sup>* v s'" "\<forall>s''. \<not> goroutine e lib b s' s''" by blast
    then show ?thesis using converse_rtranclp_into_rtranclp [of "goroutine e lib b", OF v] by blast
  qed blast
qed

lemma goroutines_are_steps: "(goroutine e lib b)\<^sup>*\<^sup>* s s' \<Longrightarrow> (step e lib b)\<^sup>*\<^sup>* s s'"
  by (erule rtranclp_mono [THEN predicate2D, rotated]) (auto simp: goroutine_def)

lemma rank_le: "rank p \<le> 6"
  by (cases p) simp_all

lemma remaining_le: "remaining s \<le> 6 * length (spawned (fst s))"
  unfolding remaining_def using sum_bounded_above [of "{..<length (spawned (fst s))}" "\<lambda>k. rank (fst (snd s) k)" 6] rank_le
  by (simp add: mult.commute)

end
