(* ===== verification/Lifecycle_Props.thy ===== *)
theory Lifecycle_Props
  imports Lifecycle
begin

text \<open>
  What holds in every state the server can reach: the counters account for the goroutines of the
  jobs, a domain has one active goroutine, and the jobs can always end and leave nothing behind.
\<close>

section \<open>A server with one job\<close>

lemma alone_idle [simp]: "alone idleEnv = idleEnv"
  using calm_idleEnv by (intro alone_quiet) (simp add: calm_def)

definition startedWorld :: world where
  "startedWorld = (sampleWorld ''active'' [sampleCert] [])\<lparr>tokenSeq := 0\<rparr>"

lemma fresh_started: "fresh startedWorld"
  by (simp add: fresh_def booksOf_def startedWorld_def sampleWorld_def)

lemma scan_starts:
  "\<exists>r w j. run_state (runRenewalScan idleEnv) startedWorld = (r, w)
     \<and> spawned w = [j] \<and> dID (jobDomain j) = 1 \<and> activeJob w 1 (jobToken j)"
proof -
  have renew: "RenewBeforeDays (Renewal prodCfg) = 30" "10 * Day \<le> 30 * Day"
    by (simp_all add: prodCfg_def setDefaults_def Day_def Hour_def)
  have fields: "domains startedWorld = [sampleDomain ''active'']" "certs startedWorld = [sampleCert]"
    "users startedWorld = [sampleUser]" "clock startedWorld = 50 * Day" "jobs startedWorld = []"
    "slots startedWorld = 0" "spawned startedWorld = []"
    by (simp_all add: startedWorld_def)
  have "run_state (VerifyChallengeCNAME idleEnv ''example.com'' ''1.cname.yourservice.com'') (later n startedWorld)
      = (Inr (), later (Suc n) startedWorld)" for n
    unfolding prod_eq_iff fst_conv snd_conv Verify_ok Verify_state by (simp add: sample_cname run_simps)
  moreover obtain r w where run: "run_state (runRenewalScan idleEnv) startedWorld = (r, w)" by (rule prod.exhaust)
  ultimately have "\<exists>u v x. run_state (StartCertJob idleEnv (sampleDomain ''active'') u True True) v = (x, w) \<and> spawned v = []"
    using renew
    by (auto simp: runRenewalScan_def tryAutoRenewDomain_def inBackoff_def lockAndStartRenewal_def lockDomainForCertJob_def
        run_simps run_clearStaleJob_calm takeLock_def lockUpd.run_updates First_def Find_def Let_def inflight_def
        FirstDomain_def fields live_def byID_def lockable_def userByID_def sendSlot_def user7 certJobSlotsCap_pos
        certOfDomain_def simp del: run_Verify One_nat_def split: prod.splits option.splits if_splits)
      (rule exI, rule exI, rule conjI, rule exI, assumption, simp add: fields)+
  then obtain u v x where job: "run_state (StartCertJob idleEnv (sampleDomain ''active'') u True True) v = (x, w)"
    and v: "spawned v = []" by blast
  have "0 < generatingTimeout idleEnv" by (simp add: Minute_def)
  from start_registers [OF calm_idleEnv this job] v run show ?thesis by auto
qed

lemma reachable_start: "reachable idleEnv lib b (startedWorld, \<lambda>_. Spawned, g)"
  unfolding reachable_def using fresh_started by blast

lemma reachable_step:
  "reachable e lib b s \<Longrightarrow> (step e lib b)\<^sup>*\<^sup>* s s' \<Longrightarrow> reachable e lib b s'"
  unfolding reachable_def by (meson rtranclp_trans)

text \<open>The state after the scan: one goroutine, which has not begun.\<close>

lemma reachable_job:
  "\<exists>w j. reachable idleEnv lib b (w, \<lambda>_. Spawned, g) \<and> spawned w = [j] \<and> dID (jobDomain j) = 1
     \<and> activeJob w 1 (jobToken j)"
proof -
  obtain r w j where w: "run_state (runRenewalScan idleEnv) startedWorld = (r, w)" "spawned w = [j]"
      "dID (jobDomain j) = 1" "activeJob w 1 (jobToken j)"
    using scan_starts by blast
  then have "step idleEnv lib b (startedWorld, \<lambda>_. Spawned, g) (w, \<lambda>_. Spawned, g)"
    by (intro step.Scan [of idleEnv startedWorld r w]) simp
  then show ?thesis using reachable_step [OF reachable_start r_into_rtranclp] w by blast
qed

lemma unat_token: "unat (of_nat n :: token) = n mod 2 ^ 64"
  by (simp add: unat_of_nat)

lemma idle_timeout: "0 < generatingTimeout idleEnv"
  by (simp add: Minute_def)

section \<open>The accounting\<close>

text \<open>
  Property C8. The counters account for the goroutines: whatever requests, cleanups, scans and shutdowns
  have run, whichever statements of the database failed and in whatever order the goroutines of the
  jobs moved on, the slots in use are the goroutines that have not given theirs back and never
  exceed the cap, the wait group of the shutdown counts those that are not done, and the tracker of
  a domain counts its goroutines at work.
\<close>

theorem books_balance:
  assumes "0 < generatingTimeout e" and "reachable e lib b (w, ph, g)"
  shows "slots w = tally (length (spawned w)) (\<lambda>k. holdsSlot (ph k)) \<and> slots w \<le> certJobSlotsCap e
    \<and> jobWG w = tally (length (spawned w)) (\<lambda>k. inWaitGroup (ph k))
    \<and> (\<forall>d. workerCount w d = tally (length (spawned w)) (\<lambda>k. isTracked (ph k) \<and> jobDom w k = d))"
  using reachable_books [OF assms] by (simp add: books_def)

theorem books_balance_witness:
  "\<exists>w g. reachable idleEnv sampleLib sampleBindings (w, \<lambda>_. Spawned, g) \<and> slots w = 1 \<and> jobWG w = 1"
proof -
  obtain w j where "reachable idleEnv sampleLib sampleBindings (w, \<lambda>_. Spawned, noLimits)" "spawned w = [j]"
    using reachable_job by blast
  with books_balance [OF idle_timeout this(1)] have "slots w = 1" "jobWG w = 1"
    by (simp_all add: phase_spawned)
  then show ?thesis using \<open>reachable _ _ _ _\<close> by blast
qed

text \<open>
  Property C7. One domain has one active job: in every reachable state, before the counter of the tokens
  wraps around after 2^64 jobs, the token that is active for a domain belongs to exactly one
  goroutine ever started, which works on that domain and has not released its registration.
\<close>

theorem active_job_unique:
  assumes "0 < generatingTimeout e" and "reachable e lib b (w, ph, g)" and "length (spawned w) < 2 ^ 64"
    and "activeJob w d t"
  shows "\<exists>k < length (spawned w). jobTok w k = t \<and> jobDom w k = d \<and> mayBeRegistered (ph k)
    \<and> (\<forall>j < length (spawned w). jobTok w j = t \<longrightarrow> j = k)"
proof -
  note B = reachable_books [OF assms(1,2), unfolded books_def]
  obtain k where k: "k < length (spawned w)" "mayBeRegistered (ph k)" "jobDom w k = d" "jobTok w k = t"
    using B assms(4) unfolding activeJob_def by blast
  have "j = k" if j: "j < length (spawned w)" "jobTok w j = t" for j
  proof -
    have "(of_nat (Suc j) :: token) = of_nat (Suc k)" using B j k by metis
    then have "Suc j mod 2 ^ 64 = Suc k mod 2 ^ 64" by (metis unat_token)
    then have "Suc j = Suc k" using assms(3) j k by simp
    then show ?thesis by simp
  qed
  then show ?thesis using k by blast
qed

theorem active_job_unique_witness:
  "\<exists>w :: world. activeJob w 1 (jobTok w 0) \<and> jobDom w 0 = 1"
proof -
  obtain w j where w: "reachable idleEnv sampleLib sampleBindings (w, \<lambda>_. Spawned, noLimits)" "spawned w = [j]"
      "activeJob w 1 (jobToken j)"
    using reachable_job by blast
  have "\<exists>k < length (spawned w). jobTok w k = jobToken j \<and> jobDom w k = 1 \<and> mayBeRegistered Spawned
      \<and> (\<forall>i < length (spawned w). jobTok w i = jobToken j \<longrightarrow> i = k)"
    by (rule active_job_unique [OF idle_timeout w(1) _ w(3)]) (simp add: w(2))
  then have "activeJob w 1 (jobTok w 0) \<and> jobDom w 0 = 1" using w(2,3) by (auto simp: jobTok_def)
  then show ?thesis by blast
qed

section \<open>The end of the jobs\<close>

text \<open>
  Property C15. The goroutine of a job is what its deferred calls make it: run without a break, \<open>worker\<close>
  goes through the phases of the state machine one by one, from started to ended, and starts no
  other goroutine.
\<close>

theorem worker_refines_steps:
  assumes "run_state (worker (alone e) (spawned w ! k)) w = (True, w')" and "k < length (spawned w)"
    and "ph k = Spawned"
  shows "(step e lib b)\<^sup>*\<^sup>* (w, ph, g) (w', ph(k := Ended), g) \<and> spawned w' = spawned w"
proof -
  let ?j = "spawned w ! k" and ?e = "alone e"
  obtain w1 where w1: "run_state (beginDomainWorker ?e (jobDom w k)) w = ((), w1)" by (rule exE [OF unit_run])
  obtain ok w2 where w2: "run_state (runCertJob ?e (JobCtx (jobToken ?j)) (jobDomain ?j) (jobUser ?j)
      (jobRenew ?j) (jobAutoRenew ?j) (jobToken ?j)) w1 = (ok, w2)" by (rule prod.exhaust)
  obtain w3 where w3: "run_state (releaseCertJobSlot ?e) w2 = ((), w3)" by (rule exE [OF unit_run])
  obtain w4 where w4: "run_state (releaseCertJob ?e (jobDom w k) (jobTok w k)) w3 = ((), w4)" by (rule exE [OF unit_run])
  obtain w5 where w5: "run_state (act ?e (\<lambda>w. ((), doneJob w))) w4 = ((), w5)" by (rule exE [OF unit_run])
  obtain w6 where w6: "run_state (endDomainWorker ?e (jobDom w k)) w5 = ((), w6)" by (rule exE [OF unit_run])
  note runs = w1 [unfolded jobDom_def] w2 w3 w4 [unfolded jobDom_def jobTok_def] w5 w6 [unfolded jobDom_def]
  have "run_state (worker ?e ?j) w = (if ok then (True, w6) else (False, w2))"
    unfolding worker_def by (cases ok) (simp_all only: run_state_bind runs prod.case if_True if_False
        not_True_eq_False not_False_eq_True run_state_return)
  then have ok: "ok" and w': "w' = w6" using assms(1) by (simp_all split: if_splits)
  note s1 = goroutine_kept(1) [OF w1]
  note s2 = goroutine_kept(2) [OF w2, unfolded s1]
  note s3 = goroutine_kept(3) [OF w3, unfolded s2]
  note s4 = goroutine_kept(4) [OF w4, unfolded s3]
  note s5 = goroutine_kept(5) [OF w5, unfolded s4]
  note s6 = goroutine_kept(6) [OF w6, unfolded s5]
  let ?s = "step e lib b"
  have st1: "?s (w, ph, g) (w1, ph(k := Working), g)"
    by (rule step.Begin) (rule assms(2), rule assms(3), rule w1)
  have st2: "?s (w1, ph(k := Working), g) (w2, (ph(k := Working))(k := Returned), g)"
    by (rule step.Body [where j = ?j]) (use assms(2) s1 w2 ok in auto)
  have st3: "?s (w2, (ph(k := Working))(k := Returned), g) (w3, (ph(k := Returned))(k := SlotFreed), g)"
    using step.FreeSlot [of k w2 "ph(k := Returned)"] assms(2) s2 w3 by simp
  have st4: "?s (w3, (ph(k := Returned))(k := SlotFreed), g) (w4, (ph(k := SlotFreed))(k := Unregistered), g)"
    using step.Unregister [of k w3 "ph(k := SlotFreed)"] assms(2) same_jobs [OF s3] s3 w4 by simp
  have st5: "?s (w4, (ph(k := SlotFreed))(k := Unregistered), g) (w5, (ph(k := Unregistered))(k := Counted), g)"
    using step.CountDown [of k w4 "ph(k := Unregistered)"] assms(2) s4 w5 by simp
  have st6: "?s (w5, (ph(k := Unregistered))(k := Counted), g) (w6, (ph(k := Counted))(k := Ended), g)"
    using step.End [of k w5 "ph(k := Counted)"] assms(2) same_jobs [OF s5] s5 w6 by simp
  have "?s\<^sup>*\<^sup>* (w, ph, g) (w6, (ph(k := Counted))(k := Ended), g)"
    by (intro converse_rtranclp_into_rtranclp [where r = ?s, OF st1] converse_rtranclp_into_rtranclp [where r = ?s, OF st2]
        converse_rtranclp_into_rtranclp [where r = ?s, OF st3] converse_rtranclp_into_rtranclp [where r = ?s, OF st4]
        converse_rtranclp_into_rtranclp [where r = ?s, OF st5] r_into_rtranclp [where r = ?s, OF st6])
  then show ?thesis using s6 w' by simp
qed

theorem worker_refines_steps_witness:
  "\<exists>w'. (step idleEnv sampleLib sampleBindings)\<^sup>*\<^sup>*
     ((sampleWorld ''generating'' [] [(1, 1)])\<lparr>spawned := [sampleJob]\<rparr>, \<lambda>_. Spawned, noLimits)
     (w', (\<lambda>_. Spawned)(0 := Ended), noLimits)"
proof -
  let ?w = "(sampleWorld ''generating'' [] [(1, 1)])\<lparr>spawned := [sampleJob]\<rparr>"
  obtain ok w' where run: "run_state (worker idleEnv (spawned ?w ! 0)) ?w = (ok, w')" by (rule prod.exhaust)
  have "ok"
    using run
    by (auto simp: worker_def runCertJob_def certJobBody_def sampleJob_def run_simps
        split: prod.splits option.splits)
  then show ?thesis
    using worker_refines_steps [of idleEnv ?w 0 w' "\<lambda>_. Spawned"] run by auto
qed

text \<open>What is left when every goroutine has ended.\<close>

lemma drained:
  assumes "0 < generatingTimeout e" and "sturdy e" and "reachable e lib b (w, ph, g)"
    and "\<And>s. \<not> goroutine e lib b (w, ph, g) s"
  shows "slots w = 0 \<and> jobWG w = 0 \<and> (\<forall>d. \<not> inflight w d \<and> workerCount w d = 0)"
proof -
  note B = reachable_books [OF assms(1,3), unfolded books_def]
  note ended = goroutine_stuck [OF assms(2,4)]
  have none: "tally (length (spawned w)) (\<lambda>k. P k (ph k)) = 0" if "\<And>k. \<not> P k Ended" for P
    unfolding tally_none using ended that by simp
  have "\<not> inflight w d" for d
  proof
    assume "inflight w d"
    then obtain t where "entry w d = Some t" by (auto simp: inflight_def)
    then obtain k where "k < length (spawned w)" "mayBeRegistered (ph k)" using B by blast
    then show False using ended by (simp add: phase_defs)
  qed
  then show ?thesis
    using B none [of "\<lambda>_. holdsSlot"] none [of "\<lambda>_. inWaitGroup"] none [of "\<lambda>k p. isTracked p \<and> jobDom w k = d" for d]
    by (simp add: phase_defs)
qed

text \<open>
  Property C14. Nothing leaks, whatever the schedule: from every reachable state, as long as the CA library
  does not panic outside the reach of a recover, the goroutines that were started make at most
  six moves each, and where none can move any more, whatever statements failed on the way, no slot
  is taken, no domain has a registered job or a worker, and the shutdown that waits finds the jobs
  finished unless its own timer fires first.
\<close>

theorem jobs_drain:
  assumes "0 < generatingTimeout e" and "sturdy e" and "reachable e lib b (w, ph, g)"
  shows "(\<forall>n s. (goroutine e lib b ^^ n) (w, ph, g) s \<longrightarrow> n \<le> 6 * length (spawned w))
    \<and> (\<forall>w' ph' g'. (goroutine e lib b)\<^sup>*\<^sup>* (w, ph, g) (w', ph', g') \<longrightarrow> (\<forall>s. \<not> goroutine e lib b (w', ph', g') s) \<longrightarrow>
        spawned w' = spawned w \<and> slots w' = 0 \<and> jobWG w' = 0 \<and> (\<forall>d. \<not> inflight w' d \<and> workerCount w' d = 0)
        \<and> fst (run_state (WaitCertJobs (alone e) timeout) w') = (\<not> timerFires e (Suc (tick w'))))"
proof (intro conjI allI impI)
  show "n \<le> 6 * length (spawned w)" if "(goroutine e lib b ^^ n) (w, ph, g) s" for n s
    using goroutines_bounded [OF that] remaining_le [of "(w, ph, g)"] by simp
next
  fix w' ph' g'
  assume path: "(goroutine e lib b)\<^sup>*\<^sup>* (w, ph, g) (w', ph', g')" and last: "\<forall>s. \<not> goroutine e lib b (w', ph', g') s"
  have "reachable e lib b (w', ph', g')" by (rule reachable_step [OF assms(3) goroutines_are_steps [OF path]])
  from drained [OF assms(1,2) this] last
  show "slots w' = 0" "jobWG w' = 0" "\<not> inflight w' d" "workerCount w' d = 0" for d by auto
  then show "fst (run_state (WaitCertJobs (alone e) timeout) w') = (\<not> timerFires e (Suc (tick w')))"
    by (simp add: WaitCertJobs_def run_simps settle_alone) (simp add: alone_def)
  show "spawned w' = spawned w" using path goroutines_bounded by (metis fst_conv rtranclp_power)
qed

theorem jobs_drain_witness:
  "\<exists>w :: world. spawned w \<noteq> [] \<and> slots w = 0 \<and> jobWG w = 0"
proof -
  obtain w j where w: "reachable idleEnv sampleLib sampleBindings (w, \<lambda>_. Spawned, noLimits)" "spawned w = [j]"
    using reachable_job by blast
  obtain v ph g where v: "(goroutine idleEnv sampleLib sampleBindings)\<^sup>*\<^sup>* (w, \<lambda>_. Spawned, noLimits) (v, ph, g)"
      "\<forall>s. \<not> goroutine idleEnv sampleLib sampleBindings (v, ph, g) s"
    using goroutines_end [of idleEnv sampleLib sampleBindings "(w, \<lambda>_. Spawned, noLimits)"] by force
  have "sturdy idleEnv" by (simp add: sturdy_def idleEnv_def)
  from jobs_drain [where timeout = 0, OF idle_timeout this w(1)] v have "spawned v = [j]" "slots v = 0" "jobWG v = 0"
    using w(2) by auto
  then have "spawned v \<noteq> [] \<and> slots v = 0 \<and> jobWG v = 0" by simp
  then show ?thesis by blast
qed

end
