(* ===== verification/Recovery.thy ===== *)
theory Recovery
  imports Lifecycle_Props
begin

text \<open>
  After a crash, a fault or a cancelled job a domain can be left in status generating. It does not stay
  there: once the jobs have ended and the database answers again, the cleanup resolves it.
\<close>

section \<open>The cleanup without running jobs\<close>

definition idle :: "world \<Rightarrow> bool" where
  "idle w \<longleftrightarrow> (\<forall>i. \<not> inflight w i)"

lemma idle_later [simp]: "idle (later n w) = idle w"
  by (simp add: idle_def inflight_def)

lemma inflight_rolledBack [simp]: "inflight (rolledBack i msg rv w) = inflight w"
  by (simp add: inflight_def fun_eq_iff rolledBack_def split: option.split)

lemma idle_rolledBack [simp]: "idle (rolledBack i msg rv w) = idle w"
  by (simp add: idle_def)

lemma run_rollbackStuck_idle:
  assumes "calm e" and "idle w"
  shows "\<exists>w'. run_state (rollbackStuckGenerating e d force) w = ((), w') \<and> calmed {dID d} w w' \<and> idle w'"
  using assms rolledBack_calmed [of "dID d" "later 1 w" "if hasCertRow (dID d) w then [] else stuckGeneratingMessage" True]
    rolledBack_calmed [of "dID d" "later 2 w" "if hasCertRow (dID d) w then [] else stuckGeneratingMessage" True]
  by (cases force; cases "hasCertRow (dID d) w")
    (simp_all add: rollbackStuckGenerating_def run_simps calmed_def idle_def eval_nat_numeral)

text \<open>One round of the cleanup's loop.\<close>

definition cleanupRound :: "env \<Rightarrow> DomainRow \<Rightarrow> (world, unit option) state" where
  "cleanupRound e d = do {
     running \<leftarrow> certJobInflight e (dID d);
     waited \<leftarrow> (if running then do {
                  _ \<leftarrow> cancelCertJob e (dID d);
                  waitDomainWorker e (dID d) (generatingTimeout e)
                } else State_Monad.return (Some True));
     case waited of
       None \<Rightarrow> State_Monad.return None
     | Some _ \<Rightarrow> do { _ \<leftarrow> rollbackStuckGenerating e d False; State_Monad.return (Some ()) }
   }"

lemma run_round_idle:
  assumes "calm e" and "idle w"
  shows "\<exists>w'. run_state (cleanupRound e d) w = (Some (), w') \<and> calmed {dID d} w w' \<and> idle w'"
proof -
  have "calmed {dID d} (later 1 w) w' \<Longrightarrow> calmed {dID d} w w'" for w' by (simp add: calmed_def)
  then show ?thesis
    using run_rollbackStuck_idle [OF assms(1), of "later 1 w" d False] assms
    by (force simp: cleanupRound_def run_simps idle_def)
qed

lemma run_rounds_idle:
  "calm e \<Longrightarrow> idle w \<Longrightarrow>
     \<exists>w'. run_state (forEachO ds (cleanupRound e)) w = (Some (), w') \<and> calmed (dID ` set ds) w w'"
proof (induction ds arbitrary: w)
  case (Cons d ds)
  obtain v where v: "run_state (cleanupRound e d) w = (Some (), v)" "calmed {dID d} w v" "idle v"
    using run_round_idle [OF Cons.prems] by blast
  obtain w' where w': "run_state (forEachO ds (cleanupRound e)) v = (Some (), w')" "calmed (dID ` set ds) v w'"
    using Cons.IH [OF Cons.prems(1) v(3)] by blast
  show ?case using calmed_trans [OF v(2) w'(2)] v(1) w'(1) by simp
qed (simp add: calmed_def)

lemma cleanup_rounds:
  "runStuckGeneratingCleanup e timeout = do {
     now \<leftarrow> Now e;
     r \<leftarrow> Find e domains (\<lambda>d. live d \<and> staleGenerating (now - timeout) d);
     case r of Inl _ \<Rightarrow> State_Monad.return (Some ()) | Inr stuck \<Rightarrow> forEachO stuck (cleanupRound e)
   }"
  unfolding runStuckGeneratingCleanup_def cleanupRound_def [abs_def] Let_def by (rule refl)

lemma cleanup_idle:
  assumes "calm e" and "idle w" and "\<And>d. d \<in> set (domains w) \<Longrightarrow> live d \<Longrightarrow> dStatus d = ''generating'' \<Longrightarrow>
    staleGenerating (clock w - timeout) d"
  shows "\<exists>w'. run_state (runStuckGeneratingCleanup e timeout) w = (Some (), w')
    \<and> (\<forall>i. (rowOf i w' = None) = (rowOf i w = None))
    \<and> (\<forall>i d. rowOf i w' = Some d \<longrightarrow> dStatus d \<noteq> ''generating'')
    \<and> (\<forall>i. settled i w \<longrightarrow> rowOf i w' = rowOf i w)"
proof -
  let ?ds = "filter (\<lambda>d. live d \<and> staleGenerating (clock w - timeout) d) (domains w)"
  obtain w' where run: "run_state (forEachO ?ds (cleanupRound e)) (later 2 w) = (Some (), w')"
    and later_c: "calmed (dID ` set ?ds) (later 2 w) w'"
    using run_rounds_idle [OF assms(1), of "later 2 w" ?ds] assms(2) by auto
  have c: "calmed (dID ` set ?ds) w w'" using later_c by (simp add: calmed_def)
  have "run_state (runStuckGeneratingCleanup e timeout) w = (Some (), w')"
    unfolding cleanup_rounds using assms(1) run
    by (simp add: Find_def run_simps eval_nat_numeral)
  moreover have "dStatus d \<noteq> ''generating''" if d: "rowOf i w' = Some d" for i d
  proof (cases "settled i w")
    case True
    then have "rowOf i w' = rowOf i w" using c by (simp add: calmed_def)
    then show ?thesis using True d by (auto simp: settled_def)
  next
    case False
    have "rowOf i w \<noteq> None" using c d unfolding calmed_def by (metis option.distinct(1))
    then obtain d0 where d0: "rowOf i w = Some d0" by blast
    then have "d0 \<in> set (domains w)" "live d0" "dID d0 = i" by (auto dest: rowOf_id)
    moreover have "dStatus d0 = ''generating''" using False d0 by (simp add: settled_def)
    ultimately have "i \<in> dID ` set ?ds" using assms(3) by force
    then have "settled i w'" using c d0 unfolding calmed_def by blast
    then show ?thesis using d by (auto simp: settled_def)
  qed
  ultimately show ?thesis using c by (auto simp: calmed_def)
qed

section \<open>No domain stays generating\<close>

text \<open>The environment once no statement of the database fails any more.\<close>

definition recovered :: "env \<Rightarrow> env" where
  "recovered e = (alone e)\<lparr>dbfail := (\<lambda>_. None)\<rparr>"

lemma recovered_calm: "calm (recovered e)"
  by (simp add: recovered_def alone_def calm_def quiet_def faultless_def)

lemma eventually_stale:
  "\<exists>n0. \<forall>n \<ge> n0. \<forall>d \<in> set ds. dStatus d = ''generating'' \<longrightarrow> staleGenerating (t + int n - timeout) d"
proof (induction ds)
  case (Cons d ds)
  then obtain n0 where n0: "\<And>n d. n0 \<le> n \<Longrightarrow> d \<in> set ds \<Longrightarrow> dStatus d = ''generating'' \<Longrightarrow>
      staleGenerating (t + int n - timeout) d" by blast
  let ?n1 = "nat (1 + (case dGeneratingSince d of None \<Rightarrow> 0 | Some s \<Rightarrow> s) + timeout - t)"
  have "staleGenerating (t + int n - timeout) d" if "?n1 \<le> n" "dStatus d = ''generating''" for n
    using that by (auto simp: staleGenerating_def Before_def split: option.split)
  then show ?case using n0 by (intro exI [of _ "max n0 ?n1"]) auto
qed simp

text \<open>
  Property C11. No domain is stuck: from every state the server can reach, whatever the rows it was started on
  (also the ones a crashed server left generating) and whatever statements failed on the way, once
  no goroutine can move any more and the database answers again, every cleanup from some time on
  leaves no live domain generating; it neither removes a row nor touches one that was not
  generating.
\<close>

theorem no_domain_stuck:
  assumes "0 < generatingTimeout e" and "sturdy e" and "reachable e lib b (w, ph, g)"
    and "\<And>s. \<not> goroutine e lib b (w, ph, g) s"
  shows "\<exists>n0. \<forall>n \<ge> n0. \<exists>w'.
      run_state (runStuckGeneratingCleanup (recovered e) (generatingTimeout e)) (w\<lparr>clock := clock w + int n\<rparr>) = (Some (), w')
    \<and> (\<forall>i. (rowOf i w' = None) = (rowOf i w = None))
    \<and> (\<forall>i d. rowOf i w' = Some d \<longrightarrow> dStatus d \<noteq> ''generating'')
    \<and> (\<forall>i. settled i w \<longrightarrow> rowOf i w' = rowOf i w)"
proof -
  have idle: "idle (w\<lparr>clock := t\<rparr>)" for t
    using drained [OF assms] by (simp add: idle_def inflight_def)
  have same: "rowOf i (w\<lparr>clock := t\<rparr>) = rowOf i w" "settled i (w\<lparr>clock := t\<rparr>) = settled i w" for i t
    by (simp_all add: rowOf_def settled_def)
  obtain n0 where "\<And>n d. n0 \<le> n \<Longrightarrow> d \<in> set (domains w) \<Longrightarrow> dStatus d = ''generating'' \<Longrightarrow>
      staleGenerating (clock w + int n - generatingTimeout e) d"
    using eventually_stale [of "domains w" "clock w" "generatingTimeout e"] by blast
  then show ?thesis
    using cleanup_idle [OF recovered_calm idle] by (intro exI [of _ n0] allI impI) (fastforce simp: same)
qed

text \<open>A server that restarts after a crash during an operation.\<close>

theorem no_domain_stuck_witness:
  "\<exists>n w'. run_state (runStuckGeneratingCleanup idleEnv (generatingTimeout idleEnv))
       ((sampleWorld ''generating'' [] [])\<lparr>tokenSeq := 0, clock := 50 * Day + int n\<rparr>) = (Some (), w')
     \<and> (\<forall>i d. rowOf i w' = Some d \<longrightarrow> dStatus d \<noteq> ''generating'')"
proof -
  let ?w = "(sampleWorld ''generating'' [] [])\<lparr>tokenSeq := 0\<rparr>"
  have r: "recovered idleEnv = idleEnv" unfolding recovered_def alone_idle by (simp add: idleEnv_def)
  have "fresh ?w" by (simp add: fresh_def booksOf_def sampleWorld_def)
  then have "reachable idleEnv sampleLib sampleBindings (?w, \<lambda>_. Spawned, noLimits)"
    unfolding reachable_def by blast
  moreover have "\<not> goroutine idleEnv sampleLib sampleBindings (?w, \<lambda>_. Spawned, noLimits) s" for s
    using goroutine_lowers [of idleEnv sampleLib sampleBindings "(?w, \<lambda>_. Spawned, noLimits)" s]
    by (auto simp: remaining_def)
  moreover have "sturdy idleEnv" by (simp add: sturdy_def idleEnv_def)
  ultimately show ?thesis
    using no_domain_stuck [OF idle_timeout, of sampleLib sampleBindings ?w "\<lambda>_. Spawned" noLimits] unfolding r by fastforce
qed

end
