(* ===== verification/Active_Certs.thy ===== *)
theory Active_Certs
  imports Lifecycle_Props
begin

text \<open>
  The invariant behind the status active: a live domain that is active has a certificate. Every request,
  the scheduler and every job keep it as long as no statement fails; a deletion whose last statement
  fails breaks it.
\<close>

section \<open>The invariant\<close>

definition covered :: "world \<Rightarrow> bool" where
  "covered w \<longleftrightarrow> (\<forall>d \<in> set (domains w). live d \<and> dStatus d = ''active'' \<longrightarrow> hasCertRow (dID d) w)"

definition consistent :: "world \<Rightarrow> bool" where
  "consistent w \<longleftrightarrow> wf_store w \<and> covered w"

lemma consistent_cong:
  assumes "domains v = domains w" and "certs v = certs w" and "domainSeq v = domainSeq w" and "certSeq v = certSeq w"
  shows "consistent v = consistent w"
  using assms by (simp add: consistent_def wf_store_def covered_def hasCertRow_def certOf_def)

lemma consistent_later [simp]: "consistent (later n w) = consistent w"
  by (rule consistent_cong) simp_all

lemma stable_consistent: "calm e \<Longrightarrow> stable e consistent"
  by (rule stable_calm_env, assumption, rule consistent_cong) simp_all

lemma keeps_both:
  assumes "keeps wf_store m" and "\<And>w. consistent w \<Longrightarrow> covered (snd (run_state m w))"
  shows "keeps consistent m"
  using assms by (simp add: keeps_def consistent_def)

text \<open>The rows that are active afterwards were before, or have a certificate now.\<close>

lemma covered_map:
  assumes "covered w" and "domains v = map g (domains w)" and "\<And>d. dID (g d) = dID d"
    and "\<And>d. d \<in> set (domains w) \<Longrightarrow> live (g d) \<Longrightarrow> dStatus (g d) = ''active'' \<Longrightarrow> \<not> hasCertRow (dID d) v \<Longrightarrow>
      live d \<and> dStatus d = ''active'' \<and> \<not> hasCertRow (dID d) w"
  shows "covered v"
  using assms unfolding covered_def by auto

section \<open>Statements\<close>

lemma quietWriteD:
  assumes "quietWrite f" and "live ((f d)\<lparr>dUpdatedAt := t\<rparr>)" and "dStatus ((f d)\<lparr>dUpdatedAt := t\<rparr>) = ''active''"
  shows "live d \<and> dStatus d = ''active''"
proof -
  have "dStatus (f d) = ''active'' \<and> live (f d)" using assms(2,3) by (simp add: live_def)
  then show ?thesis using assms(1) unfolding quietWrite_def by blast
qed

lemma consistent_quiet_write:
  assumes "calm e" and "row_update f" and "quietWrite f"
  shows "keeps consistent (Updates e domains domains_update q (\<lambda>t d. (f d)\<lparr>dUpdatedAt := t\<rparr>))"
proof (rule keeps_both)
  show "keeps wf_store (Updates e domains domains_update q (\<lambda>t d. (f d)\<lparr>dUpdatedAt := t\<rparr>))"
    by (rule wf_writes(2) [OF stable_calm_env [OF assms(1)] assms(2)]) simp
  fix w assume w: "consistent w"
  define v where "v = snd (run_state (Updates e domains domains_update q (\<lambda>t d. (f d)\<lparr>dUpdatedAt := t\<rparr>)) w)"
  have v: "domains v = map (\<lambda>d. if q d then (f d)\<lparr>dUpdatedAt := clock w\<rparr> else d) (domains w)" "certs v = certs w"
    using assms(1) by (simp_all add: v_def Updates_def run_simps)
  have "covered v"
  proof (rule covered_map [OF _ v(1)])
    show "covered w" using w by (simp add: consistent_def)
    show "dID (if q d then (f d)\<lparr>dUpdatedAt := clock w\<rparr> else d) = dID d" for d
      by (simp add: row_update.keeps_id [OF assms(2)])
    show "live d \<and> dStatus d = ''active'' \<and> \<not> hasCertRow (dID d) w"
      if "live (if q d then (f d)\<lparr>dUpdatedAt := clock w\<rparr> else d)"
        "dStatus (if q d then (f d)\<lparr>dUpdatedAt := clock w\<rparr> else d) = ''active''" "\<not> hasCertRow (dID d) v" for d
      using that quietWriteD [OF assms(3), where d = d and t = "clock w"] by (simp add: hasCertRow_def certOf_def v(2) split: if_splits)
  qed
  then show "covered (snd (run_state (Updates e domains domains_update q (\<lambda>t d. (f d)\<lparr>dUpdatedAt := t\<rparr>)) w))"
    by (simp add: v_def)
qed

lemma consistent_update:
  "calm e \<Longrightarrow> domain_update f \<Longrightarrow> quietWrite f \<Longrightarrow> keeps consistent (UpdatesDomain e q f)"
  unfolding UpdatesDomain_def by (rule consistent_quiet_write) (auto simp: domain_update_def)

text \<open>A row with a certificate may become active.\<close>

lemma covered_written:
  assumes "covered w" and "hasCertRow i w \<or> quietWrite f" and "\<And>d. dID (f d) = dID d"
  shows "covered (written f i w)"
proof (rule covered_map [OF assms(1)])
  show "domains (written f i w) = map (\<lambda>d. if live d \<and> byID i d then stamp (clock w) f d else d) (domains w)"
    by (simp add: written_def)
  show "dID (if live d \<and> byID i d then stamp (clock w) f d else d) = dID d" for d
    by (simp add: stamp_def assms(3))
  show "live d \<and> dStatus d = ''active'' \<and> \<not> hasCertRow (dID d) w"
    if "live (if live d \<and> byID i d then stamp (clock w) f d else d)"
      "dStatus (if live d \<and> byID i d then stamp (clock w) f d else d) = ''active''"
      "\<not> hasCertRow (dID d) (written f i w)" for d
    using that assms(2) quietWriteD [where f = f and d = d and t = "clock w"]
    by (auto simp: stamp_def byID_def hasCertRow_def certOf_def split: if_splits)
qed

lemma consistent_rollback:
  assumes "calm e"
  shows "keeps consistent (rollbackGeneratingDomain e i msg rv)"
proof (rule keeps_both)
  show "keeps wf_store (rollbackGeneratingDomain e i msg rv)"
    by (rule keeps_wf_updates(5) [OF stable_calm_env [OF assms]]) simp
  fix w assume "consistent w"
  then have w: "covered (later n w)" for n by (simp add: consistent_def covered_def)
  have "quietWrite (rollbackCols False msg rv d)" for d
    by (simp add: quietWrite_def rollbackCols_def errorCols_def)
  then have "covered (rolledBack i msg rv w)"
    using w covered_written [OF w, of i _ "rollbackCols (hasCertRow i w) msg rv d" for d]
    by (cases "hasCertRow i w") (auto simp: rolledBack_def rollbackUpd.keeps_id split: option.split)
  then show "covered (snd (run_state (rollbackGeneratingDomain e i msg rv) w))"
    using assms by (simp add: run_simps)
qed

lemma certOf_filter: "find (certOfDomain j) (filter (\<lambda>c. \<not> certOfDomain i c) cs)
    = (if i = j then None else find (certOfDomain j) cs)"
  by (induction cs) (auto simp: certOfDomain_def [abs_def])

lemma run_deleteDependents:
  "calm e \<Longrightarrow> \<exists>v. run_state (deleteDependents e i) w = ((), v) \<and> domains v = domains w
    \<and> certs v = filter (\<lambda>c. \<not> certOfDomain i c) (certs w)"
  by (simp add: deleteDependents_def DeleteRows_def run_simps)

lemma covered_soft:
  assumes "calm e" and "\<And>d. d \<in> set (domains u) \<Longrightarrow> live d \<Longrightarrow> dStatus d = ''active'' \<Longrightarrow> dID d \<noteq> i \<Longrightarrow> hasCertRow (dID d) u"
  shows "covered (snd (run_state (SoftDeleteDomain e i) u))"
  using assms
  by (auto simp: SoftDeleteDomain_def run_simps covered_def hasCertRow_def certOf_def live_def byID_def split: if_splits)

lemma consistent_soft:
  assumes "calm e"
  shows "keeps consistent (SoftDeleteDomain e i)"
proof (rule keeps_both)
  show "keeps wf_store (SoftDeleteDomain e i)" by (rule wf_writes(3)) (rule stable_calm_env [OF assms], simp)
  show "covered (snd (run_state (SoftDeleteDomain e i) w))" if "consistent w" for w
    using that by (intro covered_soft [OF assms]) (simp add: consistent_def covered_def)
qed

lemma consistent_removal:
  assumes "calm e"
  shows "keeps consistent (State_Monad.bind (deleteDependents e i) (\<lambda>_. SoftDeleteDomain e i))"
proof (rule keeps_both)
  have st: "stable e wf_store" by (rule stable_calm_env [OF assms]) simp
  show "keeps wf_store (State_Monad.bind (deleteDependents e i) (\<lambda>_. SoftDeleteDomain e i))"
    by (intro keeps_bind wf_writes [OF st])
  fix w assume "consistent w"
  then have w: "covered w" by (simp add: consistent_def)
  obtain u where u: "run_state (deleteDependents e i) w = ((), u)" "domains u = domains w"
      "certs u = filter (\<lambda>c. \<not> certOfDomain i c) (certs w)"
    using run_deleteDependents [OF assms] by blast
  have "covered (snd (run_state (SoftDeleteDomain e i) u))"
    using w u(2,3) by (intro covered_soft [OF assms]) (auto simp: covered_def hasCertRow_def certOf_def certOf_filter)
  then show "covered (snd (run_state (State_Monad.bind (deleteDependents e i) (\<lambda>_. SoftDeleteDomain e i)) w))"
    by (simp add: u(1))
qed

text \<open>A certificate is stored and its domain becomes active.\<close>

lemma consistent_save:
  assumes "calm e" and "cDomainID c = i"
  shows "keeps consistent (saveCertificateRecord e i c)"
proof (rule keeps_both)
  show "keeps wf_store (saveCertificateRecord e i c)"
    by (rule keeps_wf_save) (rule stable_calm_env [OF assms(1)], simp)
  fix w assume w: "consistent w"
  then have wf: "wf_store (later 1 w)" by (simp add: consistent_def wf_store_def)
  let ?tx = "e\<lparr>interfere := (\<lambda>_ w. w)\<rparr>"
  have tx: "calm ?tx" using assms(1) by (simp add: calm_def quiet_def faultless_def)
  obtain v where v: "run_state (upsertCert ?tx c) (later 1 w) = (Inr (), v)" "domains v = domains w"
      "\<And>j. certOf j v = (if j = i then Some (storedCert (later 1 w) c) else certOf j w)"
    using upsert_calm [OF tx wf, of c] assms(2) by (auto simp: certOf_def)
  have has: "hasCertRow j w \<Longrightarrow> hasCertRow j v" "hasCertRow i v" for j using v(3) by (simp_all add: hasCertRow_def)
  then have "covered v" using w v(2) by (auto simp: consistent_def covered_def)
  then have "covered (written savedCols i (later 1 v))"
    by (intro covered_written) (use has(2) in \<open>simp_all add: covered_def savedUpd.keeps_id\<close>)
  then have "covered ((written savedCols i (later 1 v))\<lparr>tick := n\<rparr>)" for n
    by (simp add: covered_def hasCertRow_def certOf_def)
  then show "covered (snd (run_state (saveCertificateRecord e i c) w))"
    using assms(1) v(1) tx
    by (simp add: saveCertificateRecord_def run_Transaction Let_def run_simps settle_calm)
qed

section \<open>Jobs\<close>

lemma consistent_fail:
  assumes "calm e"
  shows "keeps consistent (failCertJob e i msg ar)"
proof (rule keeps_both)
  show "keeps wf_store (failCertJob e i msg ar)"
    by (rule keeps_wf_fail(1)) (rule stable_calm_env [OF assms], simp)
  fix w assume "consistent w"
  then have w: "covered (later n w)" for n by (simp add: consistent_def covered_def)
  have backoff: "covered (backedOff e i v)" if "covered v" for v
  proof -
    have "covered (later n v)" for n using that by (simp add: covered_def)
    then show ?thesis
      by (auto simp: backedOff_def Let_def that backoffUpd.keeps_id intro!: covered_written split: option.split)
  qed
  have "covered (failed e i msg ar w)"
    using w by (auto simp: failed_def errorUpd.keeps_id activeUpd.keeps_id intro!: backoff covered_written)
  then show "covered (snd (run_state (failCertJob e i msg ar) w))"
    using assms by (simp add: run_simps)
qed

lemma consistent_job:
  assumes "calm e"
  shows "keeps consistent (runCertJob e c domain user renew ar t)"
proof -
  note st = stable_consistent [OF assms]
  have fail: "keeps consistent (failCertJobIfActive e (dID domain) t msg ar)" for msg
    unfolding failCertJobIfActive_def by (intro keeps_intros keeps_registry_reads st consistent_fail assms)
  have roll: "keeps consistent (rollbackCancelledCertJob e (dID domain) t ar)"
    unfolding rollbackCancelledCertJob_def by (intro keeps_intros keeps_registry_reads st consistent_rollback assms)
  have save: "keeps consistent (saveCertificateRecord e (dID domain) (newCertRecord domain user res k x))" for res k x
    by (rule consistent_save [OF assms]) (simp add: newCertRecord_def)
  have "keeps consistent (storeResult e c domain user ar t res)" for res
    unfolding storeResult_def Let_def
    by (intro keeps_intros keeps_registry_reads keeps_queries st fail roll save)
  moreover have "accountFree consistent"
    unfolding accountFree_def by (intro allI conjI consistent_cong) simp_all
  ultimately show ?thesis
    by (intro keeps_runCertJob st fail roll)
qed

section \<open>Requests\<close>

lemma consistent_books:
  "consistent w \<Longrightarrow> consistent (w\<lparr>jobs := rs, ctxs := cs, tokenSeq := t\<rparr>)" "consistent w \<Longrightarrow> consistent (w\<lparr>slots := n\<rparr>)"
  "consistent w \<Longrightarrow> consistent (w\<lparr>jobWG := n, spawned := sp\<rparr>)"
  by (erule consistent_cong [THEN iffD1, rotated -1]; simp)+

lemma consistent_scope:
  assumes "calm e"
  shows "domain_scope e consistent i"
proof unfold_locales
  show "stable e consistent" by (rule stable_consistent [OF assms])
  show "deployFree consistent"
    unfolding deployFree_def by (intro conjI allI impI; erule consistent_cong [THEN iffD1, rotated -1]; simp)
qed (intro consistent_quiet_write consistent_rollback consistent_removal consistent_books assms; assumption)+

lemma consistent_create:
  assumes "calm e"
  shows "keeps consistent (CreateDomain e (newDomainRow u n))"
proof (rule keeps_both)
  show "keeps wf_store (CreateDomain e (newDomainRow u n))"
    by (rule keeps_wf_create) (rule stable_calm_env [OF assms], simp)
  fix w assume "consistent w"
  then show "covered (snd (run_state (CreateDomain e (newDomainRow u n)) w))"
    using assms by (auto simp: CreateDomain_def run_simps Let_def newDomainRow_def consistent_def covered_def hasCertRow_def certOf_def)
qed

text \<open>A row that is not live has no active twin: ids are unique.\<close>

lemma consistent_remove:
  assumes "calm e" and "consistent w" and "d \<in> set (domains w)" and "\<not> live d"
  shows "consistent (snd (run_state (permanentlyRemoveDomain e (dID d)) w))"
proof -
  have "keeps wf_store (permanentlyRemoveDomain e (dID d))"
    unfolding permanentlyRemoveDomain_def DeleteRows_def
    by (intro keeps_bind keeps_db wf_writes stable_calm_env [OF assms(1)])
      (simp_all add: wf_store_def table_update wf_domains_filter)
  then have wf: "wf_store (snd (run_state (permanentlyRemoveDomain e (dID d)) w))"
    using assms(2) keepsD by (auto simp: consistent_def)
  obtain n v where v: "run_state (permanentlyRemoveDomain e (dID d)) w = (Inr n, v)"
      "domains v = filter (\<lambda>x. \<not> byID (dID d) x) (domains w)" "certs v = filter (\<lambda>c. \<not> certOfDomain (dID d) c) (certs w)"
    using remove_calm [OF assms(1)] by blast
  have "covered v"
    using assms(2) by (auto simp: consistent_def covered_def v(2) hasCertRow_def certOf_def v(3) certOf_filter byID_def)
  then show ?thesis using wf v(1) by (simp add: consistent_def)
qed

lemma consistent_add:
  assumes "calm e"
  shows "keeps consistent (AddDomain e c)"
proof -
  note sc = domain_scope.axioms(1) [OF consistent_scope [OF assms]]
  note st = stable_consistent [OF assms]
  note base = keeps_intros keeps_queries keeps_wf_reads table_scope.reads [OF sc] st consistent_update [OF assms]
    quiet_writes targetUpd.domain_update_axioms claimUpd.domain_update_axioms
  have "keeps consistent (isUnclaimedDomain e d)" for d
    unfolding isUnclaimedDomain_def by (intro base)
  moreover have "keeps consistent (assignUnclaimedDomainToUser e i u)" for i u
    unfolding assignUnclaimedDomainToUser_def by (intro base)
  ultimately have live: "keeps consistent (addLive e d u)" for d u
    unfolding addLive_def claimUnclaimedDomain_def Let_def by (intro base)
  have restored: "keeps consistent (addRestored e d)" for d
    unfolding addRestored_def restoreDeletedDomain_def
    by (intro base consistent_quiet_write [OF assms] restoreUpd.row_update_axioms)
  have new: "keeps consistent (addNew e u n)" for u n
    unfolding addNew_def createDomainRecord_def Let_def
    by (intro base consistent_create [OF assms] consistent_soft [OF assms])
  have removed: "keeps consistent (case p of
       Inl _ \<Rightarrow> State_Monad.return (RespondError StatusInternalServerError ''Failed to create domain'')
     | Inr _ \<Rightarrow> addNew e u n)" for u n and p :: "err + nat"
    by (intro base new)
  have "consistent (snd (run_state (addNamed e u n) w))" if w: "consistent w" for u n w
  proof (cases "find (byName n) (domains w)")
    case None
    then show ?thesis
      using keepsD [OF new, of "later 1 w"] w assms by (simp add: addNamed_def First_def run_simps)
  next
    case (Some d)
    have l: "consistent (later 1 w)" "d \<in> set (domains (later 1 w))" using w Some by (auto dest: find_SomeD)
    have "consistent (snd (run_state (State_Monad.bind (permanentlyRemoveDomain e (dID d)) (\<lambda>p. case p of
         Inl _ \<Rightarrow> State_Monad.return (RespondError StatusInternalServerError ''Failed to create domain'')
       | Inr _ \<Rightarrow> addNew e u n)) (later 1 w)))" if "\<not> live d"
    proof -
      obtain p v where v: "run_state (permanentlyRemoveDomain e (dID d)) (later 1 w) = (p, v)" by fastforce
      then have "consistent v" using consistent_remove [OF assms l that] by simp
      then show ?thesis using keepsD [OF removed] v by simp
    qed
    then show ?thesis
      using Some assms keepsD [OF live l(1)] keepsD [OF restored l(1)]
      by (simp add: addNamed_def First_def run_simps del: run_state_bind) (simp add: First_def run_simps)
  qed
  then have "keeps consistent (addNamed e u n)" for u n by (simp add: keeps_def)
  then show ?thesis
    unfolding AddDomain_def by (auto intro: keeps_return split: sum.split)
qed

lemma consistent_handle:
  assumes "calm e"
  shows "keeps consistent (handle e b c h)"
proof (cases "h \<in> {HAddDomain, HRegister}")
  case True
  have "keeps consistent (CreateUser e m k)" for m k
    unfolding CreateUser_def Let_def
    by (intro keeps_db stable_consistent assms) (auto elim!: consistent_cong [THEN iffD1, rotated -1])
  then have "keeps consistent (Register e r)" for r
    unfolding Register_def HashPassword_def openSession_def
    by (intro keeps_intros keeps_queries keeps_read stable_consistent assms)
  then show ?thesis using True consistent_add [OF assms] keeps_wrappers by auto
next
  case False
  obtain i where i: "about b c h \<in> {None, Some i}" by (cases "about b c h") auto
  obtain u where u: "GetUserID c \<in> {None, Some u}" by (cases "GetUserID c") auto
  have "request_scope e consistent i u"
    using consistent_scope stable_consistent assms by (simp add: request_scope_def)
  from request_scope.handle_keeps [OF this False i u] show ?thesis .
qed

lemma consistent_serve:
  assumes "calm e"
  shows "keeps consistent (serve e lib b k g)"
proof -
  obtain rt where "\<And>rt'. callRoute k = Some rt' \<Longrightarrow> rt' = rt" by (cases "callRoute k") auto
  then show ?thesis by (rule keeps_serve [OF stable_consistent [OF assms] consistent_handle [OF assms]])
qed

section \<open>The scheduler\<close>

context domain_scope
begin

lemma stuck: "dID d = i \<Longrightarrow> keeps I (rollbackStuckGenerating e d force)"
  unfolding rollbackStuckGenerating_def
  by (simp only:, intro keeps_intros keeps_registry_reads keeps_wf_reads rollback stab)

lemma renew: "dID d = i \<Longrightarrow> keeps I (tryAutoRenewDomain e d)"
  unfolding tryAutoRenewDomain_def lockAndStartRenewal_def inBackoff_def
  by (intro keeps_intros keeps_queries lock slot start stab) (simp_all add: rollback)

end

lemma scheduler_scope:
  assumes "\<And>i. domain_scope e I i"
  shows "keeps I (runStuckGeneratingCleanup e timeout)" and "keeps I (RollbackAllGeneratingDomains e)"
    and "keeps I (runRenewalScan e)"
proof -
  note stab = table_scope.stab [OF domain_scope.axioms(1) [OF assms]]
  note stuck = domain_scope.stuck [OF assms refl] and renew = domain_scope.renew [OF assms refl]
  note cancel = domain_scope.registry_books(1) [OF assms]
  show "keeps I (runStuckGeneratingCleanup e timeout)"
    unfolding runStuckGeneratingCleanup_def Let_def
    by (intro keeps_intros keeps_queries keeps_registry_reads keeps_cancel keeps_wait stuck cancel stab)
  show "keeps I (RollbackAllGeneratingDomains e)"
    unfolding RollbackAllGeneratingDomains_def by (intro keeps_intros keeps_queries stuck stab)
  show "keeps I (runRenewalScan e)"
    unfolding runRenewalScan_def Let_def by (intro keeps_intros keeps_queries renew stab)
qed

lemma consistent_shutdown:
  assumes "calm e"
  shows "keeps consistent (CancelAllCertJobs e)" and "keeps consistent (WaitCertJobs e t)"
proof -
  show "keeps consistent (WaitCertJobs e t)"
    unfolding WaitCertJobs_def
    by (intro keeps_act stable_consistent assms) (auto elim!: consistent_cong [THEN iffD1, rotated -1])
  have "consistent (cancelCtx t w) = consistent w" for t w
    by (rule consistent_cong) (simp_all add: cancelCtx_def split: option.split)
  then have "consistent (cancelEntries js w) = consistent w" for js w
    by (induction js arbitrary: w) (auto simp: cancelEntries_def)
  then show "keeps consistent (CancelAllCertJobs e)"
    unfolding CancelAllCertJobs_def by (intro keeps_act stable_consistent assms) simp
qed

section \<open>Every reachable state\<close>

lemma consistent_step:
  assumes "faultless e" and "step e lib b s s'" and "consistent (fst s)"
  shows "consistent (fst s')"
proof -
  have calm: "calm (alone e)" using assms(1) by (simp add: alone_def calm_def quiet_def faultless_def)
  have op: "run_state m w = (x, v) \<Longrightarrow> keeps consistent m \<Longrightarrow> consistent w \<Longrightarrow> consistent v"
    for m :: "(world, 'x) state" and x w v
    using keepsD [of consistent m w] by simp
  note scope = scheduler_scope [OF consistent_scope [OF calm]]
  have same: "domains v = domains w \<and> certs v = certs w \<and> domainSeq v = domainSeq w \<and> certSeq v = certSeq w \<Longrightarrow>
      consistent w \<Longrightarrow> consistent v" for v w
    using consistent_cong by blast
  show ?thesis
    using assms(2,3)
  proof (cases rule: step.cases)
    case Request
    then show ?thesis using op [OF Request(3) consistent_serve [OF calm]] assms(3) by simp
  next
    case Cleanup
    then show ?thesis using op [OF _ scope(1)] assms(3) by auto
  next
    case Scan
    then show ?thesis using op [OF _ scope(3)] assms(3) by auto
  next
    case CancelJobs
    then show ?thesis using op [OF _ consistent_shutdown(1) [OF calm]] assms(3) by auto
  next
    case WaitJobs
    then show ?thesis using op [OF _ consistent_shutdown(2) [OF calm]] assms(3) by auto
  next
    case Rollback
    then show ?thesis using op [OF _ scope(2)] assms(3) by auto
  next
    case (Elapse w ph g n)
    then show ?thesis using same [of "w\<lparr>clock := clock w + int n\<rparr>" w] assms(3) by simp
  next
    case (Begin k w ph r w' g)
    then show ?thesis using track_worker(3) [of "jobDom w k" "later 1 w"] same [of w' w] assms(3)
      by (auto simp: run_simps settle_alone)
  next
    case Body
    then show ?thesis using op [OF _ consistent_job [OF calm]] assms(3) by auto
  next
    case (FreeSlot k w ph r w' g)
    then show ?thesis using same [of w' w] assms(3) by (auto simp: run_simps settle_alone recvSlot_def)
  next
    case (Unregister k w ph r w' g)
    then show ?thesis using same [of w' w] assms(3)
      by (auto simp: run_simps settle_alone endJob_def split: option.splits)
  next
    case (CountDown k w ph r w' g)
    then show ?thesis using same [of w' w] assms(3) by (auto simp: run_simps settle_alone doneJob_def)
  next
    case (End k w ph r w' g)
    then show ?thesis using same [of w' w] assms(3)
      by (auto simp: run_simps settle_alone workerDone_def split: option.splits)
  qed
qed

lemma consistent_steps:
  assumes "faultless e" and "(step e lib b)\<^sup>*\<^sup>* s s'" and "consistent (fst s)"
  shows "consistent (fst s')"
  using assms(2,3) by (induction rule: rtranclp_induct) (auto dest: consistent_step [OF assms(1)])

section \<open>A fault that breaks it\<close>

text \<open>
  Property C20. One failing statement loses a certificate: DeleteDomain deletes the certificate, the targets and
  the deploy jobs before the row and in no transaction. When the last statement fails, the answer
  is an error and the domain is still there with its old status, but its certificate is gone.
\<close>

theorem failed_delete_loses_certificate:
  assumes "quiet e" and "dbfail e = (\<lambda>n. if n = tick w + 5 then Some x else None)"
    and "wf_store w" and "rowOf i w = Some d" and "dStatus d \<noteq> ''generating''"
    and "GetUserID c = Some (dUserID d)" and "parseDomainID (pathID c) = Some i"
    and "run_state (DeleteDomain e c) w = (r, w')"
  shows "r = RespondError StatusInternalServerError ''Failed to delete domain''
    \<and> rowOf i w' = Some d \<and> certOf i w' = None"
proof -
  have id: "dID d = i" using assms(4) by (auto dest: rowOf_id)
  have gone: "find (certOfDomain i) (filter (\<lambda>c. \<not> certOfDomain i c) cs) = None" for cs
    by (simp add: certOf_filter)
  show ?thesis
    using assms(1,2,4-8) owned_row [OF assms(3,4)] gone
    by (auto simp: DeleteDomain_def getDomainOwned_def requireUserID_def deleteDependents_def DeleteRows_def
        SoftDeleteDomain_def run_FirstDomain_gen run_simps settle_quiet id table_update table_update_deploy
        rowOf_def certOf_def eval_nat_numeral)
qed

theorem failed_delete_loses_certificate_witness:
  "\<exists>r w'. run_state (DeleteDomain (idleEnv\<lparr>dbfail := (\<lambda>n. if n = 5 then Some DriverError else None)\<rparr>) ownRequest)
       (sampleWorld ''active'' [sampleCert] []) = (r, w')
     \<and> rowOf 1 w' = Some (sampleDomain ''active'') \<and> certOf 1 w' = None"
proof -
  let ?e = "idleEnv\<lparr>dbfail := (\<lambda>n. if n = 5 then Some DriverError else None)\<rparr>"
  let ?w = "sampleWorld ''active'' [sampleCert] []"
  obtain r w' where run: "run_state (DeleteDomain ?e ownRequest) ?w = (r, w')" by fastforce
  have "quiet ?e" using calm_idleEnv by (simp add: calm_def quiet_def)
  moreover have "rowOf 1 ?w = Some (sampleDomain ''active'')" by simp
  moreover have "wf_store ?w" by (simp add: statuses_def)
  ultimately show ?thesis
    using failed_delete_loses_certificate [OF _ _ _ _ _ _ _ run, of DriverError 1 "sampleDomain ''active''"] run by simp
qed

end
