(* ===== verification/Server_Lives.thy ===== *)
theory Server_Lives
  imports Active_Certs
begin

text \<open>
  The lives of the server: a process starts on the database its predecessor left, serves until it is
  stopped, killed or crashes at any point, and the rows are what remains.
\<close>

section \<open>A process\<close>

text \<open>The package variables of the job tracking as they are before the first request, which the tests restore.\<close>

definition ResetTestState :: "world \<Rightarrow> world" where
  "ResetTestState w = w\<lparr>jobWG := 0, jobs := [], tokenSeq := 0, workers := Map.empty, slots := 0\<rparr>"

text \<open>What a new process finds: the rows, and none of the memory of the one before.\<close>

definition reborn :: "world \<Rightarrow> world" where
  "reborn w = (ResetTestState w)\<lparr>ctxs := (\<lambda>_. None), spawned := [], encryptionKey := [], delegation := Map.empty\<rparr>"

text \<open>A reset leaves no trace of a job, and keeps the tables.\<close>

lemma ResetTestState_frees:
  "\<not> activeJob (ResetTestState w) i t" "domains (ResetTestState w) = domains w" "certs (ResetTestState w) = certs w"
  by (simp_all add: ResetTestState_def activeJob_def)

text \<open>
  How a process ends: refused at its start; by log.Fatalf when the listener fails; by a panic outside the
  reach of a recover; killed at any point; or stopped by a signal. \<open>Stopped drained finished\<close>: srv.Shutdown
  saw all open requests answered within its 30 seconds and the scheduler, which main does not wait for,
  was between two runs (\<open>drained\<close>), and WaitCertJobs saw all jobs finish (\<open>finished\<close>).
\<close>

datatype ending = Refused startError | ListenFailed err | Crashed | Killed | Stopped bool bool

text \<open>
  What goes on once main has stopped to serve: the goroutines of the jobs and the clock, and, unless the
  server is drained, whatever it did before.
\<close>

definition winding :: "bool \<Rightarrow> env \<Rightarrow> 'l bucketLib \<Rightarrow> bindings \<Rightarrow> 'l sys \<Rightarrow> 'l sys \<Rightarrow> bool" where
  "winding drained e lib b s s' \<longleftrightarrow> step e lib b s s' \<and> (drained \<longrightarrow> goroutine e lib b s s'
     \<or> (\<exists>n. fst s' = (fst s)\<lparr>clock := clock (fst s) + int n\<rparr> \<and> snd s' = snd s))"

text \<open>
  A process, from the database it finds to the one it leaves. \<open>listens a err\<close>: ListenAndServe on address
  \<open>a\<close> may end with the error \<open>err\<close>, other than ErrServerClosed. The state a start leaves serves for any number of
  steps; after the signal main cancels the jobs, waits for them and rolls back, and in between the others go on.
\<close>

inductive life :: "files \<Rightarrow> env \<Rightarrow> (string \<Rightarrow> err + unit) \<Rightarrow> (string \<Rightarrow> err \<Rightarrow> bool) \<Rightarrow> 'l bucketLib \<Rightarrow> bindings \<Rightarrow>
    deployment \<Rightarrow> ending \<Rightarrow> deployment \<Rightarrow> bool"
  for fs e openPG listens lib b where
  Refused: "run_state (boot fs (alone e) openPG) (ready, reborn w) = (Inl err, d) \<Longrightarrow>
    life fs e openPG listens lib b (ready, w) (Refused err) d"
| ListenFailed: "run_state (boot fs (alone e) openPG) (ready, reborn w) = (Inr cf, (ready1, w1)) \<Longrightarrow>
    (step (e\<lparr>cfg := cf\<rparr>) lib b)\<^sup>*\<^sup>* (w1, \<lambda>_. Spawned, newGateway cf) (w2, ph, g) \<Longrightarrow> listens (listenAddr cf) err \<Longrightarrow>
    life fs e openPG listens lib b (ready, w) (ListenFailed err) (ready1, w2)"
| Crashed: "run_state (boot fs (alone e) openPG) (ready, reborn w) = (Inr cf, (ready1, w1)) \<Longrightarrow>
    (step (e\<lparr>cfg := cf\<rparr>) lib b)\<^sup>*\<^sup>* (w1, \<lambda>_. Spawned, newGateway cf) (w2, ph, g) \<Longrightarrow>
    k < length (spawned w2) \<Longrightarrow> ph k = Working \<Longrightarrow> j = spawned w2 ! k \<Longrightarrow>
    run_state (runCertJob (alone (e\<lparr>cfg := cf\<rparr>)) (JobCtx (jobToken j)) (jobDomain j) (jobUser j) (jobRenew j)
      (jobAutoRenew j) (jobToken j)) w2 = (False, w3) \<Longrightarrow>
    life fs e openPG listens lib b (ready, w) Crashed (ready1, w3)"
| Killed: "run_state (boot fs (alone e) openPG) (ready, reborn w) = (Inr cf, (ready1, w1)) \<Longrightarrow>
    (step (e\<lparr>cfg := cf\<rparr>) lib b)\<^sup>*\<^sup>* (w1, \<lambda>_. Spawned, newGateway cf) (w2, ph, g) \<Longrightarrow>
    life fs e openPG listens lib b (ready, w) Killed (ready1, w2)"
| Stopped: "run_state (boot fs (alone e) openPG) (ready, reborn w) = (Inr cf, (ready1, w1)) \<Longrightarrow>
    (step (e\<lparr>cfg := cf\<rparr>) lib b)\<^sup>*\<^sup>* (w1, \<lambda>_. Spawned, newGateway cf) (w2, ph2, g2) \<Longrightarrow>
    run_state (CancelAllCertJobs (alone (e\<lparr>cfg := cf\<rparr>))) w2 = ((), w3) \<Longrightarrow>
    (winding drained (e\<lparr>cfg := cf\<rparr>) lib b)\<^sup>*\<^sup>* (w3, ph2, g2) (w4, ph4, g4) \<Longrightarrow>
    run_state (WaitCertJobs (alone (e\<lparr>cfg := cf\<rparr>)) (ACMEWorkDrainBudget (e\<lparr>cfg := cf\<rparr>))) w4 = (finished, w5) \<Longrightarrow>
    (winding drained (e\<lparr>cfg := cf\<rparr>) lib b)\<^sup>*\<^sup>* (w5, ph4, g4) (w6, ph6, g6) \<Longrightarrow>
    run_state (RollbackAllGeneratingDomains (alone (e\<lparr>cfg := cf\<rparr>))) w6 = ((), w7) \<Longrightarrow>
    life fs e openPG listens lib b (ready, w) (Stopped drained finished) (ready1, w7)"

lemma winding_steps: "(winding drained e lib b)\<^sup>*\<^sup>* s s' \<Longrightarrow> (step e lib b)\<^sup>*\<^sup>* s s'"
  by (erule rtranclp_mono [THEN predicate2D, rotated]) (auto simp: winding_def)

lemma fresh_reborn: "fresh (reborn w)"
  by (simp add: fresh_def booksOf_def reborn_def ResetTestState_def)

lemma consistent_reborn: "consistent (reborn w) = consistent w"
  by (rule consistent_cong) (simp_all add: reborn_def ResetTestState_def)

section \<open>The start\<close>

text \<open>A start touches neither the jobs nor their counters.\<close>

lemma boot_cfg:
  assumes "run_state (boot fs e openPG) d = (Inr cf, d')"
  shows "initConfig fs = Inr cf \<and> Validate (osenv e) cf = Inr ()"
  using assms by (auto simp: boot_def startUp_def map_sum_eq_Inr split: sum.splits prod.splits)

lemma boot_fresh:
  assumes "quiet e" and "run_state (boot fs e openPG) (ready, reborn w) = (Inr cf, (ready1, w1))"
  shows "fresh w1"
proof -
  have cf: "initConfig fs = Inr cf" "Validate (osenv e) cf = Inr ()"
    using assms(2) boot_cfg by blast+
  let ?e = "e\<lparr>cfg := cf\<rparr>"
  obtain v where v: "run_state (startUp ?e openPG) (ready, reborn w) = run_state (InitDB ?e openPG) (ready, v)"
      "v = (reborn w)\<lparr>encryptionKey := encryptionKey v\<rparr>"
    using startUp_valid [of ?e openPG ready "reborn w"] cf(2) by auto
  have "quiet ?e" using assms(1) by (simp add: quiet_def)
  moreover have "run_state (InitDB ?e openPG) (ready, v) = (Inr (), (ready1, w1))"
    using assms(2) cf(1) v(1) by (auto simp: boot_def map_sum_eq_Inr split: prod.splits sum.splits)
  ultimately have "booksOf w1 = booksOf v" using InitDB_ok by blast
  moreover have "booksOf v = booksOf (reborn w)" by (subst v(2)) (simp add: booksOf_def)
  ultimately show ?thesis using fresh_reborn [of w] by (simp add: booksOf_def fresh_def)
qed

lemma no_older_duplicate: "wf_certs n cs \<Longrightarrow> a \<in> set cs \<Longrightarrow> \<not> olderDuplicate cs a"
  by (auto simp: olderDuplicate_def list_ex_iff wf_certs_def dest: distinct_key_unique)

text \<open>Whatever the outcome, the start leaves well-formed rows as they were.\<close>

definition sameRows :: "world \<Rightarrow> world \<Rightarrow> bool" where
  "sameRows w v \<longleftrightarrow> domains v = domains w \<and> certs v = certs w \<and> domainSeq v = domainSeq w \<and> certSeq v = certSeq w
     \<and> booksOf v = booksOf w"

lemma sameRows_simps [simp]: "sameRows w w" "sameRows w (v\<lparr>tick := n\<rparr>) = sameRows w v"
  "sameRows w (v\<lparr>encryptionKey := k\<rparr>) = sameRows w v"
  by (simp_all add: sameRows_def booksOf_def)

lemma dedup_rows:
  assumes "quiet e" and "wf_certs n (certs v)" and "run_state (removeDuplicateCertificates e) v = (r, v')"
  shows "sameRows v v'"
proof -
  have "filter (\<lambda>a. \<not> olderDuplicate (certs v) a) (certs v) = certs v"
    using assms(2) no_older_duplicate by (auto simp: filter_id_conv)
  then show ?thesis
    using assms(1,3)
    by (auto simp: removeDuplicateCertificates_def run_simps settle_quiet sameRows_def booksOf_def split: option.splits)
qed

lemma InitDB_rows:
  assumes "quiet e" and "wf_certs n (certs v)" and "run_state (InitDB e openPG) (ready, v) = (r, (ready', v'))"
  shows "sameRows v v'"
proof (cases "openPG (dataSource (Database (cfg e)))")
  case (Inl err)
  then show ?thesis using assms(3) by (simp add: InitDB_def)
next
  case (Inr x)
  obtain q u where q: "run_state (removeDuplicateCertificates e) v = (q, u)" by fastforce
  note u = dedup_rows [OF assms(1,2) q]
  have "v' = v \<or> v' = u \<or> v' = settle e u"
    using assms(3) Inr q
    by (auto simp: InitDB_def onTables_def AutoMigrate_def Let_def split: sum.splits if_splits option.splits)
  then show ?thesis using u assms(1) by (auto simp: settle_quiet)
qed

lemma boot_rows:
  assumes "quiet e" and "wf_store w" and "run_state (boot fs e openPG) (ready, w) = (r, (ready', w'))"
  shows "sameRows w w'"
proof (cases "\<exists>cf. initConfig fs = Inr cf \<and> Validate (osenv e) cf = Inr ()")
  case False
  then show ?thesis using assms(3) by (auto simp: boot_def startUp_def split: sum.splits)
next
  case True
  then obtain cf where cf: "initConfig fs = Inr cf" "Validate (osenv e) cf = Inr ()" by blast
  let ?e = "e\<lparr>cfg := cf\<rparr>"
  obtain v where v: "run_state (startUp ?e openPG) (ready, w) = run_state (InitDB ?e openPG) (ready, v)"
      "v = w\<lparr>encryptionKey := encryptionKey v\<rparr>"
    using startUp_valid [of ?e openPG ready w] cf(2) by auto
  obtain q where "run_state (InitDB ?e openPG) (ready, v) = (q, (ready', w'))"
    using assms(3) cf(1) v(1) by (auto simp: boot_def split: prod.splits)
  moreover have "wf_certs (certSeq w) (certs v)" using assms(2) by (subst v(2)) (simp add: wf_store_def)
  moreover have "quiet ?e" using assms(1) by (simp add: quiet_def)
  ultimately have "sameRows v w'" using InitDB_rows by blast
  moreover have "sameRows w v" by (subst v(2)) simp
  ultimately show ?thesis by (simp add: sameRows_def)
qed

lemma alone_calm: "faultless e \<Longrightarrow> calm (alone e)"
  by (simp add: alone_def calm_def quiet_def faultless_def)

lemma alone_quiet_env: "quiet (alone e)"
  by (simp add: alone_def quiet_def)

lemma consistent_life:
  assumes "faultless e" and "life fs e openPG listens lib b d x d'" and "consistent (snd d)"
  shows "consistent (snd d')"
proof -
  have serving: "consistent w2" if "fst d = ready" "snd d = w"
      "run_state (boot fs (alone e) openPG) (ready, reborn w) = (Inr cf, (ready1, w1))"
      "(step (e\<lparr>cfg := cf\<rparr>) lib b)\<^sup>*\<^sup>* (w1, \<lambda>_. Spawned, newGateway cf) (w2, ph, g)" for ready w cf ready1 w1 w2 ph g
  proof -
    have "consistent (reborn w)" using assms(3) that(2) by (simp add: consistent_reborn)
    moreover from this have "sameRows (reborn w) w1"
      using boot_rows [OF alone_quiet_env _ that(3)] by (simp add: consistent_def)
    ultimately have "consistent w1" using consistent_cong [of w1 "reborn w"] by (simp add: sameRows_def)
    then show ?thesis using consistent_steps [OF _ that(4)] assms(1) by (simp add: faultless_def)
  qed
  have calm: "calm (alone (e\<lparr>cfg := cf\<rparr>))" for cf using assms(1) by (intro alone_calm) (simp add: faultless_def)
  show ?thesis
    using assms(2)
  proof (cases rule: life.cases)
    case (Refused ready w err)
    obtain ready' w' where d': "d' = (ready', w')" by fastforce
    have "consistent (reborn w)" using assms(3) Refused(1) by (simp add: consistent_reborn)
    moreover from this have "sameRows (reborn w) w'"
      using boot_rows [OF alone_quiet_env _ Refused(3) [unfolded d']] by (simp add: consistent_def)
    ultimately show ?thesis using consistent_cong [of w' "reborn w"] d' by (simp add: sameRows_def)
  next
    case ListenFailed
    then show ?thesis using serving by simp
  next
    case (Crashed ready w cf ready1 w1 w2 ph g k j w3)
    then have "consistent w2" using serving by simp
    then show ?thesis using keepsD [OF consistent_job [OF calm], of w2] Crashed by (metis snd_conv)
  next
    case Killed
    then show ?thesis using serving by simp
  next
    case (Stopped ready w cf ready1 w1 w2 ph2 g2 w3 drained w4 ph4 g4 finished w5 w6 ph6 g6 w7)
    then have "consistent w2" using serving by simp
    let ?s = "step (e\<lparr>cfg := cf\<rparr>) lib b"
    have "?s\<^sup>*\<^sup>* (w2, ph2, g2) (w3, ph2, g2)" using step.CancelJobs [OF Stopped(6)] by blast
    moreover have "?s\<^sup>*\<^sup>* (w3, ph2, g2) (w4, ph4, g4)" by (rule winding_steps [OF Stopped(7)])
    moreover have "?s\<^sup>*\<^sup>* (w4, ph4, g4) (w5, ph4, g4)" using step.WaitJobs [OF Stopped(8)] by blast
    moreover have "?s\<^sup>*\<^sup>* (w5, ph4, g4) (w6, ph6, g6)" by (rule winding_steps [OF Stopped(9)])
    moreover have "?s\<^sup>*\<^sup>* (w6, ph6, g6) (w7, ph6, g6)" using step.Rollback [OF Stopped(10)] by blast
    ultimately have "?s\<^sup>*\<^sup>* (w2, ph2, g2) (w7, ph6, g6)" by (meson rtranclp_trans)
    from consistent_steps [OF _ this] \<open>consistent w2\<close> assms(1) show ?thesis
      using Stopped(3) by (simp add: faultless_def)
  qed
qed

text \<open>
  Property C10. An active domain has its certificate: begin with well-formed tables in which every live active
  domain has one; then, as long as no statement fails, this is so whatever processes have run since, each
  started on what the one before left and refused, stopped, crashed or killed between any two steps, and in
  every state that requests, cleanups, scans, shutdowns and jobs of a process reach in any order. The tables
  stay well formed.
\<close>

theorem active_has_certificate:
  assumes "faultless e" and "wf_store w0" and "covered w0"
    and "(\<lambda>d d'. \<exists>x. life fs e openPG listens lib b d x d')\<^sup>*\<^sup>* (ready0, w0) (ready, w)"
  shows "wf_store w \<and> (\<forall>i d. rowOf i w = Some d \<and> dStatus d = ''active'' \<longrightarrow> (\<exists>c. certOf i w = Some c))"
proof -
  have "consistent (snd d)" if "(\<lambda>d d'. \<exists>x. life fs e openPG listens lib b d x d')\<^sup>*\<^sup>* (ready0, w0) d" for d
    using that
  proof (induction rule: rtranclp_induct)
    case base
    then show ?case using assms(2,3) by (simp add: consistent_def)
  next
    case (step d d')
    then show ?case using consistent_life [OF assms(1)] by blast
  qed
  then have "wf_store w" "covered w" using assms(4) by (force simp: consistent_def)+
  then show ?thesis by (fastforce simp: covered_def hasCertRow_def dest: rowOf_id)
qed

text \<open>A process on the sample database: its start, and what it finds there.\<close>

lemma sample_boot:
  assumes "length cs \<le> 1"
  obtains w1 where
    "run_state (boot sampleFiles (alone idleEnv) (\<lambda>_. Inr ())) (True, reborn (sampleWorld st cs [])) = (Inr prodCfg, (True, w1))"
    and "wf_store (sampleWorld st cs []) \<Longrightarrow> domains w1 = [sampleDomain st]" and "fresh w1"
proof -
  let ?w = "sampleWorld st cs []"
  have "indexable ((reborn ?w)\<lparr>certs := filter (\<lambda>a. \<not> olderDuplicate (certs (reborn ?w)) a) (certs (reborn ?w))\<rparr>)"
    using assms by (cases cs) (auto simp: indexable_def reborn_def ResetTestState_def olderDuplicate_def sampleWorld_def)
  from boot_started [OF calm_idleEnv sampleFiles_Load idleEnv_cfg _ _ this, of "\<lambda>_. Inr ()"] prodCfg_valid
  obtain w1 where run: "run_state (boot sampleFiles idleEnv (\<lambda>_. Inr ())) (True, reborn ?w) = (Inr prodCfg, (True, w1))"
    by auto
  have "domains w1 = [sampleDomain st]" if "wf_store ?w"
    using boot_rows [OF _ _ run] calm_idleEnv that
    by (simp add: calm_def reborn_def ResetTestState_def sameRows_def wf_store_def)
  then show ?thesis using that run boot_fresh [OF _ run] calm_idleEnv by (simp add: calm_def)
qed

lemma idle_prodCfg [simp]: "idleEnv\<lparr>cfg := prodCfg\<rparr> = idleEnv"
  by (simp add: idleEnv_def)

theorem active_has_certificate_witness:
  "\<exists>w x. life sampleFiles idleEnv (\<lambda>_. Inr ()) (\<lambda>_ _. False) sampleLib sampleBindings
       (True, sampleWorld ''active'' [sampleCert] []) x (True, w)
     \<and> rowOf 1 w = Some (sampleDomain ''active'') \<and> (\<exists>c. certOf 1 w = Some c)"
proof -
  let ?w = "sampleWorld ''active'' [sampleCert] []"
  have wf: "wf_store ?w" by (simp add: statuses_def)
  obtain w1 where w1: "run_state (boot sampleFiles (alone idleEnv) (\<lambda>_. Inr ())) (True, reborn ?w) = (Inr prodCfg, (True, w1))"
      "domains w1 = [sampleDomain ''active'']"
    using sample_boot [of "[sampleCert]" "''active''"] wf by auto
  have life: "life sampleFiles idleEnv (\<lambda>_. Inr ()) (\<lambda>_ _. False) sampleLib sampleBindings (True, ?w) Killed (True, w1)"
    by (rule life.Killed [OF w1(1)]) (rule rtranclp.rtrancl_refl)
  have "faultless idleEnv" using calm_idleEnv by (simp add: calm_def)
  moreover have "covered ?w" by (simp add: covered_def hasCertRow_def certOf_def certOfDomain_def)
  moreover have row: "rowOf 1 w1 = Some (sampleDomain ''active'')" using w1(2) by (simp add: rowOf_def live_def byID_def)
  moreover have "(\<lambda>d d'. \<exists>x. life sampleFiles idleEnv (\<lambda>_. Inr ()) (\<lambda>_ _. False) sampleLib sampleBindings d x d')\<^sup>*\<^sup>*
      (True, ?w) (True, w1)"
    by (intro r_into_rtranclp exI) (rule life)
  ultimately have "\<exists>c. certOf 1 w1 = Some c"
    using active_has_certificate [OF _ wf, of idleEnv sampleFiles "\<lambda>_. Inr ()" "\<lambda>_ _. False"
        sampleLib sampleBindings True True w1] by simp
  then show ?thesis using life row by blast
qed

section \<open>A graceful stop\<close>

text \<open>Once the jobs are cancelled, what still goes on in a drained server makes no job active.\<close>

lemma inactive_cong:
  "jobs v = jobs w \<Longrightarrow> ctxs v = ctxs w \<Longrightarrow> clock w \<le> clock v \<Longrightarrow> activeJob v d t \<Longrightarrow> activeJob w d t"
  by (auto simp: activeJob_def ctxErr_def split: option.splits if_splits)

lemma winding_inactive:
  assumes "winding True e lib b s s'" and "activeJob (fst s') d t"
  shows "activeJob (fst s) d t"
proof (cases "\<exists>n. fst s' = (fst s)\<lparr>clock := clock (fst s) + int n\<rparr>")
  case True
  then show ?thesis using assms(2) by (auto intro: inactive_cong [rotated -1])
next
  case False
  then have "step e lib b s s'" and other: "fst (snd s') \<noteq> fst (snd s)"
    using assms(1) by (auto simp: winding_def goroutine_def)
  then show ?thesis
  proof (cases rule: step.cases)
    case (Begin k w ph r w' g)
    then show ?thesis using track_worker(3) [of "jobDom w k" "later 1 w"] assms(2)
      by (auto simp: run_simps settle_alone intro: inactive_cong [rotated -1])
  next
    case (Body k w ph j w' g)
    let ?I = "\<lambda>v. jobs v = jobs w \<and> ctxs v = ctxs w \<and> clock v = clock w"
    have "stable (alone e) ?I" by (rule stable_alone) simp
    then have "keeps ?I (runCertJob (alone e) (JobCtx (jobToken j)) (jobDomain j) (jobUser j) (jobRenew j)
        (jobAutoRenew j) (jobToken j))"
      by (rule keeps_frame_job) (simp_all add: tableFree_def accountFree_def restoreTables_def)
    from keepsD [OF this, of w] have "?I w'" using Body(6) by (metis snd_conv)
    then show ?thesis using assms(2) Body(1,2) inactive_cong [of w' w d t] by simp
  next
    case (FreeSlot k w ph r w' g)
    then show ?thesis using assms(2) by (auto simp: run_simps settle_alone recvSlot_def intro: inactive_cong [rotated -1])
  next
    case (Unregister k w ph r w' g)
    then have w': "w' = endJob (jobDom w k) (jobTok w k) (later 1 w)" by (simp add: run_simps settle_alone)
    then have "ctxErr w' c = ctxErr w c" for c by (simp add: ctxErr_def endJob_def split: ctx.split option.split)
    then show ?thesis using assms(2) Unregister(1,2)
      by (auto simp: activeJob_def w' registry.reg_finish split: if_splits)
  next
    case (CountDown k w ph r w' g)
    then show ?thesis using assms(2) by (auto simp: run_simps settle_alone doneJob_def intro: inactive_cong [rotated -1])
  next
    case (End k w ph r w' g)
    then show ?thesis using assms(2)
      by (auto simp: run_simps settle_alone workerDone_def intro: inactive_cong [rotated -1] split: option.splits)
  qed (use other in simp_all)
qed

lemma windings_inactive:
  "(winding True e lib b)\<^sup>*\<^sup>* s s' \<Longrightarrow> activeJob (fst s') d t \<Longrightarrow> activeJob (fst s) d t"
  by (induction rule: rtranclp_induct) (auto dest: winding_inactive)

text \<open>When all jobs are done, no goroutine counts any more, and none begins.\<close>

definition allDone :: "'l sys \<Rightarrow> bool" where
  "allDone s \<longleftrightarrow> (\<forall>k < length (spawned (fst s)). \<not> inWaitGroup (fst (snd s) k))"

lemma winding_done:
  assumes "winding True e lib b s s'" and "allDone s"
  shows "allDone s'"
proof (cases "\<exists>n. fst s' = (fst s)\<lparr>clock := clock (fst s) + int n\<rparr> \<and> snd s' = snd s")
  case True
  then show ?thesis using assms(2) by (auto simp: allDone_def)
next
  case False
  then have "step e lib b s s'" and other: "fst (snd s') \<noteq> fst (snd s)"
    using assms(1) by (auto simp: winding_def goroutine_def)
  then show ?thesis
  proof (cases rule: step.cases)
    case (End k w ph r w' g)
    then show ?thesis using assms(2) goroutine_kept(6) [OF End(5)] by (simp add: allDone_def phase_defs)
  qed (use other assms(2) in \<open>auto simp: allDone_def phase_defs\<close>)
qed

lemma windings_done: "(winding True e lib b)\<^sup>*\<^sup>* s s' \<Longrightarrow> allDone s \<Longrightarrow> allDone s'"
  by (induction rule: rtranclp_induct) (auto dest: winding_done)

lemma books_done:
  assumes "books e 0 ph w" and "allDone (w, ph, g)"
  shows "slots w = 0 \<and> jobWG w = 0 \<and> \<not> inflight w i"
proof -
  have none: "\<not> inWaitGroup (ph k)" if "k < length (spawned w)" for k using assms(2) that by (simp add: allDone_def)
  then have "tally (length (spawned w)) (\<lambda>k. holdsSlot (ph k)) = 0" "tally (length (spawned w)) (\<lambda>k. inWaitGroup (ph k)) = 0"
    unfolding tally_none by (auto simp: phase_defs)
  moreover have "entry w i = None"
  proof (cases "entry w i")
    case (Some t)
    then obtain k where "k < length (spawned w)" "mayBeRegistered (ph k)" using assms(1) unfolding books_def by blast
    then show ?thesis using none by (auto simp: phase_defs)
  qed
  ultimately show ?thesis using assms(1) by (simp add: books_def inflight_def)
qed

text \<open>The rollback touches neither a context nor a goroutine.\<close>

lemma rollback_inactive: "keeps (\<lambda>v. \<forall>i t. \<not> activeJob v i t) (RollbackAllGeneratingDomains (alone e))"
proof (rule keeps_rollbackAll)
  show "stable (alone e) (\<lambda>v. \<forall>i t. \<not> activeJob v i t)"
    by (rule stable_alone) (simp add: activeJob_def ctxErr_def cong: option.case_cong if_cong)
qed (simp add: tableFree_def restoreTables_def activeJob_def ctxErr_def cong: option.case_cong if_cong)

lemma rollback_spawned: "keeps (\<lambda>v. spawned v = js) (RollbackAllGeneratingDomains (alone e))"
  by (rule keeps_rollbackAll) (auto intro: stable_alone simp: tableFree_def restoreTables_def)

text \<open>
  Property C12. What a signal leaves: after a process was stopped, whatever it did before and whatever went on
  between the cancellation of its jobs, the wait for them and the rollback (no statement fails), no live domain
  is generating. If its requests and the scheduler had come to rest before, then no job is active, so none
  can write any more; and if the wait saw the jobs finish, no slot is taken and no job is registered.
\<close>

theorem graceful_stop:
  assumes "faultless e" and "initConfig fs = Inr cf" and "0 < generatingTimeout (e\<lparr>cfg := cf\<rparr>)"
    and "life fs e openPG listens lib b (ready, w) (Stopped drained finished) (ready', w')"
  shows "(\<forall>i d. rowOf i w' = Some d \<longrightarrow> dStatus d \<noteq> ''generating'')
    \<and> (drained \<longrightarrow> (\<forall>i t. \<not> activeJob w' i t))
    \<and> (drained \<and> finished \<longrightarrow> slots w' = 0 \<and> jobWG w' = 0 \<and> (\<forall>i. \<not> inflight w' i))"
  using assms(4)
proof (cases rule: life.cases)
  case (Stopped cf' w1 w2 ph2 g2 w3 w4 ph4 g4 w5 w6 ph6 g6)
  let ?e = "e\<lparr>cfg := cf'\<rparr>"
  have "cf' = cf" using boot_cfg [OF Stopped(1)] assms(2) by simp
  note timeout = assms(3) [folded this]
  let ?s = "step ?e lib b"
  have reach2: "reachable ?e lib b (w2, ph2, g2)"
    using boot_fresh [OF alone_quiet_env Stopped(1)] Stopped(2) unfolding reachable_def by blast
  have "?s\<^sup>*\<^sup>* (w2, ph2, g2) (w3, ph2, g2)" using step.CancelJobs [OF Stopped(3)] by blast
  from this winding_steps [OF Stopped(4)] have reach4: "reachable ?e lib b (w4, ph4, g4)"
    by (intro reachable_step [OF reach2]) (rule rtranclp_trans)
  have "?s\<^sup>*\<^sup>* (w4, ph4, g4) (w5, ph4, g4)" using step.WaitJobs [OF Stopped(5)] by blast
  from this winding_steps [OF Stopped(6)] have reach6: "reachable ?e lib b (w6, ph6, g6)"
    by (intro reachable_step [OF reach4]) (rule rtranclp_trans)
  have calm: "calm (alone ?e)" using assms(1) by (intro alone_calm) (simp add: faultless_def)
  have generating: "dStatus d \<noteq> ''generating''" if "rowOf i w' = Some d" for i d
    using shutdown_clears_generating [OF calm, of w' w6] Stopped(7) that by simp
  have inactive: "\<not> activeJob w' i t" if "drained" for i t
  proof -
    have "t \<in> dom (ctxs (later 1 w2))" if "entry (later 1 w2) d = Some t" for d t
      using reachable_books [OF timeout reach2] that by (simp add: books_def)
    then have "\<not> activeJob w3 i t" for i t
      using cancel_all_inactive(2) [of "alone ?e" w2, unfolded settle_alone, OF _ Stopped(3)] by blast
    then have "\<not> activeJob w4 i t" for i t using windings_inactive [OF Stopped(4) [unfolded that [THEN eqTrueI]]] by force
    then have "\<not> activeJob w5 i t" for i t using Stopped(5) by (auto simp: WaitCertJobs_def run_simps settle_alone)
    then have "\<forall>i t. \<not> activeJob w6 i t" using windings_inactive [OF Stopped(6) [unfolded that [THEN eqTrueI]]] by force
    then show ?thesis using keepsD [OF rollback_inactive] Stopped(7) by (metis snd_conv)
  qed
  have "slots w' = 0 \<and> jobWG w' = 0 \<and> \<not> inflight w' i" if "drained" "finished" for i
  proof -
    have "jobWG w4 = 0" and w5: "w5 = later 1 w4"
      using Stopped(5) that(2) by (auto simp: WaitCertJobs_def run_simps settle_alone)
    then have "tally (length (spawned w4)) (\<lambda>k. inWaitGroup (ph4 k)) = 0"
      using reachable_books [OF timeout reach4] by (simp add: books_def)
    then have "allDone (w5, ph4, g4)" unfolding tally_none by (simp add: allDone_def w5)
    then have "allDone (w6, ph6, g6)" using windings_done [OF Stopped(6) [unfolded that(1) [THEN eqTrueI]]] by blast
    moreover have "books ?e 0 ph6 w'"
      using keepsD [OF shutdown_books(3) reachable_books [OF timeout reach6]] Stopped(7) by (metis snd_conv)
    moreover have "spawned w' = spawned w6" using keepsD [OF rollback_spawned] Stopped(7) by (metis snd_conv)
    ultimately show ?thesis by (intro books_done [where g = g6]) (simp_all add: allDone_def)
  qed
  then show ?thesis using generating inactive by blast
qed

theorem graceful_stop_witness:
  "\<exists>w d. life sampleFiles idleEnv (\<lambda>_. Inr ()) (\<lambda>_ _. False) sampleLib sampleBindings
       (True, sampleWorld ''generating'' [] []) (Stopped True True) (True, w)
     \<and> rowOf 1 w = Some d \<and> dStatus d \<noteq> ''generating'' \<and> slots w = 0 \<and> \<not> inflight w 1"
proof -
  let ?w = "sampleWorld ''generating'' [] []"
  have idle: "alone idleEnv = idleEnv" by (simp add: alone_def idleEnv_def)
  have "wf_store ?w" by (simp add: statuses_def)
  then obtain w1 where w1: "run_state (boot sampleFiles (alone idleEnv) (\<lambda>_. Inr ())) (True, reborn ?w) = (Inr prodCfg, (True, w1))"
      "domains w1 = [sampleDomain ''generating'']" "fresh w1"
    using sample_boot [of "[]" "''generating''"] by auto
  let ?v = "later 1 (later 1 w1)"
  obtain w7 where w7: "run_state (RollbackAllGeneratingDomains (alone idleEnv)) ?v = ((), w7)"
    by (metis old.unit.exhaust surj_pair)
  have cancel: "run_state (CancelAllCertJobs (alone idleEnv)) w1 = ((), later 1 w1)"
    using w1(3) by (simp add: CancelAllCertJobs_def run_simps settle_alone fresh_def cancelEntries_def)
  have wait: "run_state (WaitCertJobs (alone idleEnv) n) (later 1 w1) = (True, ?v)" for n
    using w1(3) by (simp add: WaitCertJobs_def run_simps settle_alone fresh_def)
  have life: "life sampleFiles idleEnv (\<lambda>_. Inr ()) (\<lambda>_ _. False) sampleLib sampleBindings (True, ?w) (Stopped True True) (True, w7)"
    by (rule life.Stopped [OF w1(1), unfolded idle_prodCfg, OF rtranclp.rtrancl_refl cancel rtranclp.rtrancl_refl wait
        rtranclp.rtrancl_refl w7])
  have "faultless idleEnv" using calm_idleEnv by (simp add: calm_def)
  moreover have "initConfig sampleFiles = Inr prodCfg" using sampleFiles_Load by (simp add: initConfig_def)
  moreover note idle_timeout
  ultimately have stop: "rowOf 1 w7 = Some d \<longrightarrow> dStatus d \<noteq> ''generating''" "slots w7 = 0" "\<not> inflight w7 1" for d
    using graceful_stop [of idleEnv sampleFiles prodCfg, OF _ _ _ life] by simp_all
  have "w7 = snd (run_state (RollbackAllGeneratingDomains idleEnv) ?v)" using w7 by (simp add: idle)
  from shutdown_clears_generating [OF calm_idleEnv this] have "(rowOf 1 w7 = None) = (rowOf 1 ?v = None)" by simp
  moreover have "rowOf 1 ?v \<noteq> None" using w1(2) by (simp add: rowOf_def live_def byID_def)
  ultimately obtain d where "rowOf 1 w7 = Some d" by auto
  with life stop show ?thesis by blast
qed

end
