(* ===== verification/Renewal_Scan.thy ===== *)
theory Renewal_Scan
  imports Cert_Api_Props
begin

text \<open>
  A whole run of runRenewalScan: which of the domains with an expiring certificate get a renewal, in which
  order, what happens when the slots run out, and that the other domains are left as they are.
\<close>

section \<open>What a round looks at and what it leaves\<close>

text \<open>
  The tests before the lock and those of the lock, for a domain with a certificate. The resolver is asked at
  time 0: it answers the same at any time.
\<close>

definition wantsRenewal :: "env \<Rightarrow> world \<Rightarrow> DomainRow \<Rightarrow> bool" where
  "wantsRenewal e w d \<longleftrightarrow> dStatus d \<notin> {''generating'', ''pending''} \<and> dAutoRenew d
     \<and> (case dAutoRenewBackoffUntil d of None \<Rightarrow> True | Some until \<Rightarrow> until \<le> clock w)
     \<and> dCNameTarget d \<noteq> [] \<and> cnameOK e 0 (dDomain d) (dCNameTarget d)"

definition mayRenew :: "env \<Rightarrow> world \<Rightarrow> DomainRow \<Rightarrow> bool" where
  "mayRenew e w d \<longleftrightarrow> wantsRenewal e w d
     \<and> \<not> inflight w (dID d) \<and> find (userByID (dUserID d)) (users w) \<noteq> None"

lemma mayRenew_later [simp]: "mayRenew e (later n w) = mayRenew e w"
  by (simp add: mayRenew_def wantsRenewal_def fun_eq_iff split: option.split)

text \<open>Everything that rounds on other domains than \<open>i\<close> look at.\<close>

definition elsewhere :: "uint \<Rightarrow> world \<Rightarrow> world \<Rightarrow> bool" where
  "elsewhere i w v \<longleftrightarrow> outside i v = outside i w \<and> clock v = clock w
     \<and> (\<forall>j. j \<noteq> i \<longrightarrow> inflight v j = inflight w j)"

lemma elsewhere_later [simp]: "elsewhere i w w" "elsewhere i w (later n w)"
  by (simp_all add: elsewhere_def outside_def)

lemma elsewhere_trans: "elsewhere i u v \<Longrightarrow> elsewhere i v w \<Longrightarrow> elsewhere i u w"
  by (simp add: elsewhere_def)

lemma elsewhere_eqs:
  assumes "elsewhere i w v"
  shows "users v = users w" and "clock v = clock w" and "j \<noteq> i \<Longrightarrow> rowOf j v = rowOf j w"
    and "j \<noteq> i \<Longrightarrow> hasCertRow j v = hasCertRow j w" and "j \<noteq> i \<Longrightarrow> inflight v j = inflight w j"
proof -
  show "users v = users w" "clock v = clock w" "j \<noteq> i \<Longrightarrow> inflight v j = inflight w j"
    using assms by (simp_all add: elsewhere_def outside_def)
  have "filter (\<lambda>d. dID d \<noteq> i) (domains v) = filter (\<lambda>d. dID d \<noteq> i) (domains w)"
    using assms by (simp add: elsewhere_def outside_def)
  then show "rowOf j v = rowOf j w" if "j \<noteq> i"
    using that find_filter [of "\<lambda>d. live d \<and> byID j d" "\<lambda>d. dID d \<noteq> i"] by (metis (no_types, lifting) rowOf_def byID_def)
  have "filter (\<lambda>c. cDomainID c \<noteq> i) (certs v) = filter (\<lambda>c. cDomainID c \<noteq> i) (certs w)"
    using assms by (simp add: elsewhere_def outside_def)
  then show "hasCertRow j v = hasCertRow j w" if "j \<noteq> i"
    using that find_filter [of "certOfDomain j" "\<lambda>c. cDomainID c \<noteq> i"]
    by (metis (no_types, lifting) hasCertRow_def certOf_def certOfDomain_def)
qed

lemma mayRenew_elsewhere: "elsewhere i w v \<Longrightarrow> dID d \<noteq> i \<Longrightarrow> mayRenew e v d = mayRenew e w d"
  by (simp add: mayRenew_def wantsRenewal_def elsewhere_eqs split: option.split)

text \<open>The lock, the start and the roll-back of a domain touch nothing elsewhere.\<close>

lemma elsewhereI:
  assumes "calm e" and "keeps (\<lambda>v. outside i v = outside i w) m" and "keeps (\<lambda>v. clock v = clock w \<and> jobs v = jobs w) m"
    and "run_state m w = (r, v)"
  shows "elsewhere i w v" and "jobs v = jobs w"
proof -
  have "outside i v = outside i w" "clock v = clock w \<and> jobs v = jobs w"
    using keepsD [OF assms(2)] keepsD [OF assms(3)] assms(4) by (metis snd_conv)+
  then show "elsewhere i w v" "jobs v = jobs w" by (simp_all add: elsewhere_def inflight_def)
qed

lemma lock_elsewhere:
  assumes "calm e" and "run_state (lockDomainForCertJob e d req) w = (r, v)"
  shows "elsewhere (dID d) w v" and "jobs v = jobs w"
proof -
  have books: "keeps (\<lambda>v. clock v = clock w \<and> jobs v = jobs w) (lockDomainForCertJob e d req)"
    by (rule keeps_lock [OF stable_calm_env [OF assms(1)]])
      (simp_all add: tableFree_def restoreTables_def cancelEntry_def cancelCtx_def split: option.split)
  have rows: "keeps (\<lambda>v. outside (dID d) v = outside (dID d) w) (lockDomainForCertJob e d req)"
    using others.lock [OF refl, where e = e and s = "outside (dID d) w" and row = d and renew = req] calm_alone [OF assms(1)] by simp
  show "elsewhere (dID d) w v" "jobs v = jobs w" by (rule elsewhereI [OF assms(1) rows books assms(2)])+
qed

lemma rollback_elsewhere:
  assumes "calm e" and "run_state (rollbackGeneratingDomain e i msg rv) w = (r, v)"
  shows "elsewhere i w v"
proof -
  have books: "keeps (\<lambda>v. clock v = clock w \<and> jobs v = jobs w) (rollbackGeneratingDomain e i msg rv)"
    by (intro keeps_frame_status stable_calm_env [OF assms(1)]) (simp_all add: tableFree_def restoreTables_def)
  have rows: "keeps (\<lambda>v. outside i v = outside i w) (rollbackGeneratingDomain e i msg rv)"
    using others.rollback [where e = e and i = i and s = "outside i w" and msg = msg and rv = rv] calm_alone [OF assms(1)] by simp
  show ?thesis by (rule elsewhereI [OF assms(1) rows books assms(2)])
qed

lemma start_elsewhere:
  assumes "calm e" and "run_state (StartCertJob e d u renew ar) w = (r, v)"
  shows "elsewhere (dID d) w v"
proof -
  let ?I = "\<lambda>v. elsewhere (dID d) w v"
  have st: "stable e ?I" by (rule stable_calm_env [OF assms(1)]) (simp add: elsewhere_def outside_def inflight_def)
  have books: "?I v" if "?I x" "outside (dID d) v = outside (dID d) x" "clock v = clock x"
      "\<And>j. j \<noteq> dID d \<Longrightarrow> inflight v j = inflight x j" for x v
    using that by (simp add: elsewhere_def)
  have cancel: "?I (cancelEntry (dID d) x)" if "?I x" for x
    by (rule books [OF that]) (simp_all add: outside_def inflight_def cancelEntry_def cancelCtx_def split: option.split)
  have register: "?I (registerJob (dID d) dl x)" if "?I x" for dl x
    by (rule books [OF that]) (simp_all add: outside_def inflight_def registry.reg_register, simp_all add: registerJob_def Let_def)
  have "keeps ?I (StartCertJob e d u renew ar)"
    unfolding StartCertJob_def
    by (intro keeps_intros keeps_begin keeps_act st cancel register; simp)
      (simp add: elsewhere_def outside_def inflight_def)
  then show ?thesis using keepsD [of ?I _ w] assms(2) by fastforce
qed

section \<open>One round\<close>

text \<open>The renewal of a domain that the scheduler starts, for the owner of the domain.\<close>

definition renewalJob :: "DomainRow \<Rightarrow> jobArgs \<Rightarrow> bool" where
  "renewalJob d j \<longleftrightarrow> jobDomain j = d \<and> uID (jobUser j) = dUserID d \<and> jobRenew j \<and> jobAutoRenew j"

text \<open>The job is in the registry and the row of the domain is locked.\<close>

definition underWay :: "world \<Rightarrow> uint \<Rightarrow> bool" where
  "underWay w i \<longleftrightarrow> inflight w i \<and> (\<exists>d. rowOf i w = Some d \<and> dStatus d = ''generating'')"

definition started :: "DomainRow \<Rightarrow> world \<Rightarrow> world \<Rightarrow> bool" where
  "started d w v \<longleftrightarrow> slots v = Suc (slots w) \<and> (\<exists>j. spawned v = spawned w @ [j] \<and> renewalJob d j) \<and> underWay v (dID d)"

lemma lockAndStart_round:
  assumes "calm e" and "0 < generatingTimeout e" and "wf_store w" and "rowOf (dID d) w = Some d" and "hasCertRow (dID d) w"
    and "dStatus d \<noteq> ''generating''" and "run_state (lockAndStartRenewal e d) w = (r, w')"
  shows "r = Some () \<and> elsewhere (dID d) w w'
    \<and> (if \<not> inflight w (dID d) \<and> find (userByID (dUserID d)) (users w) \<noteq> None \<and> slots w < certJobSlotsCap e
        then started d w w' else sameAlloc w w')"
proof -
  let ?i = "dID d"
  obtain l v where lock: "run_state (lockDomainForCertJob e d True) w = (l, v)" by fastforce
  note here = lock_elsewhere [OF assms(1) lock] and alloc = lock_alloc [OF assms(1) lock]
  have outcome: "if inflight w ?i then \<exists>err. l = Some (Inl err)
      else \<exists>res. l = Some res \<and> lockResult ?i d (clock w - generatingTimeout e) w res v"
    using lock_calm [OF assms(1,3,4) refl lock refl] assms(5,6) by (auto simp: staleGenerating_def split: if_splits)
  show ?thesis
  proof (cases "\<exists>u. l = Some (Inr u)")
    case False
    then obtain err where l: "l = Some (Inl err)" using outcome by (metis sum.exhaust)
    then have "inflight w ?i \<or> find (userByID (dUserID d)) (users w) = None"
      using outcome assms(6) by (auto simp: lockResult_def lockable_def split: option.splits if_splits)
    then show ?thesis using assms(7) lock l here(1) alloc by (auto simp: lockAndStartRenewal_def)
  next
    case True
    then obtain u where l: "l = Some (Inr u)" by blast
    then have free: "\<not> inflight w ?i" and user: "find (userByID (dUserID d)) (users w) = Some u"
      and row: "\<exists>d'. rowOf ?i v = Some d' \<and> dStatus d' = ''generating''"
      using outcome assms(6) by (auto simp: lockResult_def lockable_def stamp_def lockCols_def split: option.splits if_splits)
    show ?thesis
    proof (cases "slots w < certJobSlotsCap e")
      case False
      then obtain x where "run_state (rollbackGeneratingDomain e ?i [] True) (later 1 v) = (x, w')" "r = Some ()"
        using assms(1,7) lock l alloc by (auto simp: lockAndStartRenewal_def run_simps sendSlot_def sameAlloc_def split: prod.splits)
      then have "elsewhere ?i (later 1 v) w'" "w' = rolledBack ?i [] True (later 1 v)" "r = Some ()"
        using rollback_elsewhere assms(1) by (auto simp: run_simps)
      moreover have "sameAlloc w (rolledBack ?i [] True (later 1 v))"
        using alloc rolledBack_settles row by (fastforce simp: sameAlloc_def rolledBack_spawned)
      ultimately show ?thesis using False here(1) elsewhere_trans elsewhere_later by metis
    next
      case True
      let ?v = "(later 1 v)\<lparr>slots := Suc (slots w)\<rparr>"
      have start: "run_state (StartCertJob e d u True True) ?v = (r, w')"
        using True assms(1,7) lock l alloc by (simp add: lockAndStartRenewal_def run_simps sendSlot_def sameAlloc_def)
      have "elsewhere ?i v ?v" by (simp add: elsewhere_def outside_def inflight_def)
      then have "elsewhere ?i w w'" using elsewhere_trans here(1) start_elsewhere [OF assms(1) start] by blast
      moreover have "r = Some ()" "domains w' = domains v" "slots w' = Suc (slots w)"
          "\<exists>t. spawned w' = spawned w @ [\<lparr>jobToken = t, jobDomain = d, jobUser = u, jobRenew = True, jobAutoRenew = True\<rparr>]
             \<and> activeJob w' ?i t"
        using start_registers [OF assms(1,2) start] alloc by (simp_all add: sameAlloc_def)
      moreover from this have "inflight w' ?i" by (auto simp: activeJob_def inflight_def)
      moreover have "uID u = dUserID d" using find_SomeD [OF user] by (simp add: userByID_def)
      moreover have "rowOf ?i w' = rowOf ?i v" using \<open>domains w' = domains v\<close> by (simp add: rowOf_def)
      ultimately show ?thesis using free user True row by (auto simp: started_def underWay_def renewalJob_def)
    qed
  qed
qed

lemma cnameOK_steady: "\<forall>n. lookupCNAME e n = lookupCNAME e 0 \<Longrightarrow> cnameOK e n h t = cnameOK e 0 h t"
  by (simp add: cnameOK_def) metis

lemma run_tests:
  assumes "calm e" and "\<forall>n. lookupCNAME e n = lookupCNAME e 0"
  shows "\<exists>k. run_state (tryAutoRenewDomain e d) w =
    (if wantsRenewal e w d then run_state (lockAndStartRenewal e d) (later k w) else (Some (), later k w))"
proof -
  have later0: "later 0 w = w" by (simp add: later_def)
  obtain n where backoff: "run_state (inBackoff e d) w =
      (\<not> (case dAutoRenewBackoffUntil d of None \<Rightarrow> True | Some until \<Rightarrow> until \<le> clock w), later n w)"
    using assms(1) later0 that [of 0] that [of 1] by (cases "dAutoRenewBackoffUntil d") (auto simp: inBackoff_def run_simps Before_def not_le)
  obtain x where x: "run_state (VerifyChallengeCNAME e (dDomain d) (dCNameTarget d)) (later n w) = (x, later (Suc n) w)"
    using Verify_state [of e "dDomain d" "dCNameTarget d" "later n w"] assms(1)
    by (metis add_Suc_right later_later add_0_right prod.collapse settle_calm)
  then have verdict: "(x = Inr ()) = cnameOK e 0 (dDomain d) (dCNameTarget d)"
    using Verify_ok cnameOK_steady [OF assms(2)] by (metis fst_conv)
  show ?thesis
  proof (cases "dStatus d \<in> {''generating'', ''pending''} \<or> \<not> dAutoRenew d")
    case True
    then show ?thesis by (intro exI [of _ 0]) (auto simp: tryAutoRenewDomain_def wantsRenewal_def later0)
  next
    case False
    then show ?thesis using backoff x verdict
      by (cases x) (auto simp: tryAutoRenewDomain_def wantsRenewal_def simp del: run_Verify)
  qed
qed

lemma renew_round:
  assumes "calm e" and "\<forall>n. lookupCNAME e n = lookupCNAME e 0" and "0 < generatingTimeout e"
    and "wf_store w" and "rowOf (dID d) w = Some d" and "hasCertRow (dID d) w"
    and "run_state (tryAutoRenewDomain e d) w = (r, w')"
  shows "r = Some () \<and> elsewhere (dID d) w w'
    \<and> (if mayRenew e w d \<and> slots w < certJobSlotsCap e then started d w w' else sameAlloc w w')"
proof -
  obtain k where run: "(if wantsRenewal e w d then run_state (lockAndStartRenewal e d) (later k w) else (Some (), later k w)) = (r, w')"
    using run_tests [OF assms(1,2), of d w] assms(7) by metis
  show ?thesis
  proof (cases "wantsRenewal e w d")
    case False
    then show ?thesis using run by (auto simp: mayRenew_def)
  next
    case True
    have "wf_store (later k w)" using assms(4) by (simp add: wf_store_def)
    from lockAndStart_round [OF assms(1,3) this, of d r w'] True assms(5,6) run
    have "r = Some ()" "elsewhere (dID d) (later k w) w'"
      "if \<not> inflight w (dID d) \<and> find (userByID (dUserID d)) (users w) \<noteq> None \<and> slots w < certJobSlotsCap e
       then started d (later k w) w' else sameAlloc (later k w) w'"
      by (auto simp: wantsRenewal_def)
    then show ?thesis
      using True elsewhere_trans [OF elsewhere_later(2)]
      by (auto simp: mayRenew_def started_def sameAlloc_def split: if_splits)
  qed
qed

section \<open>The scan\<close>

text \<open>The domains of the given certificates that may be renewed, in the order of the certificates.\<close>

definition renewables :: "env \<Rightarrow> world \<Rightarrow> CertRow list \<Rightarrow> DomainRow list" where
  "renewables e w cs = filter (mayRenew e w) (List.map_filter (\<lambda>c. rowOf (cDomainID c) w) cs)"

lemma renewables_simps [simp]:
  "renewables e w [] = []"
  "renewables e w (c # cs) = (case rowOf (cDomainID c) w of
     Some d \<Rightarrow> if mayRenew e w d then d # renewables e w cs else renewables e w cs
   | None \<Rightarrow> renewables e w cs)"
  by (simp_all add: renewables_def split: option.split)

lemma renewables_cong:
  assumes "elsewhere i w v" and "\<forall>c \<in> set cs. cDomainID c \<noteq> i"
  shows "renewables e v cs = renewables e w cs"
  using assms(2)
  by (induction cs) (auto simp: elsewhere_eqs(3) [OF assms(1)] mayRenew_elsewhere [OF assms(1)] rowOf_id
      split: option.split dest: rowOf_id)

definition scanRound :: "env \<Rightarrow> CertRow \<Rightarrow> (world, unit option) state" where
  "scanRound e c = do {
     d \<leftarrow> FirstDomain e (byID (cDomainID c));
     case d of Inl _ \<Rightarrow> State_Monad.return (Some ()) | Inr domain \<Rightarrow> tryAutoRenewDomain e domain
   }"

lemma scan_rounds:
  "runRenewalScan e = do {
     now \<leftarrow> Now e;
     r \<leftarrow> Find e certs (\<lambda>c. cExpiresAt c \<le> addDays e now (if RenewBeforeDays (Renewal (cfg e)) \<le> 0 then 30
       else RenewBeforeDays (Renewal (cfg e))));
     case r of Inl _ \<Rightarrow> State_Monad.return (Some ()) | Inr cs \<Rightarrow> forEachO cs (scanRound e)
   }"
  unfolding runRenewalScan_def scanRound_def [abs_def] Let_def by (rule refl)

lemma run_round:
  assumes "calm e" and "\<forall>n. lookupCNAME e n = lookupCNAME e 0" and "0 < generatingTimeout e"
    and "wf_store w" and "hasCertRow (cDomainID c) w"
  obtains w' where "run_state (scanRound e c) w = (Some (), w')" and "wf_store w'" and "elsewhere (cDomainID c) w w'"
    and "case rowOf (cDomainID c) w of
        Some d \<Rightarrow> if mayRenew e w d \<and> slots w < certJobSlotsCap e then started d w w' else sameAlloc w w'
      | None \<Rightarrow> sameAlloc w w'"
proof (cases "rowOf (cDomainID c) w")
  case None
  have "run_state (scanRound e c) w = (Some (), later 1 w)" using assms(1) None by (simp add: scanRound_def run_simps)
  then show thesis using that [of "later 1 w"] None assms(4) by (simp add: wf_store_def)
next
  case (Some d)
  then have id: "dID d = cDomainID c" by (auto dest: rowOf_id)
  obtain r w' where run: "run_state (tryAutoRenewDomain e d) (later 1 w) = (r, w')" by fastforce
  have wf: "wf_store (later 1 w)" using assms(4) by (simp add: wf_store_def)
  from renew_round [OF assms(1-3) wf _ _ run] Some id assms(5)
  have out: "r = Some ()" "elsewhere (dID d) (later 1 w) w'"
      "if mayRenew e w d \<and> slots w < certJobSlotsCap e then started d (later 1 w) w' else sameAlloc (later 1 w) w'"
    by (auto split: if_splits)
  have "stable e wf_store" by (rule stable_calm_env [OF assms(1)]) simp
  then have "wf_store w'" using keepsD [OF keeps_wf_scheduler(4) wf] run by (metis snd_conv)
  moreover have "elsewhere (dID d) w w'" using elsewhere_trans [OF elsewhere_later(2) out(2)] .
  moreover have "run_state (scanRound e c) w = (Some (), w')" using assms(1) Some run out(1) by (simp add: scanRound_def run_simps)
  ultimately show thesis
    using that [of w'] Some id out(3) by (auto simp: started_def sameAlloc_def split: if_splits)
qed

lemma scan_loop:
  assumes "calm e" and "\<forall>n. lookupCNAME e n = lookupCNAME e 0" and "0 < generatingTimeout e"
  shows "wf_store w \<Longrightarrow> distinct (map cDomainID cs) \<Longrightarrow> \<forall>c \<in> set cs. hasCertRow (cDomainID c) w \<Longrightarrow>
    \<exists>w' js. run_state (forEachO cs (scanRound e)) w = (Some (), w') \<and> spawned w' = spawned w @ js
      \<and> slots w' = slots w + length js
      \<and> list_all2 renewalJob (take (certJobSlotsCap e - slots w) (renewables e w cs)) js
      \<and> (\<forall>d \<in> set (take (certJobSlotsCap e - slots w) (renewables e w cs)). underWay w' (dID d))
      \<and> (\<forall>i. i \<notin> cDomainID ` set cs \<longrightarrow> rowOf i w' = rowOf i w \<and> inflight w' i = inflight w i)"
proof (induction cs arbitrary: w)
  case (Cons c cs)
  let ?i = "cDomainID c" and ?free = "\<lambda>w. certJobSlotsCap e - slots w"
  have "hasCertRow ?i w" using Cons.prems(3) by simp
  from run_round [OF assms Cons.prems(1) this]
  obtain v where v: "run_state (scanRound e c) w = (Some (), v)" "wf_store v" "elsewhere ?i w v"
      "case rowOf ?i w of
        Some d \<Rightarrow> if mayRenew e w d \<and> slots w < certJobSlotsCap e then started d w v else sameAlloc w v
      | None \<Rightarrow> sameAlloc w v" .
  note same = elsewhere_eqs [OF v(3)]
  have others: "\<forall>x \<in> set cs. cDomainID x \<noteq> ?i" using Cons.prems(2) by (auto simp: image_iff)
  then have "\<forall>x \<in> set cs. hasCertRow (cDomainID x) v" using Cons.prems(3) same(4) by simp
  with Cons.IH [OF v(2)] Cons.prems(2) obtain w' js where
    IH: "run_state (forEachO cs (scanRound e)) v = (Some (), w')" "spawned w' = spawned v @ js"
      "slots w' = slots v + length js" "list_all2 renewalJob (take (?free v) (renewables e w cs)) js"
      "\<forall>d \<in> set (take (?free v) (renewables e w cs)). underWay w' (dID d)"
      "\<forall>i. i \<notin> cDomainID ` set cs \<longrightarrow> rowOf i w' = rowOf i v \<and> inflight w' i = inflight v i"
    by (auto simp: renewables_cong [OF v(3) others])
  have run: "run_state (forEachO (c # cs) (scanRound e)) w = (Some (), w')" using v(1) IH(1) by simp
  have rest: "\<forall>i. i \<notin> cDomainID ` set (c # cs) \<longrightarrow> rowOf i w' = rowOf i w \<and> inflight w' i = inflight w i"
    using IH(6) same(3,5) by simp
  show ?case
  proof (cases "\<exists>d. rowOf ?i w = Some d \<and> mayRenew e w d \<and> slots w < certJobSlotsCap e")
    case True
    then obtain d j where d: "rowOf ?i w = Some d" "mayRenew e w d" "slots w < certJobSlotsCap e" "slots v = Suc (slots w)"
        "spawned v = spawned w @ [j]" "renewalJob d j" "underWay v (dID d)"
      using v(4) by (auto simp: started_def)
    have "dID d = ?i" using d(1) by (auto dest: rowOf_id)
    then have "underWay w' (dID d)" using d(7) IH(6) others by (force simp: underWay_def)
    moreover have "?free w = Suc (?free v)" using d(3,4) by simp
    ultimately show ?thesis using run rest d IH by (intro exI [of _ w'] exI [of _ "j # js"]) simp
  next
    case False
    then have "sameAlloc w v" using v(4) by (auto split: option.splits)
    then have alloc: "slots v = slots w" "spawned v = spawned w" by (simp_all add: sameAlloc_def)
    moreover have "take (?free w) (renewables e w (c # cs)) = take (?free v) (renewables e w cs)"
      using False alloc(1) by (auto split: option.splits)
    ultimately show ?thesis using run rest IH by (intro exI [of _ w'] exI [of _ js]) simp
  qed
qed simp

text \<open>The certificates that expire within the days before expiry at which a renewal is due.\<close>

definition expiring :: "env \<Rightarrow> world \<Rightarrow> CertRow list" where
  "expiring e w = filter (\<lambda>c. cExpiresAt c \<le> addDays e (clock w)
     (if RenewBeforeDays (Renewal (cfg e)) \<le> 0 then 30 else RenewBeforeDays (Renewal (cfg e)))) (certs w)"

text \<open>
  Property C13. What a run of the automatic renewal does (no interference, no faults, a resolver that gives
  the same answers throughout): of the domains whose certificate expires within the configured days, it
  starts a renewal, for the owner, of exactly those that may be renewed, in the order of the certificates,
  until the slots run out. Each takes a slot, is in flight and has its row locked. The run returns, and the
  rows of the domains whose certificate does not expire are as they were.
\<close>

theorem renewal_scan_outcome:
  assumes "calm e" and "\<forall>n. lookupCNAME e n = lookupCNAME e 0" and "0 < generatingTimeout e" and "wf_store w"
    and "run_state (runRenewalScan e) w = (r, w')"
    and "ds = take (certJobSlotsCap e - slots w) (renewables e w (expiring e w))"
  shows "r = Some () \<and> (\<exists>js. spawned w' = spawned w @ js \<and> list_all2 renewalJob ds js)
    \<and> slots w' = slots w + length ds \<and> (\<forall>d \<in> set ds. underWay w' (dID d))
    \<and> (\<forall>i. i \<notin> cDomainID ` set (expiring e w) \<longrightarrow> rowOf i w' = rowOf i w)"
proof -
  let ?w = "later 2 w"
  have run: "run_state (forEachO (expiring e w) (scanRound e)) ?w = (r, w')"
    using assms(1,5) by (simp add: scan_rounds run_simps Find_def expiring_def eval_nat_numeral)
  have same: "renewables e ?w cs = renewables e w cs" for cs
    by (induction cs) (auto split: option.split)
  have "wf_store ?w" using assms(4) by (simp add: wf_store_def)
  moreover have "distinct (map cDomainID (expiring e w))"
    using assms(4) by (simp add: expiring_def wf_store_def wf_certs_def distinct_map_filter)
  moreover have "\<forall>c \<in> set (expiring e w). hasCertRow (cDomainID c) ?w"
    by (auto simp: expiring_def hasCertRow_def certOf_def find_None_iff certOfDomain_def)
  ultimately obtain js where "spawned w' = spawned w @ js" "slots w' = slots w + length js" "r = Some ()"
      "list_all2 renewalJob ds js" "\<forall>d \<in> set ds. underWay w' (dID d)"
      "\<forall>i. i \<notin> cDomainID ` set (expiring e w) \<longrightarrow> rowOf i w' = rowOf i w"
    using scan_loop [OF assms(1-3), of ?w "expiring e w"] run unfolding assms(6) by (auto simp: same)
  then show ?thesis by (auto dest: list_all2_lengthD)
qed

theorem renewal_scan_outcome_witness:
  "\<exists>w' j. run_state (runRenewalScan idleEnv) (sampleWorld ''active'' [sampleCert] []) = (Some (), w')
     \<and> spawned w' = [j] \<and> uID (jobUser j) = 7 \<and> underWay w' 1"
proof -
  let ?w = "sampleWorld ''active'' [sampleCert] []"
  obtain r w' where run: "run_state (runRenewalScan idleEnv) ?w = (r, w')" by fastforce
  have "expiring idleEnv ?w = [sampleCert]"
    by (simp add: expiring_def prodCfg_def setDefaults_def Day_def Hour_def)
  moreover have "mayRenew idleEnv ?w (sampleDomain ''active'')"
    by (simp add: mayRenew_def wantsRenewal_def sample_cname inflight_def userByID_def user7)
  ultimately have ds: "take (certJobSlotsCap idleEnv - slots ?w) (renewables idleEnv ?w (expiring idleEnv ?w)) = [sampleDomain ''active'']"
    using certJobSlotsCap_pos [of idleEnv] by (simp add: Suc_le_eq)
  have "wf_store ?w" "0 < generatingTimeout idleEnv" by (simp_all add: statuses_def Minute_def)
  moreover have "\<forall>n. lookupCNAME idleEnv n = lookupCNAME idleEnv 0" by (simp add: sampleLookup_def fun_eq_iff)
  ultimately show ?thesis
    using renewal_scan_outcome [OF calm_idleEnv _ _ _ run ds [symmetric]] run
    by (auto simp: renewalJob_def list_all2_Cons1)
qed

end
