(* ===== verification/Delegation_Props.thy ===== *)
theory Delegation_Props
  imports Acme_Props Http
begin

text \<open>
  The records of two jobs that follow each other on one delegation target: the second replaces the record
  of the first, and the late clean-up of the first leaves the record of the second alone.
\<close>

section \<open>What the provider's calls leave alone\<close>

definition dnsSame :: "world \<Rightarrow> world \<Rightarrow> bool" where
  "dnsSame w v \<longleftrightarrow> delegation v = delegation w \<and> cfCalls v = cfCalls w \<and> domains v = domains w"

lemma quiet_stable: "quiet e \<Longrightarrow> (\<And>w n. I (w\<lparr>tick := n\<rparr>) = I w) \<Longrightarrow> stable e I"
  by (simp add: quiet_def stable_def)

lemma stable_dnsSame: "quiet e \<Longrightarrow> stable e (dnsSame w)"
  by (rule quiet_stable) (simp_all add: dnsSame_def)

lemma dnsSame_record: "dnsSame w v \<Longrightarrow> delegationRecord v = delegationRecord w"
  by (simp add: dnsSame_def delegationRecord_def fun_eq_iff)

lemma require_dnsSame: "quiet e \<Longrightarrow> run_state (requireACMEActive e c) w = (r, v) \<Longrightarrow> dnsSame w v"
  using keepsD [OF keeps_requireACMEActive [OF stable_dnsSame], of e w w c] by (simp add: dnsSame_def)

lemma dns_calls_rows:
  "createTXT e c cl name content w = (r, w') \<Longrightarrow> domains w' = domains w"
  "deleteTXT e c cl rid w = (q, v) \<Longrightarrow> domains v = domains w"
  by (auto simp: createTXT_def deleteTXT_def tickOn_def Let_def split: option.splits sum.splits prod.splits)

lemma replace_rows:
  assumes "quiet e" and "run_state (replaceDelegationTXT e c cl name content) w = (r, w')"
  shows "domains w' = domains w"
proof -
  have section_rows: "domains (snd (replaceSection e c cl name content v)) = domains v" for v
    using assms(1) dns_calls_rows
    by (auto simp: replaceSection_def duringSection_def settle_quiet setDelegation_def Let_def
        split: option.split sum.split prod.split)
  obtain q v where q: "run_state (requireACMEActive e c) w = (q, v)" by fastforce
  then have "domains v = domains w" using require_dnsSame [OF assms(1)] by (simp add: dnsSame_def)
  then show ?thesis
    using assms q section_rows [of "settle e v"]
    by (cases q) (auto simp: replaceDelegationTXT_def run_simps settle_quiet)
qed

text \<open>The row that the lookup of the target reads.\<close>

definition targetRow :: "env \<Rightarrow> uint \<Rightarrow> string \<Rightarrow> world \<Rightarrow> DomainRow option" where
  "targetRow e u domain w = find (\<lambda>d. live d \<and> dDomain d = NormalizeDomain (uni (osenv e)) domain \<and> dUserID d = u) (domains w)"

lemma lookup_effect:
  assumes "quiet e" and "run_state (delegationTargetLookup e u domain) w = (r, v)"
  shows "dnsSame w v" and "r = Inr t \<Longrightarrow> \<exists>d. targetRow e u domain w = Some d \<and> t = dCNameTarget d"
  using assms
  by (auto simp: delegationTargetLookup_def run_FirstDomain_gen dnsSame_def settle_quiet targetRow_def Let_def
      split: option.splits if_splits)

text \<open>A challenge that was presented: its record is the one the target remembers, the one before it is gone.\<close>

lemma present_effect:
  assumes "quiet e" and "getDelegationTarget d = delegationTargetLookup e u"
    and "run_state (Present e info domain tok keyAuth d) w = ((Inr (), d'), w')"
  obtains row name rid where "targetRow e u domain w = Some row" and "name = UnFqdn (ToFqdn (dCNameTarget row))"
    and "recordIDs d' tok = Some rid" and "targetNames d' tok = Some name" and "delegationRecord w' name = rid"
    and "domains w' = domains w"
    and "cfCalls w' = CreateTXT name (info domain keyAuth) #
      (if delegationRecord w name \<noteq> [] then [DeleteTXT (delegationRecord w name)] else []) @ cfCalls w"
proof -
  obtain q1 w1 where q1: "run_state (requireACMEActive e (providerCtx d)) w = (q1, w1)" by fastforce
  obtain t w2 where t: "run_state (delegationTargetLookup e u domain) w1 = (t, w2)" by fastforce
  obtain target where ok: "q1 = Inr ()" "t = Inr target"
    using assms(2,3) q1 t by (auto simp: Present_def split: sum.splits)
  define name where "name = UnFqdn (ToFqdn target)"
  obtain r cl where r: "run_state (replaceDelegationTXT e (providerCtx d) (dnsClient d) name (info domain keyAuth)) w2 = ((r, cl), w')"
      and d': "\<exists>rid. r = Inr rid \<and> recordIDs d' tok = Some rid \<and> targetNames d' tok = Some name"
    using assms(2,3) q1 t ok by (auto simp: Present_def name_def [symmetric] split: sum.splits prod.splits)
  let ?v = "sectionStart e (providerCtx d) w2"
  have "dnsSame w w1" "dnsSame w1 w2"
    using require_dnsSame [OF assms(1) q1] lookup_effect(1) [OF assms(1) t] by simp_all
  moreover have "dnsSame w2 ?v"
    using require_dnsSame [OF assms(1), of "providerCtx d" w2] assms(1)
    by (cases "run_state (requireACMEActive e (providerCtx d)) w2") (simp add: sectionStart_def settle_quiet dnsSame_def)
  ultimately have same: "dnsSame w ?v" "dnsSame w w1" "domains w2 = domains w" by (simp_all add: dnsSame_def)
  obtain row where "targetRow e u domain w = Some row" "target = dCNameTarget row"
    using lookup_effect(2) [OF assms(1) t ok(2)] same(2) by (auto simp: targetRow_def dnsSame_def)
  moreover have "domains w' = domains w" using replace_rows [OF assms(1) r] same(3) by simp
  moreover obtain rid where "r = Inr rid" "recordIDs d' tok = Some rid" "targetNames d' tok = Some name" using d' by blast
  ultimately show thesis
    using that [of row name rid] replace_follows_newest [OF r refl] same(1)
    by (simp add: name_def dnsSame_def dnsSame_record [OF same(1)])
qed

lemma cleanup_current:
  assumes "quiet e" and "recordIDs d tok = Some rid" and "targetNames d tok = Some name"
    and "delegationRecord w name = rid" and "run_state (CleanUp e tok d) w = ((Inr (), d'), w')"
  shows "delegationRecord w' name = [] \<and> cfCalls w' = DeleteTXT rid # cfCalls w"
  using assms
  by (auto simp: CleanUp_def releaseDelegationTXT_def deleteTXT_def tickOn_def run_simps settle_quiet delegationRecord_def
      setDelegation_def split: if_splits option.splits sum.splits prod.splits)

section \<open>Two jobs on one target\<close>

text \<open>Anything else may go on between the calls: only the provider writes records, and the target of a name stays.\<close>

definition meanwhile :: "env \<Rightarrow> uint \<Rightarrow> string \<Rightarrow> world \<Rightarrow> world \<Rightarrow> bool" where
  "meanwhile e u domain w v \<longleftrightarrow> delegation v = delegation w \<and> cfCalls v = cfCalls w
     \<and> map_option dCNameTarget (targetRow e u domain v) = map_option dCNameTarget (targetRow e u domain w)"

text \<open>
  Property C34. Jobs that follow each other on one delegation target do not disturb each other (no
  interference inside a call; between the calls jobs end and start): when two jobs of a user present a challenge
  of the same domain one after the other, the second replaces the record of the first; when the first then
  cleans up, late, nothing is sent and the target keeps the record of the second; and the clean-up of the
  second takes it away. The API is asked to create each record once and to delete each once, the first
  before the second is created.
\<close>

theorem delegation_handover:
  assumes "quiet e" and "getDelegationTarget d1 = delegationTargetLookup e u" and "getDelegationTarget d2 = delegationTargetLookup e u"
    and "run_state (Present e info domain tok1 key1 d1) w = ((Inr (), d1'), w1)" and "meanwhile e u domain w1 v1"
    and "run_state (Present e info domain tok2 key2 d2) v1 = ((Inr (), d2'), w2)" and "meanwhile e u domain w2 v2"
    and "run_state (CleanUp e tok1 d1') v2 = ((r, d1''), w3)" and "meanwhile e u domain w3 v3"
    and "run_state (CleanUp e tok2 d2') v3 = ((Inr (), d2''), w4)"
    and "recordIDs d1' tok1 \<notin> {Some [], recordIDs d2' tok2}"
  shows "\<exists>name rid1 rid2. targetNames d1' tok1 = Some name \<and> recordIDs d1' tok1 = Some rid1 \<and> recordIDs d2' tok2 = Some rid2
    \<and> r = Inr () \<and> delegationRecord w3 name = rid2 \<and> cfCalls w3 = cfCalls w2 \<and> delegationRecord w4 name = []
    \<and> cfCalls w4 = [DeleteTXT rid2, CreateTXT name (info domain key2), DeleteTXT rid1, CreateTXT name (info domain key1)]
        @ (if delegationRecord w name \<noteq> [] then [DeleteTXT (delegationRecord w name)] else []) @ cfCalls w"
proof -
  have still: "delegationRecord v = delegationRecord x" "cfCalls v = cfCalls x" if "meanwhile e u domain x v" for x v
    using that by (simp_all add: meanwhile_def delegationRecord_def fun_eq_iff)
  obtain row name rid1 where first: "targetRow e u domain w = Some row" "name = UnFqdn (ToFqdn (dCNameTarget row))"
      "recordIDs d1' tok1 = Some rid1" "targetNames d1' tok1 = Some name" "delegationRecord w1 name = rid1" "domains w1 = domains w"
      "cfCalls w1 = CreateTXT name (info domain key1) #
        (if delegationRecord w name \<noteq> [] then [DeleteTXT (delegationRecord w name)] else []) @ cfCalls w"
    using present_effect [OF assms(1,2,4)] by metis
  obtain row' name' rid2 where "targetRow e u domain v1 = Some row'" "name' = UnFqdn (ToFqdn (dCNameTarget row'))"
      "recordIDs d2' tok2 = Some rid2" "targetNames d2' tok2 = Some name'" "delegationRecord w2 name' = rid2"
      "cfCalls w2 = CreateTXT name' (info domain key2) #
        (if delegationRecord v1 name' \<noteq> [] then [DeleteTXT (delegationRecord v1 name')] else []) @ cfCalls v1"
    using present_effect [OF assms(1,3,6)] by metis
  moreover from this first(1,2,6) have "name' = name" using assms(5) by (simp add: targetRow_def meanwhile_def)
  ultimately have second: "recordIDs d2' tok2 = Some rid2" "targetNames d2' tok2 = Some name" "delegationRecord w2 name = rid2"
      "cfCalls w2 = [CreateTXT name (info domain key2), DeleteTXT rid1] @ cfCalls w1"
    using first(3,5) assms(11) still [OF assms(5)] by auto
  have unmoved: "delegationRecord (settle e v) = delegationRecord v" for v
    using assms(1) by (simp add: settle_quiet delegationRecord_def fun_eq_iff)
  have "delegationRecord (settle e v2) name \<noteq> rid1"
    using second(1,3) first(3) assms(11) unmoved still [OF assms(7)] by auto
  from stale_cleanup_harmless [OF first(3,4) this] assms(8)
  have late: "r = Inr ()" "w3 = settle e v2" by auto
  then have kept: "delegationRecord w3 name = rid2" "cfCalls w3 = cfCalls w2"
    using second(3) unmoved assms(1) still [OF assms(7)] by (simp_all add: settle_quiet)
  from cleanup_current [OF assms(1) second(1,2) _ assms(10)] show ?thesis
    using first(3,4,7) second(1,4) late(1) kept still [OF assms(9)] by auto
qed

text \<open>An API that numbers its records, and the providers of two jobs of one domain.\<close>

definition numberingEnv :: env where
  "numberingEnv = idleEnv\<lparr>cfCreate := (\<lambda>n. Inr (if n < 8 then ''rec1'' else ''rec2''))\<rparr>"

definition jobProvider :: "token \<Rightarrow> provider" where
  "jobProvider t = \<lparr>providerCtx = jobScopeCtx 1 t, dnsClient = sampleClient,
     getDelegationTarget = delegationTargetLookup numberingEnv 7, recordIDs = Map.empty, targetNames = Map.empty\<rparr>"

lemma numberingEnv_calm: "calm numberingEnv" "quiet numberingEnv"
  using calm_idleEnv by (simp_all add: numberingEnv_def calm_def quiet_def faultless_def)

lemma numberingEnv_fields [simp]:
  "osenv numberingEnv = prodOs" "dbfail numberingEnv = (\<lambda>_. None)" "cfZone numberingEnv n z = Inr ''zone''"
  "cfCreate numberingEnv n = Inr (if n < 8 then ''rec1'' else ''rec2'')" "cfDelete numberingEnv n = Inr ()"
  by (simp_all add: numberingEnv_def)

lemma sample_name: "NormalizeDomain asciiOnly ''example.com'' = ''example.com''"
  "UnFqdn (ToFqdn ''1.cname.yourservice.com'') = ''1.cname.yourservice.com''"
  by code_simp+

lemma run_sample_present:
  assumes "activeJob w 1 t" and "domains w = [sampleDomain st]"
  shows "run_state (Present numberingEnv info ''example.com'' tok key (jobProvider t)) w =
    (let name = ''1.cname.yourservice.com''; old = delegationRecord w name;
         n = tick w + (if old = [] then 7 else 8); rid = (if n < 8 then ''rec1'' else ''rec2'') in
     ((Inr (), jobProvider t\<lparr>dnsClient := sampleClient\<lparr>zoneOnce := Some (Inr ''zone'')\<rparr>,
         recordIDs := [tok \<mapsto> rid], targetNames := [tok \<mapsto> name]\<rparr>),
      w\<lparr>tick := Suc n, delegation := (delegation w)(name \<mapsto> rid),
        cfCalls := CreateTXT name (info ''example.com'' key) # (if old = [] then [] else [DeleteTXT old]) @ cfCalls w\<rparr>))"
proof -
  let ?e = numberingEnv
  have act: "activeJob (later n w) 1 t" "scopeErr (later n w) (jobScopeCtx 1 t) = None" for n
    using assms(1) by (auto simp: scopeErr_def WithCertJobScope_def activeJob_ctx)
  have req: "run_state (requireACMEActive ?e (jobScopeCtx 1 t)) (later n w) = (Inr (), later (Suc (Suc n)) w)" for n
    using run_runACME_calm [OF numberingEnv_calm(1) act(1)] by (simp add: eval_nat_numeral)
  have first: "run_state (requireACMEActive ?e (jobScopeCtx 1 t)) w = (Inr (), later (Suc (Suc 0)) w)"
    using run_runACME_calm [OF numberingEnv_calm(1) assms(1)] by (simp add: eval_nat_numeral)
  have lookup: "run_state (delegationTargetLookup ?e 7 ''example.com'') (later n w) = (Inr ''1.cname.yourservice.com'', later (Suc n) w)" for n
    using assms(2) numberingEnv_calm(1)
    by (simp add: delegationTargetLookup_def run_FirstDomain_gen run_simps Let_def sample_name prodOs_def live_def)
  let ?w6 = "later (Suc (Suc (Suc (Suc (Suc (Suc 0)))))) w"
  have replace: "run_state (replaceDelegationTXT ?e (jobScopeCtx 1 t) sampleClient name content) (later (Suc (Suc (Suc 0))) w) =
      replaceSection ?e (jobScopeCtx 1 t) sampleClient name content ?w6" for name content
    using numberingEnv_calm(1) by (simp add: replaceDelegationTXT_def req run_act settle_calm del: One_nat_def)
  have present: "run_state (Present ?e info ''example.com'' tok key (jobProvider t)) w =
    (case replaceSection ?e (jobScopeCtx 1 t) sampleClient ''1.cname.yourservice.com'' (info ''example.com'' key) ?w6 of
       ((Inl err, cl), v) \<Rightarrow> ((Inl err, jobProvider t\<lparr>dnsClient := cl\<rparr>), v)
     | ((Inr rid, cl), v) \<Rightarrow> ((Inr (), jobProvider t\<lparr>dnsClient := cl, recordIDs := [tok \<mapsto> rid],
           targetNames := [tok \<mapsto> ''1.cname.yourservice.com'']\<rparr>), v))"
    by (simp add: Present_def jobProvider_def first lookup replace sample_name Let_def del: One_nat_def split: prod.split sum.split)
  have alive: "entry w 1 = Some t" "case ctxs w t of None \<Rightarrow> True | Some s \<Rightarrow> \<not> canceled s \<and> clock w < deadline s"
    using assms(1) by (auto simp: activeJob_def ctxErr_def split: option.splits if_splits)
  have look: "ctxErr v (JobCtx t) = None" "scopeErr v \<lparr>jobCtx = JobCtx t, jobScope = Some (1, t)\<rparr> = None"
    if "jobs v = jobs w" "ctxs v = ctxs w" "clock v = clock w" for v
    using alive that by (auto simp: scopeErr_def activeJob_def ctxErr_def split: option.splits)
  have remembered: "delegationRecord (w\<lparr>tick := n\<rparr>) = delegationRecord w" for n
    by (simp add: delegationRecord_def fun_eq_iff)
  show ?thesis
    unfolding present replaceSection_def
    using numberingEnv_calm(2)
    by (cases "delegationRecord w ''1.cname.yourservice.com'' = []")
      (simp_all add: look remembered deleteTXT_def createTXT_def duringSection_def settle_quiet getZoneID_def tickOn_def
        setDelegation_def WithCertJobScope_def Let_def sampleClient_def later_def del: One_nat_def)
qed

theorem delegation_handover_witness:
  "\<exists>w d w'. run_state (CleanUp numberingEnv ''tok2'' d) w = ((Inr (), d\<lparr>recordIDs := Map.empty, targetNames := Map.empty\<rparr>), w')
     \<and> cfCalls w' = [DeleteTXT ''rec2'', CreateTXT ''1.cname.yourservice.com'' ''key2'', DeleteTXT ''rec1'',
         CreateTXT ''1.cname.yourservice.com'' ''key1'']"
proof -
  let ?e = numberingEnv and ?info = "\<lambda>_ key. key" and ?name = "''1.cname.yourservice.com''"
  let ?w = "sampleWorld ''generating'' [] [(1, 1)]"
  obtain d1 w1 where p1: "run_state (Present ?e ?info ''example.com'' ''tok1'' ''key1'' (jobProvider 1)) ?w = ((Inr (), d1), w1)"
      and d1: "recordIDs d1 ''tok1'' = Some ''rec1''" "targetNames d1 ''tok1'' = Some ?name"
      and w1: "w1 = ?w\<lparr>tick := 8, delegation := [?name \<mapsto> ''rec1''], cfCalls := [CreateTXT ?name ''key1'']\<rparr>"
    using run_sample_present [of ?w 1 "''generating''" ?info "''tok1''" "''key1''"]
    by (auto simp: activeJob_def ctxErr_def sampleWorld_def delegationRecord_def Minute_def Let_def)
  define v1 where "v1 = registerJob 1 (60 * Day) (cancelEntry 1 w1)"
  have v1: "activeJob v1 1 2" "domains v1 = [sampleDomain ''generating'']" "tick v1 = 8" "delegation v1 = delegation w1"
      "cfCalls v1 = cfCalls w1"
    by (simp_all add: v1_def w1 activeJob_def ctxErr_def registerJob_def cancelEntry_def cancelCtx_def sampleWorld_def Day_def Let_def
        Hour_def)
  then obtain d2 w2 where p2: "run_state (Present ?e ?info ''example.com'' ''tok2'' ''key2'' (jobProvider 2)) v1 = ((Inr (), d2), w2)"
      and d2: "d2 = jobProvider 2\<lparr>dnsClient := sampleClient\<lparr>zoneOnce := Some (Inr ''zone'')\<rparr>,
         recordIDs := [''tok2'' \<mapsto> ''rec2''], targetNames := [''tok2'' \<mapsto> ?name]\<rparr>"
      and w2: "activeJob w2 1 2" "delegationRecord w2 ?name = ''rec2''"
    using run_sample_present [of v1 2 "''generating''" ?info "''tok2''" "''key2''"] w1
    by (auto simp: delegationRecord_def activeJob_def ctxErr_def Let_def cong: option.case_cong if_cong)
  obtain r d1' w3 where c1: "run_state (CleanUp ?e ''tok1'' d1) w2 = ((r, d1'), w3)" by (metis prod.exhaust)
  from stale_cleanup_harmless [OF d1, of ?e w2] c1 w2(2) have w3: "w3 = settle ?e w2"
    using numberingEnv_calm(2) by (simp add: settle_quiet delegationRecord_def)
  let ?d2 = "d2\<lparr>recordIDs := Map.empty, targetNames := Map.empty\<rparr>"
  have "ctxErr (settle ?e w3) (JobCtx 2) = None" "delegationRecord (settle ?e w3) ?name = ''rec2''"
    using w2 numberingEnv_calm(2) by (simp_all add: w3 settle_quiet activeJob_def ctxErr_def delegationRecord_def cong: option.case_cong if_cong)
  then obtain w4 where c2: "run_state (CleanUp ?e ''tok2'' d2) w3 = ((Inr (), ?d2), w4)"
    by (simp add: CleanUp_def releaseDelegationTXT_def deleteTXT_def getZoneID_def run_act d2 jobProvider_def
        WithCertJobScope_def fun_eq_iff)
  have still: "meanwhile ?e 7 ''example.com'' w1 v1" by (simp add: meanwhile_def v1 targetRow_def w1 sampleWorld_def)
  have target: "getDelegationTarget (jobProvider t) = delegationTargetLookup ?e 7" for t by (simp add: jobProvider_def)
  have "recordIDs d1 ''tok1'' \<notin> {Some [], recordIDs d2 ''tok2''}" by (simp add: d1 d2)
  from delegation_handover [OF numberingEnv_calm(2) target target p1 still p2 _ c1 _ c2 this]
  have "cfCalls w4 = [DeleteTXT ''rec2'', CreateTXT ?name ''key2'', DeleteTXT ''rec1'', CreateTXT ?name ''key1'']"
    by (auto simp: meanwhile_def d1 d2 delegationRecord_def sampleWorld_def)
  with c2 show ?thesis by blast
qed

end
