(* ===== verification/First_Certificate.thy ===== *)
theory First_Certificate
  imports Cert_Api_Props
begin

text \<open>
  The whole way of a first certificate: from the request of a user who has no account at the CA yet, over the
  goroutine that registers the account and obtains the certificate, to the download by its owner.
\<close>

section \<open>A CA that answers\<close>

text \<open>What is outside the program works: keys, the library, the resolver, and the CA issues \<open>res\<close>.\<close>

definition cooperative :: "env \<Rightarrow> string \<Rightarrow> Resource \<Rightarrow> bool" where
  "cooperative e domain res \<longleftrightarrow>
     (\<forall>n. \<exists>key der. genKey e n = Inr key \<and> marshalEC e key = Inr der)
     \<and> (\<forall>n. \<exists>b. randBytes e n = Some b) \<and> aead_laws e
     \<and> (\<forall>n url. legoClient e n url = Inr ()) \<and> (\<forall>n. legoSetDNS01 e n = Inr ())
     \<and> (\<exists>client. newCloudflareClient e = Inr client)
     \<and> (\<forall>n. \<exists>reg data. legoRegister e n = Returns (Inr reg) \<and> regJSON e reg = Inr data \<and> data \<noteq> [])
     \<and> (\<forall>n. legoObtain e n domain = Returns (Inr res)) \<and> (\<forall>n. zipFails e n = None)"

lemma cooperativeD:
  assumes "cooperative e domain res"
  shows "\<exists>key der. genKey e n = Inr key \<and> marshalEC e key = Inr der" and "\<exists>b. randBytes e n = Some b"
    and "aead_laws e" and "legoClient e n url = Inr ()" and "legoSetDNS01 e n = Inr ()"
    and "\<exists>client. newCloudflareClient e = Inr client"
    and "\<exists>reg data. legoRegister e n = Returns (Inr reg) \<and> regJSON e reg = Inr data \<and> data \<noteq> []"
    and "legoObtain e n domain = Returns (Inr res)" and "zipFails e n = None"
  using assms unfolding cooperative_def by blast+

text \<open>The user \<open>u\<close> has no account.\<close>

definition noAccount :: "uint \<Rightarrow> world \<Rightarrow> bool" where
  "noAccount u w \<longleftrightarrow> find (userAccount u) (accounts w) = None"

text \<open>The account \<open>a\<close> holds a generated private key, encoded and encrypted under the server's key \<open>k\<close>.\<close>

definition holdsKey :: "env \<Rightarrow> bytes \<Rightarrow> AcmeRow \<Rightarrow> bool" where
  "holdsKey e k a \<longleftrightarrow> (\<exists>n key der. genKey e n = Inr key \<and> marshalEC e key = Inr der
     \<and> DecryptWith e k (aPrivateKeyPEM a) = Inr (pemEncode e ''EC PRIVATE KEY'' der))"

text \<open>
  One account was added to \<open>as\<close>, the first of the user: not registered yet; or registered, with what the
  library returned, at the directory that is in use.
\<close>

definition newAccount :: "env \<Rightarrow> uint \<Rightarrow> AcmeRow list \<Rightarrow> world \<Rightarrow> bool" where
  "newAccount e u as w \<longleftrightarrow> find (userAccount u) as = None
     \<and> (\<exists>a. accounts w = as @ [a] \<and> aUserID a = u \<and> aRegistration a = [] \<and> aCAURL a = []
          \<and> holdsKey e (encryptionKey w) a)"

definition registeredAccount :: "env \<Rightarrow> uint \<Rightarrow> AcmeRow list \<Rightarrow> world \<Rightarrow> bool" where
  "registeredAccount e u as w \<longleftrightarrow>
     (\<exists>a reg n. accounts w = as @ [a] \<and> aUserID a = u \<and> holdsKey e (encryptionKey w) a
        \<and> legoRegister e n = Returns (Inr reg) \<and> regJSON e reg = Inr (aRegistration a)
        \<and> aRegistration a \<noteq> [] \<and> aCAURL a = effectiveCAURL e)"

lemma newAccount_later [simp]: "newAccount e u as (later n w) = newAccount e u as w"
  by (simp add: newAccount_def)

lemma sameJob_steps [simp]:
  "sameJob w (v\<lparr>accounts := as\<rparr>) = sameJob w v" "sameJob w (v\<lparr>accountSeq := n\<rparr>) = sameJob w v"
  "sameJob w (later n v) = sameJob w v"
  by (simp_all add: sameJob_def)

lemma creates_account:
  assumes "calm e" and "cooperative e domain res" and "noAccount u w" and "length (encryptionKey w) = 32"
  shows "\<exists>user v. run_state (loadOrCreateAcmeAccount e u email) w = (Inr user, v) \<and> auRegistration user = None
    \<and> sameJob w v \<and> encryptionKey v = encryptionKey w \<and> newAccount e u (accounts w) v"
proof -
  obtain key der where key: "genKey e (Suc (Suc (tick w))) = Inr key" "marshalEC e key = Inr der"
    using cooperativeD(1) [OF assms(2)] by blast
  obtain c where c: "EncryptWith e (encryptionKey w) (pemEncode e ''EC PRIVATE KEY'' der) (randBytes e (Suc (Suc (Suc (tick w))))) = Inr c"
    using EncryptWith_ok [OF assms(4) cooperativeD(2) [OF assms(2)]] by blast
  have none: "\<not> list_ex (userAccount u) (accounts w)" "find (userAccount u) (accounts w) = None"
    using assms(3) by (auto simp: noAccount_def find_None_iff list_ex_iff)
  have "DecryptWith e (encryptionKey w) c = Inr (pemEncode e ''EC PRIVATE KEY'' der)"
    by (rule decrypt_sealed [OF cooperativeD(3) [OF assms(2)] c])
  then have "\<exists>n key der. genKey e n = Inr key \<and> marshalEC e key = Inr der
      \<and> DecryptWith e (encryptionKey w) c = Inr (pemEncode e ''EC PRIVATE KEY'' der)"
    using key by blast
  then show ?thesis
    using assms(1) key c none
    by (auto simp: loadOrCreateAcmeAccount_def loadAcmeAccount_def createAcmeAccount_def encodeECPrivateKey_def Encrypt_def
        CreateAccount_def First_def run_simps Let_def newAccount_def holdsKey_def userAccount_def)
qed

lemma creates_client:
  assumes "calm e" and "cooperative e domain res"
  shows "\<exists>client n. run_state (newLegoClient e c u) w = (Inr client, later n w)"
proof -
  obtain client where "newCloudflareClient e = Inr client" using cooperativeD(6) [OF assms(2)] by blast
  then show ?thesis
    using assms(1) cooperativeD(4,5) [OF assms(2)]
    by (auto simp: newLegoClient_def newDelegationDNSProvider_def run_simps Let_def)
qed

lemma registers:
  assumes "calm e" and "cooperative e domain res" and "activeJob w i t" and "newAccount e u as w" and "auRegistration user = None"
  shows "\<exists>user' v. run_state (ensureRegistered e (jobScopeCtx i t) user u) w = (Returns (Inr user'), v) \<and> sameJob w v
    \<and> encryptionKey v = encryptionKey w \<and> registeredAccount e u as v"
proof -
  obtain a where a: "accounts w = as @ [a]" "aUserID a = u" "aRegistration a = []" "aCAURL a = []"
      "holdsKey e (encryptionKey w) a" and none: "find (userAccount u) as = None"
    using assms(4) by (auto simp: newAccount_def)
  have found: "find (userAccount u) (as @ [a]) = Some a" using a(2) none by (simp add: find_append userAccount_def)
  have only: "map (\<lambda>x. if userAccount u x then f x else x) as = as" for f
    using none by (intro map_idI) (auto simp: find_None_iff)
  have blank: "normalizeCAURL e [] = []" by (simp add: normalizeCAURL_def TrimSpace_def TrimSuffix_def)
  obtain reg data where reg: "legoRegister e (Suc (Suc (Suc (Suc (tick w))))) = Returns (Inr reg)" "regJSON e reg = Inr data" "data \<noteq> []"
    using cooperativeD(7) [OF assms(2)] by blast
  let ?a = "a\<lparr>aRegistration := data, aCAURL := effectiveCAURL e, aUpdatedAt := clock w\<rparr>"
  have "holdsKey e (encryptionKey w) ?a" using a(5) by (simp add: holdsKey_def)
  then have final: "registeredAccount e u as v" if "accounts v = as @ [?a]" "encryptionKey v = encryptionKey w" for v
    using that reg a(2) by (fastforce simp: registeredAccount_def)
  have user: "userAccount u a" using a(2) by (simp add: userAccount_def)
  let ?v = "(later (Suc (Suc (Suc (Suc (Suc 0))))) w)\<lparr>accounts := as @ [?a]\<rparr>"
  have "run_state (ensureRegistered e (jobScopeCtx i t) user u) w = (Returns (Inr (user\<lparr>auRegistration := Some reg\<rparr>)), ?v)"
    using assms(1,5) a(1,3,4) user reg found run_runACME_calm [OF assms(1,3)]
    by (simp add: ensureRegistered_def loadAcmeRegistration_def invalidateRegistrationIfCAChanged_def blank First_def
        saveAcmeRegistration_def UpdatesAccount_def Updates_def run_simps Let_def accounts_update_eq [of "map _"] eval_nat_numeral
        only)
  moreover have "registeredAccount e u as ?v" by (rule final) simp_all
  ultimately show ?thesis by auto
qed

lemma obtains_first:
  assumes "calm e" and "cooperative e domain res" and "activeJob w i t" and "noAccount u w" and "length (encryptionKey w) = 32"
  shows "\<exists>v. run_state (ObtainCertificate e (jobScopeCtx i t) u domain email) w = (Returns (Inr res), v)
    \<and> encryptionKey v = encryptionKey w \<and> registeredAccount e u (accounts w) v"
proof -
  note require = run_runACME_calm [OF assms(1)]
  obtain user v1 where v1: "run_state (loadOrCreateAcmeAccount e u email) (later 2 w) = (Inr user, v1)"
      "auRegistration user = None" "sameJob (later 2 w) v1" "newAccount e u (accounts w) v1"
      "encryptionKey v1 = encryptionKey w"
    using creates_account [OF assms(1,2), of u "later 2 w" email] assms(4,5) by (auto simp: noAccount_def)
  obtain client n where v2: "run_state (newLegoClient e (jobScopeCtx i t) u) v1 = (Inr client, later n v1)"
    using creates_client [OF assms(1,2)] by blast
  have act: "activeJob x i t" if "sameJob w x" for x using sameJob_use(4) [OF that] assms(3) by simp
  have s1: "sameJob w v1" using v1(3) by (simp add: sameJob_def)
  then have "activeJob (later n v1) i t" by (intro act) simp
  moreover have "newAccount e u (accounts w) (later n v1)" using v1(4) by simp
  ultimately obtain user' v3 where v3: "run_state (ensureRegistered e (jobScopeCtx i t) user u) (later n v1) = (Returns (Inr user'), v3)"
      "sameJob (later n v1) v3" "encryptionKey v3 = encryptionKey w" "registeredAccount e u (accounts w) v3"
    using registers [OF assms(1,2) _ _ v1(2)] v1(5) by fastforce
  have s3: "sameJob w v3" using v3(2) s1 by (simp add: sameJob_def)
  have prepare: "run_state (prepareACME e (jobScopeCtx i t) u email) w = (Returns (Inr user'), v3)"
    using require [OF assms(3)] v1(1) v2 v3(1) by (simp add: prepareACME_def run_simps)
  have "jobCtx (jobScopeCtx i t) = JobCtx t" by (simp add: WithCertJobScope_def)
  then have "\<exists>m. run_state (obtainWithContext e (jobScopeCtx i t) domain) v3 = (Returns (Inr res), later m v3)"
    using assms(1) act [OF s3] activeJob_ctx cooperativeD(8) [OF assms(2)]
    by (auto simp: obtainWithContext_def runACMEWithContext_def run_simps require activeJob_ctx)
  then obtain m where "run_state (obtainWithContext e (jobScopeCtx i t) domain) v3 = (Returns (Inr res), later m v3)" by blast
  then show ?thesis using prepare v3(3,4) by (simp add: ObtainCertificate_def run_simps registeredAccount_def)
qed

section \<open>The job\<close>

lemma runs_first_job:
  assumes "calm e" and "cooperative e (dDomain d) res" and "activeJob w i t" and "dID d = i" and "dCNameTarget d \<noteq> []"
    and "\<forall>n. cnameOK e n (dDomain d) (dCNameTarget d)" and "\<not> hasCertRow i w" and "noAccount (uID user) w"
    and "length (encryptionKey w) = 32"
  shows "\<exists>v. sameJob w v \<and> encryptionKey v = encryptionKey w \<and> registeredAccount e (uID user) (accounts w) v
    \<and> run_state (runCertJob e (JobCtx t) d user False ar t) w = (True, snd (run_state (storeResult e (JobCtx t) d user ar t res) v))"
proof -
  let ?w3 = "later (Suc (Suc (Suc 0))) w"
  obtain v where v: "run_state (ObtainCertificate e (jobScopeCtx i t) (uID user) (dDomain d) (uEmail user)) ?w3 = (Returns (Inr res), v)"
      and account: "encryptionKey v = encryptionKey w" "registeredAccount e (uID user) (accounts w) v"
    using obtains_first [OF assms(1,2), of ?w3 i t "uID user" "uEmail user"] assms(3,8,9) by (auto simp: noAccount_def)
  have same: "sameJob ?w3 v" using keepsD [OF keeps_sameJob_acme(1) [OF assms(1)], of ?w3 ?w3] v by (metis sameJob_later(2) snd_conv)
  have verify: "run_state (VerifyChallengeCNAME e (dDomain d) (dCNameTarget d)) (later (Suc 0) w) = (Inr (), later (Suc (Suc 0)) w)"
    unfolding prod_eq_iff fst_conv snd_conv Verify_ok Verify_state using assms(1,6) by (simp add: run_simps)
  have "find (certOfDomain i) (certs w) = None" using assms(7) by (simp add: hasCertRow_def certOf_def)
  then have "run_state (acquireCertificate e (JobCtx t) d user False ar t) (later (Suc (Suc 0)) w) = (Returns (Acme (Inr res)), v)"
    using assms(1,4) v by (simp add: acquireCertificate_def First_def run_simps Let_def)
  then have "run_state (runCertJob e (JobCtx t) d user False ar t) w = (True, snd (run_state (storeResult e (JobCtx t) d user ar t res) v))"
    using assms(1,5) activeJob_ctx [OF assms(3)] verify
    by (simp add: runCertJob_def certJobBody_def run_simps del: run_Verify split: prod.split)
  then show ?thesis using same account by (auto simp: sameJob_def)
qed

text \<open>The goroutine: the same with its bookkeeping around.\<close>

lemma runs_first_worker:
  assumes "calm e" and "cooperative e (dDomain d) res" and "activeJob w i t" and "dID d = i" and "dCNameTarget d \<noteq> []"
    and "\<forall>n. cnameOK e n (dDomain d) (dCNameTarget d)" and "\<not> hasCertRow i w" and "noAccount (uID user) w"
    and "length (encryptionKey w) = 32" and "wf_store w" and "rowOf i w = Some d'"
    and "run_state (worker e \<lparr>jobToken = t, jobDomain = d, jobUser = user, jobRenew = False, jobAutoRenew = ar\<rparr>) w = (ok, w')"
  shows "ok \<and> wf_store w' \<and> rowOf i w' = Some (stamp (clock w) savedCols d') \<and> \<not> inflight w' i \<and> slots w' = slots w - 1
    \<and> registeredAccount e (uID user) (accounts w) w'
    \<and> (\<exists>k. certOf i w' = Some k \<and> cCertPEM k = rCertificate res \<and> cIssuer k = rIssuerCertificate res
         \<and> fst (run_state (Decrypt e (cKeyPEM k)) w') = Inr (rPrivateKey res))"
proof -
  let ?j = "\<lparr>jobToken = t, jobDomain = d, jobUser = user, jobRenew = False, jobAutoRenew = ar\<rparr>"
  let ?u = "workerAdd i (domainWorkerTrackerFor i (later 1 w))"
  have u: "sameJob w ?u" "accounts ?u = accounts w" "encryptionKey ?u = encryptionKey w"
    by (auto simp: sameJob_def workerAdd_def domainWorkerTrackerFor_def split: option.split)
  have "noAccount (uID user) ?u" using assms(8) u(2) by (simp add: noAccount_def)
  with runs_first_job [OF assms(1,2) _ assms(4-6), of ?u t user ar] sameJob_use [OF u(1)] assms(3,7,9) u(3)
  obtain v where v: "sameJob ?u v" "encryptionKey v = encryptionKey w"
      and account: "registeredAccount e (uID user) (accounts w) v" and v':
      "run_state (runCertJob e (JobCtx t) d user False ar t) ?u = (True, snd (run_state (storeResult e (JobCtx t) d user ar t res) v))"
    using u(2) by auto
  define x where "x = snd (run_state (storeResult e (JobCtx t) d user ar t res) v)"
  have w': "ok" "w' = workerDone i (later 1 (doneJob (later 1 (endJob i t (later 1 (recvSlot (later 1 x)))))))"
    using assms(1,4,12) v' by (simp_all add: worker_def run_simps x_def)
  have tables: "domains w' = domains x" "certs w' = certs x" "encryptionKey w' = encryptionKey x" "wf_store w' = wf_store x"
      "accounts w' = accounts x"
    by (simp_all add: w' workerDone_def doneJob_def recvSlot_def endJob_def wf_store_def split: option.split)
  have "keeps (\<lambda>y. accounts y = accounts v \<and> encryptionKey y = encryptionKey v) (storeResult e (JobCtx t) d user ar t res)"
    by (rule keeps_frame_store [OF stable_calm_env [OF assms(1)]]) (simp_all add: tableFree_def restoreTables_def)
  then have "accounts x = accounts v \<and> encryptionKey x = encryptionKey v" unfolding x_def by (rule keepsD) simp
  with account have registered: "registeredAccount e (uID user) (accounts w) w'"
    using tables(3,5) by (simp add: registeredAccount_def)
  have job: "wf_store v" "activeJob v i t" "rowOf i v = Some d'" "clock v = clock w"
    using sameJob_use [OF v(1)] sameJob_use [OF u(1)] assms(3,10,11) v(1) u(1) by (simp_all add: sameJob_def)
  have "keeps wf_store (storeResult e (JobCtx t) d user ar t res)"
    by (rule keeps_wf_storeResult [OF stable_calm_env [OF assms(1)]]) simp
  then have "wf_store x" unfolding x_def by (rule keepsD) (rule job(1))
  moreover obtain k where "certOf i x = Some k" "cCertPEM k = rCertificate res" "cIssuer k = rIssuerCertificate res"
      "fst (run_state (Decrypt e (cKeyPEM k)) x) = Inr (rPrivateKey res)" "rowOf i x = Some (stamp (clock w) savedCols d')"
    using stores_result [OF assms(1) job(1,2) assms(4) cooperativeD(3) [OF assms(2)] _ _ x_def [symmetric]]
      cooperativeD(2) [OF assms(2)] assms(9) v(2) job(3,4) by auto
  moreover have "fst (run_state (Decrypt e y) w') = fst (run_state (Decrypt e y) x)" for y
    using assms(1) tables(3) by (simp add: Decrypt_def run_simps)
  moreover have "certOf i w' = certOf i x" "rowOf i w' = rowOf i x"
    using certOf_same [OF tables(2)] rowOf_same [OF tables(1)] by auto
  moreover have "slots w' = slots w - 1" "\<not> inflight w' i"
    using worker_gives_back [OF assms(1), of ?j i w w'] assms(3,4,12) w'(1) by (simp_all add: inflight_def activeJob_def)
  ultimately show ?thesis using w'(1) tables(4) registered by auto
qed

section \<open>From the request to the download\<close>

text \<open>A request to issue writes no other table than the domains, and there neither the owner nor the name.\<close>

definition identity :: "DomainRow \<Rightarrow> uint \<times> time option \<times> uint \<times> string" where
  "identity d = (dID d, dDeletedAt d, dUserID d, dDomain d)"

lemma identity_cols [simp]:
  "identity (verifiedCols now d) = identity d" "identity (lockCols now d) = identity d"
  "identity (errorCols st msg d) = identity d" "identity (rollbackCols hasCert msg rv d0 d) = identity d"
  by (simp_all add: identity_def verifiedCols_def lockCols_def errorCols_def rollbackCols_def)

lemma find_map: "map_option f (find (\<lambda>x. p (f x)) xs) = find p (map f xs)"
  by (induction xs) auto

lemma identity_row:
  assumes "map identity (domains v) = map identity (domains w)"
  shows "map_option identity (rowOf i v) = map_option identity (rowOf i w)"
proof -
  have "(\<lambda>d. live d \<and> byID i d) = (\<lambda>d. (\<lambda>(j, t, _). t = None \<and> j = i) (identity d))"
    by (auto simp: identity_def live_def byID_def fun_eq_iff)
  then show ?thesis using assms unfolding rowOf_def by (simp only: find_map)
qed

definition besides :: "world \<Rightarrow> (uint \<times> time option \<times> uint \<times> string) list \<times> CertRow list \<times> AcmeRow list \<times> bytes" where
  "besides w = (map identity (domains w), certs w, accounts w, encryptionKey w)"

lemma issue_besides:
  assumes "calm e" and "run_state (IssueCertificate e c) w = (r, w')"
  shows "besides w' = besides w"
proof -
  let ?I = "\<lambda>v. besides v = besides w"
  have st: "stable e ?I" by (rule stable_calm_env [OF assms(1)]) (simp add: besides_def)
  have upd: "keeps ?I (UpdatesDomain e p f)" if "\<And>d. identity (f d) = identity d" for p f
  proof -
    have "(\<lambda>d. identity (if live d \<and> p d then (f d)\<lparr>dUpdatedAt := t\<rparr> else d)) = identity" for t
      using that by (auto simp: identity_def fun_eq_iff)
    then show ?thesis
      unfolding UpdatesDomain_def Updates_def by (intro keeps_db st) (simp add: besides_def table_update comp_def)
  qed
  have books: "?I (cancelEntry i v)" "?I (registerJob i dl v)" if "?I v" for i dl v
    using that by (simp_all add: besides_def cancelEntry_def cancelCtx_def registerJob_def Let_def split: option.split)
  have slot: "keeps ?I (tryAcquireCertJobSlot e)"
    unfolding tryAcquireCertJobSlot_def by (intro keeps_act st) (simp add: besides_def sendSlot_def)
  have start: "keeps ?I (StartCertJob e d u renew ar)" for d u renew ar
    unfolding StartCertJob_def
    by (intro keeps_intros keeps_begin keeps_act st books; simp) (simp add: besides_def)
  have roll: "keeps ?I (rollbackGeneratingDomain e i msg rv)" for i msg rv
    unfolding rollbackGeneratingDomain_def by (intro keeps_intros keeps_queries keeps_wf_reads st upd identity_cols)
  have lock: "keeps ?I (lockDomainForCertJob e row renew)" for row renew
    unfolding lockDomainForCertJob_def takeLock_def setDomainError_def Let_def
    by (intro keeps_intros keeps_queries keeps_clearStaleJob st upd books identity_cols)
  have issue: "keeps ?I (issueCertificateInternal e c i f)" for i f
    unfolding issueCertificateInternal_def beginCertOperation_def markIfFirst_def markDomainCnameVerified_def
      lockAndAcquire_def Let_def
    by (intro keeps_intros keeps_queries keeps_wf_reads st upd slot start roll lock identity_cols)
  have "keeps ?I (IssueCertificate e c)"
    unfolding IssueCertificate_def
    by (intro keeps_bind keeps_case_sum keeps_return keeps_getDomainOwned st issue)
      (auto intro: keeps_return issue split: bindError.split)
  then show ?thesis using keepsD [of ?I _ w] assms(2) by fastforce
qed

lemma issue_keeps_wf:
  assumes "calm e" and "wf_store w" and "run_state (IssueCertificate e c) w = (r, w')"
  shows "wf_store w'"
proof -
  have st: "stable e wf_store" by (rule stable_calm_env [OF assms(1)]) simp
  note scope = wf_scope [OF st]
  have "keeps wf_store (issueCertificateInternal e c i f)" for i f
    unfolding issueCertificateInternal_def
    by (intro keeps_intros keeps_queries keeps_wf_reads st domain_scope.begin_operation [OF scope refl] domain_scope.start [OF scope])
  then have "keeps wf_store (IssueCertificate e c)"
    unfolding IssueCertificate_def
    by (intro keeps_bind keeps_case_sum keeps_return keeps_getDomainOwned st)
      (auto intro: keeps_return split: bindError.split)
  then show ?thesis using keepsD [of wf_store _ w] assms(2,3) by (metis snd_conv)
qed

text \<open>A request for the first certificate of a domain that is delegated is granted when a slot is free.\<close>

lemma begins_first:
  assumes "calm e" and "wf_store w" and "rowOf i w = Some d" and "\<not> hasCertRow i w" and "\<not> inflight w i"
    and "dCNameTarget d \<noteq> []" and "\<forall>n. cnameOK e n (dDomain d) (dCNameTarget d)"
    and "find (userByID (dUserID d)) (users w) = Some user" and "slots w < certJobSlotsCap e"
    and "run_state (beginCertOperation e d False) w = (r, w')"
  shows "r = Some (Inr user)"
proof -
  have id: "dID d = i" using assms(3) by (auto dest: rowOf_id)
  obtain m u where mark: "run_state (markIfFirst e d False) (later 1 w) = (m, u)" by fastforce
  have wf: "wf_store (later 1 w)" using assms(2) by (simp add: wf_store_def)
  have ready: "m = Inr ()" "readied i d (later 1 w) u"
    using mark_readies [OF assms(1) wf _ id mark, of d] assms(3) by simp_all
  have "\<exists>d1. rowOf i u = Some d1 \<and> dStatus d1 = ''verified'' \<and> dUserID d1 = dUserID d"
    using assms(1,3,4) id mark
    by (cases "dStatus d = ''verified''")
      (auto simp: markIfFirst_def run_simps hasCertRow_def verifiedUpd.rowOf_written stamp_def verifiedCols_def)
  then obtain d1 where d1: "rowOf i u = Some d1" "dStatus d1 = ''verified''" "dUserID d1 = dUserID d" by blast
  obtain l v where lock: "run_state (lockDomainForCertJob e d False) u = (l, v)" by fastforce
  have "l = Some (Inr user)"
    using lock_calm [OF assms(1) _ d1(1) id lock refl] ready(2) assms(5,8) d1(2,3)
    by (auto simp: readied_def lockResult_def lockable_def)
  moreover have "slots v = slots w" using lock_slots [OF assms(1), of d False u] lock ready(2) by (simp add: readied_def)
  moreover have "run_state (VerifyChallengeCNAME e (dDomain d) (dCNameTarget d)) w = (Inr (), later 1 w)"
    unfolding prod_eq_iff fst_conv snd_conv Verify_ok Verify_state using assms(1,7) by (simp add: run_simps)
  ultimately show ?thesis
    using assms(1,6,9,10) mark ready(1) lock by (simp add: beginCertOperation_def lockAndAcquire_def run_simps sendSlot_def)
qed

lemma issue_granted:
  assumes "calm e" and "0 < generatingTimeout e" and "wf_store w" and "rowOf i w = Some d" and "\<not> hasCertRow i w"
    and "\<not> inflight w i" and "dCNameTarget d \<noteq> []" and "\<forall>n. cnameOK e n (dDomain d) (dCNameTarget d)"
    and "find (userByID (dUserID d)) (users w) = Some user" and "slots w < certJobSlotsCap e"
    and "GetUserID c = Some (dUserID d)" and "parseDomainID (pathID c) = Some i" and "body c = Inr input" and "\<not> inForceRenew input"
  shows "\<exists>r w'. run_state (IssueCertificate e c) w = (Some r, w') \<and> succeeded r"
proof -
  have id: "dID d = i" using assms(4) by (auto dest: rowOf_id)
  have owned: "run_state (getDomainOwned e c (pathID c)) w = (Inr d :: payload response + DomainRow, later 1 w)"
    by (rule owned_granted [OF assms(1,3,4,11,12)])
  have again: "run_state (FirstDomain e (ownedBy i (dUserID d))) (later k w) = (Inr d, later (Suc k) w)" for k
    using assms(1) owned_row [OF assms(3,4)] by (simp add: FirstDomain_def run_simps)
  let ?w3 = "later (Suc (Suc (Suc 0))) w"
  obtain b v where b: "run_state (beginCertOperation e d False :: (world, (payload response + UserRow) option) state) ?w3 = (b, v)" by fastforce
  have "wf_store ?w3" using assms(3) by (simp add: wf_store_def)
  then have "b = Some (Inr user)"
    using begins_first [OF assms(1) _ _ _ _ assms(7,8) _ _ b] assms(4-6,9,10) by simp
  moreover obtain x v' where s: "run_state (StartCertJob e d user False False) v = (x, v')" by fastforce
  moreover have "x = Some ()" using start_registers [OF assms(1,2) s] by blast
  ultimately have "run_state (IssueCertificate e c) w = (Some (RespondSuccess (Some (PStarted ''generating''
      ''Certificate issuance started. Refresh the domain to check status.''))), v')"
    using assms(1,5,11,13,14) id b
    by (simp add: IssueCertificate_def issueCertificateInternal_def requireUserID_def run_simps owned again hasCertRow_def)
  then show ?thesis by auto
qed

text \<open>
  Property C5. A user gets the first certificate of a domain (no interference, no faults, and a CA, a resolver and
  libraries that do their part): for a delegated domain of a user who has no account at the CA yet, the request
  is granted when a slot is free; the goroutine it starts creates and registers the account (one row is added,
  of this user, with a generated key in encrypted form, the registration the CA returned and the address of the
  directory in use), obtains the certificate and ends with the domain active and its slot given back; and the
  owner then downloads what the CA issued, with the private key in clear, as JSON or as the zip archive.
\<close>

theorem first_certificate:
  assumes "calm e" and "cooperative e (dDomain d) res" and "0 < generatingTimeout e" and "wf_store w" and "rowOf i w = Some d"
    and "\<not> hasCertRow i w" and "\<not> inflight w i" and "dCNameTarget d \<noteq> []" and "\<forall>n. cnameOK e n (dDomain d) (dCNameTarget d)"
    and "find (userByID (dUserID d)) (users w) = Some user" and "noAccount (dUserID d) w" and "length (encryptionKey w) = 32"
    and "slots w < certJobSlotsCap e" and "GetUserID c = Some (dUserID d)" and "parseDomainID (pathID c) = Some i"
    and "body c = Inr input" and "\<not> inForceRenew input" and "run_state (IssueCertificate e c) w = (r, w1)"
    and "run_state (worker e (last (spawned w1))) w1 = (ok, w2)"
    and "GetUserID c' = Some (dUserID d)" and "parseDomainID (pathID c') = Some i"
  shows "(\<exists>resp. r = Some resp \<and> succeeded resp) \<and> ok \<and> \<not> inflight w2 i \<and> slots w2 = slots w
    \<and> (\<exists>a reg n. accounts w2 = accounts w @ [a] \<and> aUserID a = dUserID d \<and> holdsKey e (encryptionKey w2) a
         \<and> legoRegister e n = Returns (Inr reg) \<and> regJSON e reg = Inr (aRegistration a)
         \<and> aRegistration a \<noteq> [] \<and> aCAURL a = effectiveCAURL e)
    \<and> (\<exists>d'. rowOf i w2 = Some d' \<and> dStatus d' = ''active'')
    \<and> fst (run_state (DownloadDomainCertificate e c') w2) = certificateReply c' (dDomain d) res"
proof -
  have id: "dID d = i" using assms(5) by (auto dest: rowOf_id)
  obtain resp where resp: "r = Some resp" "succeeded resp"
    using issue_granted [OF assms(1,3-10) assms(13-17)] assms(18) by auto
  note run = assms(18) [unfolded resp(1)]
  from issue_effect [OF assms(1,3-5,14-16,7) run] resp(2)
  obtain d1 j where d1: "rowOf i w1 = Some d1" "slots w1 = Suc (slots w)"
      and j: "spawned w1 = spawned w @ [j]" "jobDomain j = d" "uID (jobUser j) = dUserID d" "jobRenew j = inForceRenew input"
        "\<not> jobAutoRenew j" "activeJob w1 i (jobToken j)"
    by auto
  have same: "certs w1 = certs w" "accounts w1 = accounts w" "encryptionKey w1 = encryptionKey w"
    using issue_besides [OF assms(1) run] by (simp_all add: besides_def)
  have job: "last (spawned w1) = \<lparr>jobToken = jobToken j, jobDomain = d, jobUser = jobUser j, jobRenew = False, jobAutoRenew = False\<rparr>"
    using j assms(17) by (cases j) simp
  have "\<not> hasCertRow i w1" using assms(6) hasCertRow_same [OF same(1)] by simp
  moreover have "noAccount (uID (jobUser j)) w1" using assms(11) same(2) j(3) by (simp add: noAccount_def)
  moreover have "wf_store w1" by (rule issue_keeps_wf [OF assms(1,4) run])
  ultimately obtain k where ended: "ok" "wf_store w2" "rowOf i w2 = Some (stamp (clock w1) savedCols d1)" "\<not> inflight w2 i"
      "slots w2 = slots w1 - 1" "registeredAccount e (dUserID d) (accounts w) w2" and k: "certOf i w2 = Some k" "cCertPEM k = rCertificate res" "cIssuer k = rIssuerCertificate res"
      "fst (run_state (Decrypt e (cKeyPEM k)) w2) = Inr (rPrivateKey res)"
    using runs_first_worker [OF assms(1,2) j(6) id assms(8,9) _ _ _ _ d1(1) assms(19) [unfolded job]] same(2,3) j(3) assms(12) by auto
  have owner: "dUserID d1 = dUserID d" "dDomain d1 = dDomain d"
    using identity_row [of w1 w i] issue_besides [OF assms(1) run] d1(1) assms(5) by (simp_all add: besides_def identity_def)
  have "fst (run_state (DownloadDomainCertificate e c') w2) = certificateReply c' (dDomain d) res"
    using download_stored [OF assms(1) ended(2,3) k _ assms(21)] assms(20) owner cooperativeD(9) [OF assms(2)]
    by (simp add: stamp_def savedCols_def)
  then show ?thesis using resp ended(1,3-5) ended(6) [unfolded registeredAccount_def] d1(2)
    by (auto simp: stamp_def savedCols_def)
qed

theorem first_certificate_witness:
  "\<exists>w2. fst (run_state (DownloadDomainCertificate idleEnv ownRequest) w2)
       = Json (RespondSuccess (Some (PDownload \<lparr>cdCertificate = ''CERT2'', cdPrivateKey = ''KEY2'', cdChain = ''CHAIN2'',
           cdFullchain = ''CERT2'' @ [CHR 0x0A] @ ''CHAIN2''\<rparr>)))
     \<and> (\<exists>d. rowOf 1 w2 = Some d \<and> dStatus d = ''active'')
     \<and> (\<exists>a. accounts w2 = [a] \<and> aUserID a = 7 \<and> aRegistration a = ''REG'')"
proof -
  let ?w = "sampleWorld ''verified'' [] []" and ?d = "sampleDomain ''verified''"
  obtain r w1 where issue: "run_state (IssueCertificate idleEnv issueRequest) ?w = (r, w1)" by fastforce
  obtain ok w2 where job: "run_state (worker idleEnv (last (spawned w1))) w1 = (ok, w2)" by fastforce
  have lib: "cooperative idleEnv (dDomain ?d) sampleResource"
    using aead_idle by (simp add: cooperative_def newCloudflareClient_def Let_def idleEnv_def)
  have names: "\<forall>n. cnameOK idleEnv n (dDomain ?d) (dCNameTarget ?d)" using sample_cname by simp
  have start: "wf_store ?w" "0 < generatingTimeout idleEnv" "rowOf 1 ?w = Some ?d" "\<not> hasCertRow 1 ?w" "\<not> inflight ?w 1"
      "find (userByID (dUserID ?d)) (users ?w) = Some sampleUser" "slots ?w < certJobSlotsCap idleEnv"
    using certJobSlotsCap_pos
    by (simp_all add: statuses_def Minute_def hasCertRow_def certOf_def inflight_def userByID_def user7)
  have keys: "noAccount (dUserID ?d) ?w" "length (encryptionKey ?w) = 32" by (simp_all add: noAccount_def sampleWorld_def)
  have requests: "GetUserID issueRequest = Some (dUserID ?d)" "parseDomainID (pathID issueRequest) = Some 1"
      "GetUserID ownRequest = Some (dUserID ?d)" "parseDomainID (pathID ownRequest) = Some 1"
      "DefaultQuery ownRequest ''format'' ''pem'' = ''pem''"
    by (simp_all add: issueRequest_def ownRequest_def GetUserID_def parseDomainID_FormatUint maxUint64_def DefaultQuery_def)
  have "body issueRequest = Inr \<lparr>inForceRenew = False\<rparr>" by (simp add: issueRequest_def)
  from first_certificate [OF calm_idleEnv lib start(2,1,3,4,5) _ names start(6) keys start(7) requests(1,2) this _ issue job requests(3,4)]
  show ?thesis using requests(5) by (auto simp: certificateReply_def sampleResource_def)
qed

end
