(* ===== verification/Spec2Isabelle.thy ===== *)
theory Spec2Isabelle
  imports Config_Props Domain_Name Cert_Status_Props Cert_Registry_Props Cert_Lock Crypto Acme_Props
    Cert_Job_Props Cert_Worker_Props Scheduler_Props Http Dns_Verify Middleware_Props Server_Props Recovery Server_Lives Renewal_Scan Delegation_Props First_Certificate
begin

text \<open>
  A verification library for certhub-server, the backend that issues and renews TLS
  certificates for the domains of its users.

  \<^bold>\<open>The program.\<close> A process reads its configuration (config/config.go), checks it, opens its database
  (config/database.go) and starts. A gin server (main.go, routes/) answers requests on domains, certificates, deploy
  targets and accounts (controllers/). A request to issue or renew checks the DNS delegation of the
  domain (services/dns_verify.go), takes the lock of the domain, which is the status generating of
  its row (renewal_scheduler.go), takes one of a bounded number of slots (cert_job_semaphore.go),
  registers a job (cert_job_registry.go) and starts a goroutine (certificate.go). The goroutine calls
  the CA through the lego library (services/lego.go), which answers the challenge through the
  Cloudflare API (services/delegation_dns.go), with a context that ends with the job
  (services/acme_scope.go, acme_http.go), and stores the result, with the private key encrypted
  (services/crypto.go). A scheduler (renewal_scheduler.go) renews certificates that expire and frees
  domains that are stuck in generating. Rows are read and written through GORM.

  \<^bold>\<open>The state.\<close> \<open>world\<close> (Store) is one record of everything the goroutines share: the tables, as
  lists of records in primary-key order with their id counters; the job registry, the contexts of the
  jobs, the worker trackers, the slots and the wait group; the goroutines started (\<open>spawned\<close>); the
  encryption key; the remembered DNS records and the calls to Cloudflare; the clock. The limiters
  of the middlewares are in a record of their own (\<open>gateway\<close>, Boot), and whether the tables exist yet is a flag beside the world (Boot). Functions that only compute
  are HOL functions; functions with effects are in the state monad over \<open>world\<close>. An error is a value of
  \<open>err + 'a\<close>, a panic and the death of the process are values of \<open>outcome\<close>, and None as the
  result of an operation means that it waits for ever. Database ids are natural numbers, job tokens
  64-bit words, durations and times integers of nanoseconds with the int64 wrap-around written out
  where the program computes with them (\<open>wrap64\<close>).

  \<^bold>\<open>What is a parameter.\<close> \<open>env\<close> (Store) carries the configuration and everything outside src/: the
  resolver, the random source, AES-GCM, x509, PEM, IDNA, the lego client, the Cloudflare client,
  bcrypt, the session store, archive/zip, and for each step of the program which statement fails
  (\<open>dbfail\<close>), which timer has fired and what the other goroutines did in between (\<open>interfere\<close>). Each
  atomic step advances \<open>tick\<close>, the argument of these oracles, so one environment describes a
  whole schedule with its faults. The router, the JSON binding (\<open>bindings\<close>) and the token bucket
  (\<open>bucketLib\<close>), the files and their TOML decoding (\<open>files\<close>) and the connection to PostgreSQL (\<open>openPG\<close>)
  are parameters too; AutoMigrate has the effect its library documents. Hypotheses about them are documented behaviour: \<open>aead_laws\<close> (what is sealed opens again), \<open>key_laws\<close> (a key is parsed back from its encoding), a hash that matches its own password, a library that does not panic
  (\<open>sturdy\<close>). Hypotheses on the schedule: \<open>stable e I\<close> (the others keep \<open>I\<close>), \<open>quiet\<close> (no one acts in
  between), \<open>calm\<close> (and no statement fails); a property says which one it needs.

  \<^bold>\<open>Theories, in the order of their imports.\<close>
    \<^item> Cert_Prelude, Go_Lib, Go_Time, Base64: collections and shared lemmas; strings, strconv, time
      (ParseDuration is a recursion with a measure) and encoding/base64 as far as the server uses them.
    \<^item> Config, Config_Props: config/config.go. Records, accessors, defaults, Validate; the closed
      form and bounds of the backoff loop; what a passed validation means.
    \<^item> Domain_Name: utils/domain.go. Normalisation and validation of names, every error.
    \<^item> Store: models/*.go and the primitives that stand for the GORM statements of the source,
      transactions included. Store_Inv: \<open>keeps\<close> and \<open>post\<close> with one rule per construct, the store
      invariant \<open>wf_store\<close>, and the interface of a column update (\<open>row_update\<close>, \<open>domain_update\<close>), which
      every \<open>Updates\<close> map of the source interprets.
    \<^item> Samples: the concrete server, environment and stores of the witnesses.
    \<^item> Cert_Registry, Cert_Slots, Cert_Registry_Props: cert_job_registry.go, cert_job_semaphore.go. The
      interfaces \<open>job_registry\<close> and \<open>slot_pool\<close>, interpreted on the critical sections of the code.
    \<^item> Cert_Status, Cert_Status_Props: the writers of the domain status and of the certificate
      rows in certificate.go, renewal_scheduler.go, cname.go, helpers.go.
    \<^item> Cert_Lock: lockDomainForCertJob. Mutual exclusion and the outcome in every case.
    \<^item> Crypto, Acme_Scope, Delegation_Dns, Acme, Acme_Props, Dns_Verify: services/*.go. Acme_Scope has
      what ties the work at the CA and at the DNS provider to its job; Delegation_Dns the provider
      that lego calls and the Cloudflare client with its memo of the zone. Delegation_Props: two jobs that
      follow each other on one delegation target.
    \<^item> Cert_Job, Cert_Job_Props, Cert_Worker_Props: certificate.go. The job with all its exits, its
      goroutine with the deferred calls, beginCertOperation.
    \<^item> Scheduler, Scheduler_Props: renewal_scheduler.go. Cleanup, renewal scan, shutdown rollback, loop.
    \<^item> Http, Dto, Domain_Api, Cname_Api, Cert_Api, User_Api, Deploy_Api: utils/response.go, session.go,
      hash.go and the handlers of controllers/. Middleware, Middleware_Props: middleware/*.go.
    \<^item> Routes: routes/routes.go. The route table and \<open>serve\<close> (a request through all middlewares to its
      handler). Boot: main.go, utils/logger.go, Load of config.go, config/database.go. \<open>boot\<close> is the
      program up to its first goroutine, \<open>shutdown\<close> what follows the signal, alone.
    \<^item> Api_Scope, Api_Props: the contracts between the handlers and an invariant (\<open>table_scope\<close>,
      \<open>domain_scope\<close>, \<open>table_request\<close>, \<open>request_scope\<close>), proved once for all handlers and interpreted for
      the store invariant, the rows of other users, and a refused request.
    \<^item> Domain_Props, Cert_Api_Props, Server_Props: what the handlers do, end to end. Renewal_Scan: a whole
      run of the automatic renewal, round by round. First_Certificate: the way of a certificate from the
      request over the account, the CA and the store to the download.
    \<^item> Job_Books, Job_Phases, Lifecycle, Lifecycle_Props: the server as a state machine. \<open>job_books\<close> is
      the contract of an invariant over the counters of the jobs; \<open>step\<close> lets requests, the
      scheduler, the clock and the phases of the goroutines take turns. Recovery: what an interrupted job leaves is freed by a cleanup.
    \<^item> Active_Certs, Server_Lives: the invariant that active domains have a certificate, kept by every
      step (\<open>scheduler_scope\<close> is the contract of an invariant with the scheduler), then over any number
      of processes in a row: a \<open>life\<close> is main from its start, on the rows of the process before, to its
      \<open>ending\<close>: refused, the listener failed, crashed, killed, or stopped by a signal, where the
      cancellation of the jobs, the wait and the rollback are steps with others in between (\<open>winding\<close>).

  \<^bold>\<open>What is shown.\<close> The store stays well formed through every request, job and scheduler run, under any
  interference that keeps it and any faults. Users are isolated and nothing but the public routes
  answers without a session; a session is only opened for who may have it. A lock excludes a second
  one; a superseded job writes nothing; a job ends with its domain active or in error, a certificate is saved
  together with the status or not at all, and what the CA answered is what the owner downloads. A first
  certificate is obtained in one go, from the request over a registered account to the download, when all
  libraries do their part (\<open>cooperative\<close>). Every request is answered and the scheduler never hangs
  when the generating timeout is positive. No sequence of attempts and releases loses a slot. In every reachable state of the server the slots, the wait
  group and the trackers account for the goroutines, one domain has one active job, and every way the goroutines go on ends, after at most six moves each,
  with nothing left behind. A stop by a signal leaves no domain generating and, once requests and scheduler are
  at rest, no job that could still write. A run of the automatic renewal starts the renewals that are due, no others,
  in order until the slots run out. The challenge record of a job that was replaced is taken away, and its late
  clean-up leaves the record of its successor alone. A domain whose job died with its process is freed by a cleanup once the timeout
  has passed. A domain that is active has a certificate, over any sequence of processes, while no
  statement fails; one failing statement of DeleteDomain loses it. An account key is read back as it was
  stored. A passed start has a valid configuration and unique certificates; the defaults, and a database
  without tables, are refused. Limits and origins are enforced, encryption round-trips, and
  the configuration that starts the server is sound. Some properties state where the code does
  something other than it means to: a manual
  request and VerifyCname overwrite the status generating, a timeout of the CA is taken for a
  cancellation, the eviction of an idle key refills its limit, a pending name passes to whoever
  asks once its CNAME is in place.

  \<^bold>\<open>Bounds.\<close> Loops over rows are structural recursions; \<open>schedulerLoop\<close> recurses over the list of
  events its select received, of any length; no operation has fuel. \<open>active_job_unique\<close> assumes
  fewer than 2^64 jobs, the range of the token counter. The closed form of the backoff assumes a cap
  of at most 2^62 ns. In the state machine a request, a scan and the body of a job are single steps;
  interleavings inside them are covered by the properties that quantify over \<open>interfere\<close>. The three
  steps of a shutdown are one step each. Queries without ORDER BY return the rows in the order of the
  list, over which every property quantifies.

  \<^bold>\<open>Not modelled.\<close> What is logged (of utils/logger.go only the level) and the sockets of main.go: I/O. That
  a signal comes, whether the open requests end within the 30 seconds of srv.Shutdown and whether
  ListenAndServe fails are open choices of \<open>life\<close>. Decoding TOML, connecting to the
  database and creating its schema: library calls, with their outcomes as parameters or documented effects.
  The deadline of a CNAME lookup (dnsVerifyTimeout): a lookup that ends at it is one of the resolver's
  errors. The execution of a deployment: the program does not implement it.
  Timing is not modelled beyond the clock readings: a wait is whether its timer fired first.
\<close>

end
